theory Spec2Isabelle
  imports Main "HOL-Library.Word" "HOL-Library.Char_ord" "HOL-Library.List_Lexorder"
begin

section \<open>Time and durations\<close>

text \<open>
  Go's \<^verbatim>\<open>time.Duration\<close> is a signed 64-bit count of nanoseconds; arithmetic on it
  wraps and comparisons are signed (\<open>sint\<close>). A \<^verbatim>\<open>time.Time\<close> obtained from
  \<^verbatim>\<open>time.Now()\<close> is modelled by its clock reading in nanoseconds, and
  \<^verbatim>\<open>t.Sub(u)\<close> is the difference of the two readings, saturated to the range of a
  \<^verbatim>\<open>Duration\<close> as the library documents it.
\<close>

type_synonym Duration = "64 word"

type_synonym Time = int

definition Minute :: Duration where
  "Minute = 60000000000"

definition maxDuration :: Duration where
  "maxDuration = 9223372036854775807"

definition minDuration :: Duration where
  "minDuration = 9223372036854775808"

definition time_Sub :: "Time \<Rightarrow> Time \<Rightarrow> Duration" where
  "time_Sub t u =
     (if 9223372036854775807 < t - u then maxDuration
      else if t - u < - 9223372036854775808 then minDuration
      else word_of_int (t - u))"

section \<open>The rate limiter\<close>

text \<open>
  \<^verbatim>\<open>rateLimitMap map[string]time.Time\<close>, guarded by \<^verbatim>\<open>rateLimitLock\<close>. The block
  between \<^verbatim>\<open>rateLimitLock.Lock()\<close> and \<^verbatim>\<open>rateLimitLock.Unlock()\<close> of
  \<^verbatim>\<open>processEmailVerification\<close> is the same in both revisions that have it
  (part_000 lines 224-233 with the constant \<^verbatim>\<open>5*time.Minute\<close>, part_001 lines 254-263
  with \<^verbatim>\<open>serverConfig.RateLimitDuration\<close>):
  \<^verbatim>\<open>
    lastTime, exists := rateLimitMap[m.Author.ID]
    now := time.Now()
    if exists && now.Sub(lastTime) < d { unlock; reply; return }
    rateLimitMap[m.Author.ID] = now
  \<close>
  \<open>rateLimitCheck d rl u now\<close> returns whether the handler goes on (allowed) and the
  map as the block leaves it.
\<close>

type_synonym RateLimitMap = "string \<rightharpoonup> Time"

definition rateLimitCheck :: "Duration \<Rightarrow> RateLimitMap \<Rightarrow> string \<Rightarrow> Time \<Rightarrow> bool \<times> RateLimitMap" where
  "rateLimitCheck d rl u now =
     (case rl u of
        Some lastTime \<Rightarrow>
          if sint (time_Sub now lastTime) < sint d then (False, rl)
          else (True, rl(u \<mapsto> now))
      | None \<Rightarrow> (True, rl(u \<mapsto> now)))"

section \<open>The email pattern\<close>

text \<open>
  \<^verbatim>\<open>emailRegex = regexp.MustCompile(`^[a-zA-Z0-9._%+-]+@uclan\.ac\.uk$`)\<close>.
  The pattern is a sequence of single-character atoms, the first one repeated one or
  more times, between the anchors \<^verbatim>\<open>^\<close> and \<^verbatim>\<open>$\<close>. No flag is set, so the anchors
  stand for the beginning and the end of the text and \<^verbatim>\<open>MatchString\<close> holds exactly
  when the whole text matches the sequence. Every atom of the pattern is ASCII, and no
  byte of a multi-byte UTF-8 sequence is ASCII, so matching bytes is matching runes here.
\<close>

datatype atom = Class "(char \<times> char) list"

datatype item = One atom | Plus atom

fun atom_matches :: "atom \<Rightarrow> char \<Rightarrow> bool" where
  "atom_matches (Class ranges) c =
     list_ex (\<lambda>(lo, hi). (of_char lo :: nat) \<le> of_char c \<and> (of_char c :: nat) \<le> of_char hi) ranges"

definition Lit :: "char \<Rightarrow> item" where
  "Lit c = One (Class [(c, c)])"

fun match_here :: "item list \<Rightarrow> string \<Rightarrow> bool" where
  "match_here [] s = (s = [])"
| "match_here (One a # re) [] = False"
| "match_here (One a # re) (c # cs) = (atom_matches a c \<and> match_here re cs)"
| "match_here (Plus a # re) [] = False"
| "match_here (Plus a # re) (c # cs) =
     (atom_matches a c \<and> (match_here re cs \<or> match_here (Plus a # re) cs))"

definition emailRegex :: "item list" where
  "emailRegex =
     Plus (Class [(CHR ''a'', CHR ''z''), (CHR ''A'', CHR ''Z''), (CHR ''0'', CHR ''9''),
                  (CHR ''.'', CHR ''.''), (CHR ''_'', CHR ''_''), (CHR ''%'', CHR ''%''),
                  (CHR ''+'', CHR ''+''), (CHR ''-'', CHR ''-'')])
     # map Lit ''@uclan.ac.uk''"

definition MatchString :: "item list \<Rightarrow> string \<Rightarrow> bool" where
  "MatchString re s = match_here re s"

section \<open>Values shared by the handlers\<close>

text \<open>
  A Go \<^verbatim>\<open>error\<close> is modelled by what the program asks of it: the text of
  \<^verbatim>\<open>err.Error()\<close> and whether \<^verbatim>\<open>os.IsNotExist(err)\<close> holds.
\<close>

datatype go_error = GoError (IsNotExist: bool) (Error: string)

text \<open>Run-time panics of the Go code that the model keeps as values.\<close>

datatype go_panic = AssignmentToEntryInNilMap

text \<open>
  \<^verbatim>\<open>strings.Split(customID, "_")\<close>: the pieces between the occurrences of the
  one-character separator; a text with \<open>n\<close> separators has \<open>n + 1\<close> pieces.
\<close>

fun Split :: "string \<Rightarrow> char \<Rightarrow> string list" where
  "Split [] sep = [[]]"
| "Split (c # cs) sep =
     (if c = sep then [] # Split cs sep
      else (case Split cs sep of [] \<Rightarrow> [[c]] | p # ps \<Rightarrow> (c # p) # ps))"

text \<open>\<^verbatim>\<open>%d\<close> of \<^verbatim>\<open>fmt.Sprintf\<close>: the decimal digits, with a minus sign when negative.\<close>

definition digit_char :: "nat \<Rightarrow> char" where
  "digit_char n = ''0123456789'' ! n"

fun nat_digits :: "nat \<Rightarrow> string" where
  "nat_digits n = (if n < 10 then [digit_char n] else nat_digits (n div 10) @ [digit_char (n mod 10)])"

definition Sprintf_d :: "int \<Rightarrow> string" where
  "Sprintf_d k = (if k < 0 then CHR ''-'' # nat_digits (nat (- k)) else nat_digits (nat k))"

text \<open>Go's integer division truncates towards zero.\<close>

definition go_div :: "int \<Rightarrow> int \<Rightarrow> int" where
  "go_div a b = sgn a * sgn b * (\<bar>a\<bar> div \<bar>b\<bar>)"

section \<open>Configuration\<close>

text \<open>
  \<^verbatim>\<open>Config\<close> holds the one map \<^verbatim>\<open>Servers map[string]ServerConfig\<close>. A Go map can be
  \<^verbatim>\<open>nil\<close>: reading a nil map finds nothing, assigning to it panics. \<open>Servers\<close> is
  \<open>None\<close> for the nil map. The type of the entries is a parameter, since
  \<^verbatim>\<open>ServerConfig\<close> differs between the revisions.
\<close>

record 'v Config =
  Servers :: "(string \<rightharpoonup> 'v) option"

text \<open>\<^verbatim>\<open>v, exists := config.Servers[g]\<close> as an option, and \<^verbatim>\<open>config.Servers[g] = v\<close>.\<close>

definition Servers_lookup :: "'v Config \<Rightarrow> string \<Rightarrow> 'v option" where
  "Servers_lookup c g = (case Servers c of None \<Rightarrow> None | Some m \<Rightarrow> m g)"

definition Servers_assign :: "'v Config \<Rightarrow> string \<Rightarrow> 'v \<Rightarrow> go_panic + 'v Config" where
  "Servers_assign c g v =
     (case Servers c of
        None \<Rightarrow> Inl AssignmentToEntryInNilMap
      | Some m \<Rightarrow> Inr (c\<lparr>Servers := Some (m(g \<mapsto> v))\<rparr>))"

text \<open>\<^verbatim>\<open>ServerConfig\<close> of part_001 (lines 19-24), its zero value \<^verbatim>\<open>ServerConfig{}\<close>, and
  \<^verbatim>\<open>config.Servers[g]\<close> read as one value (the zero value for a missing key).\<close>

record ServerConfig =
  MemberAuditChannelID :: string
  UnverifiedRoleID :: string
  RateLimitEnabled :: bool
  RateLimitDuration :: Duration

definition zero_ServerConfig :: ServerConfig where
  "zero_ServerConfig =
     \<lparr>MemberAuditChannelID = [], UnverifiedRoleID = [], RateLimitEnabled = False, RateLimitDuration = 0\<rparr>"

definition Servers_index :: "ServerConfig Config \<Rightarrow> string \<Rightarrow> ServerConfig" where
  "Servers_index c g = (case Servers_lookup c g of None \<Rightarrow> zero_ServerConfig | Some v \<Rightarrow> v)"

text \<open>\<^verbatim>\<open>ServerConfig\<close> of part_000 and of main.go (lines 19-23 and 16-20): the
  verification channel, and no rate-limit fields.\<close>

record ServerConfig_part_000 =
  VerificationChannelID_0 :: string
  MemberAuditChannelID_0 :: string
  UnverifiedRoleID_0 :: string

section \<open>The platform\<close>

text \<open>
  The handlers talk to the chat platform through \<^verbatim>\<open>*discordgo.Session\<close>. Every
  outbound call is recorded as an \<open>event\<close>, in the order the handler makes it, together
  with the calls of \<^verbatim>\<open>log.Printf\<close>, \<^verbatim>\<open>log.Println\<close> and \<^verbatim>\<open>fmt.Println\<close> (format
  and arguments). What the platform answers is given by the fields of \<open>Session\<close>.
\<close>

datatype ButtonStyle = SuccessButton | DangerButton

record Button =
  Label :: string
  Style :: ButtonStyle
  CustomID :: string

datatype logarg = Str string | Err go_error | Num nat

datatype event =
    Log string "logarg list"
  | Call_GuildMember string string
  | Call_ChannelMessageSend string string
  | Call_ChannelMessageSendComplex string string "Button list"
  | Call_InteractionRespondDeferred
  | Call_InteractionRespond string
  | Call_InteractionResponseEdit string
  | Call_ChannelMessageEditComplex string string string "Button list"
  | Call_UserChannelCreate string
  | Call_GuildMemberRoleRemove string string string
  | Call_GuildMemberDelete string string

type_synonym ChannelType = nat

definition ChannelTypeDM :: ChannelType where
  "ChannelTypeDM = 1"

type_synonym InteractionType = nat

definition InteractionMessageComponent :: InteractionType where
  "InteractionMessageComponent = 3"

record Session =
  State_User_ID :: string
  State_Guilds :: "string list"
  Channel :: "string \<Rightarrow> go_error + ChannelType"
  GuildMember :: "string \<Rightarrow> string \<Rightarrow> bool"
  ChannelMessageSend :: "string \<Rightarrow> string \<Rightarrow> go_error option"
  ChannelMessageSendComplex :: "string \<Rightarrow> string \<Rightarrow> Button list \<Rightarrow> go_error option"
  InteractionRespondDeferred :: "go_error option"
  InteractionResponseEdit :: "string \<Rightarrow> go_error option"
  ChannelMessageEditComplex :: "string \<Rightarrow> string \<Rightarrow> string \<Rightarrow> Button list \<Rightarrow> go_error option"
  UserChannelCreate :: "string \<Rightarrow> go_error + string"
  GuildMemberRoleRemove :: "string \<Rightarrow> string \<Rightarrow> string \<Rightarrow> go_error option"
  GuildMemberDelete :: "string \<Rightarrow> string \<Rightarrow> go_error option"

text \<open>
  \<open>State_Guilds\<close> lists \<^verbatim>\<open>guild.ID\<close> of \<^verbatim>\<open>s.State.Guilds\<close> in order; \<open>GuildMember s g u\<close>
  is the test \<^verbatim>\<open>err == nil && member != nil\<close> on the answer of
  \<^verbatim>\<open>s.GuildMember(g, u)\<close>; \<open>UserChannelCreate s u\<close> gives \<^verbatim>\<open>dmChannel.ID\<close>; every
  other field gives the \<^verbatim>\<open>err\<close> of its call (\<open>None\<close> for \<^verbatim>\<open>nil\<close>).
\<close>

record MessageCreate =
  m_Author_ID :: string
  m_Author_Username :: string
  m_Author_Discriminator :: string
  m_ChannelID :: string
  m_GuildID :: string
  m_Content :: string

record InteractionCreate =
  i_Type :: InteractionType
  i_CustomID :: string
  i_GuildID :: string
  i_ChannelID :: string
  i_Message_ID :: string

section \<open>Direct messages: \<^verbatim>\<open>memberDM\<close> and \<^verbatim>\<open>processEmailVerification\<close>\<close>

text \<open>
  The loop over \<^verbatim>\<open>s.State.Guilds\<close> that all three revisions share:
  \<^verbatim>\<open>
    var guildID string
    for _, guild := range guilds {
      member, err := s.GuildMember(guild.ID, m.Author.ID)
      if err == nil && member != nil { guildID = guild.ID; break }
    }
  \<close>
  It returns the queries made, in order, and \<^verbatim>\<open>guildID\<close> (empty when no guild matched).
\<close>

fun resolve_guild :: "Session \<Rightarrow> string \<Rightarrow> string list \<Rightarrow> event list \<times> string" where
  "resolve_guild s u [] = ([], [])"
| "resolve_guild s u (g # gs) =
     (if GuildMember s g u then ([Call_GuildMember g u], g)
      else (case resolve_guild s u gs of (evs, guildID) \<Rightarrow> (Call_GuildMember g u # evs, guildID)))"

definition approveButton :: "string \<Rightarrow> Button" where
  "approveButton authorID = \<lparr>Label = ''Approve'', Style = SuccessButton, CustomID = ''approve_'' @ authorID\<rparr>"

definition denyButton :: "string \<Rightarrow> Button" where
  "denyButton authorID = \<lparr>Label = ''Deny'', Style = DangerButton, CustomID = ''deny_'' @ authorID\<rparr>"

definition request_content :: "MessageCreate \<Rightarrow> string" where
  "request_content m =
     ''User '' @ m_Author_Username m @ ''#'' @ m_Author_Discriminator m
       @ '' has requested verification with email '' @ m_Content m"

definition wait_message :: "Duration \<Rightarrow> string" where
  "wait_message d =
     ''Please wait '' @ Sprintf_d (go_div (sint d) (sint Minute))
       @ '' minutes before sending another verification request.''"

definition invalid_email_message :: string where
  "invalid_email_message = ''Invalid email. Please provide a valid UCLan email.''"

text \<open>What part_001 does with the resolved guild (lines 282-318): no guard on the
  audit channel stands before the post.\<close>

definition post_request_part_001 ::
    "Session \<Rightarrow> MessageCreate \<Rightarrow> ServerConfig Config \<Rightarrow> string \<Rightarrow> event list" where
  "post_request_part_001 s m cfg guildID =
     (if guildID = [] then [Log ''User is not in any guild'' []]
      else
        (let serverConfig = Servers_index cfg guildID;
             components = [approveButton (m_Author_ID m), denyButton (m_Author_ID m)]
         in [Call_ChannelMessageSendComplex (MemberAuditChannelID serverConfig)
               (request_content m) components]
            @ (case ChannelMessageSendComplex s (MemberAuditChannelID serverConfig)
                      (request_content m) components of
                 Some err \<Rightarrow> [Log ''Error sending message to audit channel: %v'' [Err err]]
               | None \<Rightarrow> [])))"

text \<open>part_001, lines 243-319. The rate-limit map is the only state the handler changes.\<close>

definition processEmailVerification_part_001 ::
    "Session \<Rightarrow> Time \<Rightarrow> MessageCreate \<Rightarrow> ServerConfig Config \<Rightarrow> RateLimitMap \<Rightarrow> event list \<times> RateLimitMap" where
  "processEmailVerification_part_001 s now m cfg rl =
     (case Servers_lookup cfg (m_GuildID m) of
        None \<Rightarrow> ([Log ''No config found for guild %s'' [Str (m_GuildID m)]], rl)
      | Some serverConfig \<Rightarrow>
          (case (if RateLimitEnabled serverConfig
                 then rateLimitCheck (RateLimitDuration serverConfig) rl (m_Author_ID m) now
                 else (True, rl)) of
             (allowed, rl') \<Rightarrow>
               if \<not> allowed then
                 ([Call_ChannelMessageSend (m_ChannelID m) (wait_message (RateLimitDuration serverConfig))], rl')
               else if \<not> MatchString emailRegex (m_Content m) then
                 ([Call_ChannelMessageSend (m_ChannelID m) invalid_email_message], rl')
               else
                 (case resolve_guild s (m_Author_ID m) (State_Guilds s) of
                    (queries, guildID) \<Rightarrow> (queries @ post_request_part_001 s m cfg guildID, rl'))))"

text \<open>What part_000 does with the resolved guild (lines 251-292): the guard before the
  post tests \<^verbatim>\<open>VerificationChannelID\<close>, its log line names the member audit channel, and
  the post goes to \<^verbatim>\<open>MemberAuditChannelID\<close>.\<close>

definition post_request_part_000 ::
    "Session \<Rightarrow> MessageCreate \<Rightarrow> ServerConfig_part_000 Config \<Rightarrow> string \<Rightarrow> event list" where
  "post_request_part_000 s m cfg guildID =
     (if guildID = [] then [Log ''User is not in any guild'' []]
      else
        (case Servers_lookup cfg guildID of
           None \<Rightarrow> [Log ''No member audit channel configured for guild %s'' [Str guildID]]
         | Some serverConfig \<Rightarrow>
             if VerificationChannelID_0 serverConfig = [] then
               [Log ''No member audit channel configured for guild %s'' [Str guildID]]
             else
               (let components = [approveButton (m_Author_ID m), denyButton (m_Author_ID m)]
                in [Call_ChannelMessageSendComplex (MemberAuditChannelID_0 serverConfig)
                      (request_content m) components]
                   @ (case ChannelMessageSendComplex s (MemberAuditChannelID_0 serverConfig)
                             (request_content m) components of
                        Some err \<Rightarrow> [Log ''Error sending message to audit channel: %v'' [Err err]]
                      | None \<Rightarrow> []))))"

text \<open>part_000, lines 222-293: the limit is the constant \<^verbatim>\<open>5*time.Minute\<close> and no
  configuration is read before the guild is resolved.\<close>

definition processEmailVerification_part_000 ::
    "Session \<Rightarrow> Time \<Rightarrow> MessageCreate \<Rightarrow> ServerConfig_part_000 Config \<Rightarrow> RateLimitMap
       \<Rightarrow> event list \<times> RateLimitMap" where
  "processEmailVerification_part_000 s now m cfg rl =
     (case rateLimitCheck (5 * Minute) rl (m_Author_ID m) now of
        (allowed, rl') \<Rightarrow>
          if \<not> allowed then
            ([Call_ChannelMessageSend (m_ChannelID m)
                ''Please wait 5 minutes before sending another verification request.''], rl')
          else if \<not> MatchString emailRegex (m_Content m) then
            ([Call_ChannelMessageSend (m_ChannelID m) invalid_email_message], rl')
          else
            (case resolve_guild s (m_Author_ID m) (State_Guilds s) of
               (queries, guildID) \<Rightarrow> (queries @ post_request_part_000 s m cfg guildID, rl')))"

text \<open>main.go, lines 204-237: no rate limit, no pattern, no controls; the request is a
  plain message naming \<^verbatim>\<open>m.Author.ID\<close>.\<close>

definition processEmailVerification_main ::
    "Session \<Rightarrow> MessageCreate \<Rightarrow> ServerConfig_part_000 Config \<Rightarrow> event list" where
  "processEmailVerification_main s m cfg =
     (case resolve_guild s (m_Author_ID m) (State_Guilds s) of
        (queries, guildID) \<Rightarrow>
          if guildID = [] then queries @ [Log ''User is not in any guild'' []]
          else
            (case Servers_lookup cfg guildID of
               None \<Rightarrow> queries @ [Log ''No member audit channel configured for guild %s'' [Str guildID]]
             | Some serverConfig \<Rightarrow>
                 if VerificationChannelID_0 serverConfig = [] then
                   queries @ [Log ''No member audit channel configured for guild %s'' [Str guildID]]
                 else
                   (let content = ''User '' @ m_Author_ID m @ '' has requested verification with email ''
                                    @ m_Content m
                    in queries
                       @ [Call_ChannelMessageSend (MemberAuditChannelID_0 serverConfig) content]
                       @ (case ChannelMessageSend s (MemberAuditChannelID_0 serverConfig) content of
                            Some err \<Rightarrow> [Log ''Error sending message to audit channel: %v'' [Err err]]
                          | None \<Rightarrow> []))))"

text \<open>\<^verbatim>\<open>memberDM\<close> (the same in the three revisions, part_001 lines 223-241): messages of
  the bot itself are ignored, and only a message in a channel of type DM is processed.
  \<open>process\<close> is the revision's \<^verbatim>\<open>processEmailVerification\<close>, \<open>st\<close> the state it works on.\<close>

definition memberDM ::
    "(MessageCreate \<Rightarrow> 'st \<Rightarrow> event list \<times> 'st) \<Rightarrow> Session \<Rightarrow> MessageCreate \<Rightarrow> 'st \<Rightarrow> event list \<times> 'st" where
  "memberDM process s m st =
     (if m_Author_ID m = State_User_ID s then ([], st)
      else
        (case Channel s (m_ChannelID m) of
           Inl err \<Rightarrow> ([Log ''Error getting channel:'' [Err err]], st)
         | Inr channelType \<Rightarrow>
             if channelType = ChannelTypeDM then process m st else ([], st)))"

section \<open>Button interactions: \<^verbatim>\<open>handleButton\<close>\<close>

definition approval_line :: "string \<Rightarrow> string" where
  "approval_line userID =
     ''<@'' @ userID @ ''> has been approved! Welcome to the server! ''
       @ [CHR 0xF0, CHR 0x9F, CHR 0x8E, CHR 0x89]"

definition approvalMessage :: string where
  "approvalMessage =
     ''You have been approved to join the UCLan Computing Society server. Welcome! ''
       @ [CHR 0xF0, CHR 0x9F, CHR 0x8E, CHR 0x89]"

definition denial_line :: "string \<Rightarrow> string" where
  "denial_line userID = ''<@'' @ userID @ ''> has been denied and removed from the server.''"

definition denialMessage :: string where
  "denialMessage =
     ''Oops! You need to verify your identity with a UCLan email address to access the UCLan Computing Society server. This is to ensure only society members have access to the server and ensure we keep a safe and civil community.''
       @ [CHR 0x0A, CHR 0x0A]
       @ ''As you did not verify your email, you were kicked from the server. You can rejoin and retry verification using this link: https://discord.gg/CEgCy5ejag. Thank you ''
       @ [CHR 0xF0, CHR 0x9F, CHR 0x99, CHR 0x82]"

text \<open>
  A branch of the \<^verbatim>\<open>switch action\<close> gives the events it makes and, unless it returns
  from the handler, the \<^verbatim>\<open>responseContent\<close> it sets.
\<close>

text \<open>\<^verbatim>\<open>case "approve"\<close> of part_001 (lines 356-382).\<close>

definition approve_part_001 ::
    "Session \<Rightarrow> InteractionCreate \<Rightarrow> ServerConfig Config \<Rightarrow> string \<Rightarrow> event list \<times> string option" where
  "approve_part_001 s i cfg userID =
     (case UserChannelCreate s userID of
        Inl err \<Rightarrow> ([Call_UserChannelCreate userID, Log ''Error creating DM channel: %v'' [Err err]], None)
      | Inr dmChannel_ID \<Rightarrow>
          ([Call_UserChannelCreate userID, Call_ChannelMessageSend dmChannel_ID approvalMessage]
           @ (case ChannelMessageSend s dmChannel_ID approvalMessage of
                Some err \<Rightarrow> [Log ''Error sending DM: %v'' [Err err]]
              | None \<Rightarrow> [])
           @ (case Servers_lookup cfg (i_GuildID i) of
                None \<Rightarrow> []
              | Some serverConfig \<Rightarrow>
                  if UnverifiedRoleID serverConfig \<noteq> [] then
                    Call_GuildMemberRoleRemove (i_GuildID i) userID (UnverifiedRoleID serverConfig)
                    # (case GuildMemberRoleRemove s (i_GuildID i) userID (UnverifiedRoleID serverConfig) of
                         Some err \<Rightarrow> [Log ''Error removing unverified role: %v'' [Err err]]
                       | None \<Rightarrow> [])
                  else []),
           Some (approval_line userID)))"

text \<open>\<^verbatim>\<open>case "approve"\<close> of part_000 (lines 330-342): the role is removed, no message is
  sent to the user.\<close>

definition approve_part_000 ::
    "Session \<Rightarrow> InteractionCreate \<Rightarrow> ServerConfig_part_000 Config \<Rightarrow> string \<Rightarrow> event list \<times> string option" where
  "approve_part_000 s i cfg userID =
     ((case Servers_lookup cfg (i_GuildID i) of
         None \<Rightarrow> []
       | Some serverConfig \<Rightarrow>
           if UnverifiedRoleID_0 serverConfig \<noteq> [] then
             Call_GuildMemberRoleRemove (i_GuildID i) userID (UnverifiedRoleID_0 serverConfig)
             # (case GuildMemberRoleRemove s (i_GuildID i) userID (UnverifiedRoleID_0 serverConfig) of
                  Some err \<Rightarrow> [Log ''Error removing unverified role: %v'' [Err err]]
                | None \<Rightarrow> [])
           else []),
      Some (approval_line userID))"

text \<open>\<^verbatim>\<open>case "deny"\<close> (part_001 lines 383-408, part_000 lines 343-368, the same text).\<close>

definition deny :: "Session \<Rightarrow> InteractionCreate \<Rightarrow> string \<Rightarrow> event list \<times> string option" where
  "deny s i userID =
     (case UserChannelCreate s userID of
        Inl err \<Rightarrow> ([Call_UserChannelCreate userID, Log ''Error creating DM channel: %v'' [Err err]], None)
      | Inr dmChannel_ID \<Rightarrow>
          (case GuildMemberDelete s (i_GuildID i) userID of
             Some err \<Rightarrow>
               ([Call_UserChannelCreate userID, Call_ChannelMessageSend dmChannel_ID denialMessage]
                @ (case ChannelMessageSend s dmChannel_ID denialMessage of
                     Some err \<Rightarrow> [Log ''Error sending DM: %v'' [Err err]]
                   | None \<Rightarrow> [])
                @ [Call_GuildMemberDelete (i_GuildID i) userID,
                   Log ''Error kicking user %s: %v'' [Str userID, Err err],
                   Call_InteractionResponseEdit ''Error processing denial''],
                None)
           | None \<Rightarrow>
               ([Call_UserChannelCreate userID, Call_ChannelMessageSend dmChannel_ID denialMessage]
                @ (case ChannelMessageSend s dmChannel_ID denialMessage of
                     Some err \<Rightarrow> [Log ''Error sending DM: %v'' [Err err]]
                   | None \<Rightarrow> [])
                @ [Call_GuildMemberDelete (i_GuildID i) userID],
                Some (denial_line userID))))"

text \<open>\<^verbatim>\<open>default\<close> of the switch (part_001 lines 409-415).\<close>

definition unknown_action :: "string \<Rightarrow> event list \<times> string option" where
  "unknown_action action =
     ([Log ''Unknown action: %s'' [Str action], Call_InteractionResponseEdit ''Unknown action''], None)"

text \<open>After the switch (part_001 lines 418-436): the audit message is edited to the
  result with an empty list of components, then the deferred response is edited.\<close>

definition after_switch :: "Session \<Rightarrow> InteractionCreate \<Rightarrow> string \<Rightarrow> event list" where
  "after_switch s i responseContent =
     [Call_ChannelMessageEditComplex (i_ChannelID i) (i_Message_ID i) responseContent []]
     @ (case ChannelMessageEditComplex s (i_ChannelID i) (i_Message_ID i) responseContent [] of
          Some err \<Rightarrow> [Log ''Error editing original message: %v'' [Err err]]
        | None \<Rightarrow> [])
     @ [Call_InteractionResponseEdit ''Action completed successfully'']
     @ (case InteractionResponseEdit s ''Action completed successfully'' of
          Some err \<Rightarrow> [Log ''Error editing interaction response: %v'' [Err err]]
        | None \<Rightarrow> [])"

text \<open>The handler around the switch (part_001 lines 321-355 and 416-437, part_000 lines
  295-329 and 376-397, the same text); \<open>approve\<close> is the revision's first case.\<close>

definition handleButton_with ::
    "(string \<Rightarrow> event list \<times> string option) \<Rightarrow> Session \<Rightarrow> InteractionCreate \<Rightarrow> event list" where
  "handleButton_with approve s i =
     Call_InteractionRespondDeferred
     # (case InteractionRespondDeferred s of
          Some err \<Rightarrow> [Log ''Error acknowledging interaction: %v'' [Err err]]
        | None \<Rightarrow>
            if i_Type i \<noteq> InteractionMessageComponent then
              [Log ''Received non-component interaction: %v'' [Num (i_Type i)]]
            else
              Log ''Received button interaction: %s'' [Str (i_CustomID i)]
              # (let parts = Split (i_CustomID i) (CHR ''_'') in
                 if length parts \<noteq> 2 then [Log ''Invalid button customID format: %s'' [Str (i_CustomID i)]]
                 else
                   (let action = parts ! 0; userID = parts ! 1 in
                    Log ''Processing %s action for user %s'' [Str action, Str userID]
                    # (case (if action = ''approve'' then approve userID
                             else if action = ''deny'' then deny s i userID
                             else unknown_action action) of
                         (evs, None) \<Rightarrow> evs
                       | (evs, Some responseContent) \<Rightarrow> evs @ after_switch s i responseContent))))"

definition handleButton_part_001 :: "Session \<Rightarrow> InteractionCreate \<Rightarrow> ServerConfig Config \<Rightarrow> event list" where
  "handleButton_part_001 s i cfg = handleButton_with (approve_part_001 s i cfg) s i"

definition handleButton_part_000 ::
    "Session \<Rightarrow> InteractionCreate \<Rightarrow> ServerConfig_part_000 Config \<Rightarrow> event list" where
  "handleButton_part_000 s i cfg = handleButton_with (approve_part_000 s i cfg) s i"

section \<open>The configuration file: \<^verbatim>\<open>loadConfig\<close> and \<^verbatim>\<open>saveConfig\<close>\<close>

text \<open>
  The disk as the two functions see it: the contents of the files that exist, and the
  errors the operating system answers with for a path (a permission, an I/O error).
  \<^verbatim>\<open>os.ReadFile\<close> of a path with no file answers an error for which
  \<^verbatim>\<open>os.IsNotExist\<close> holds.
\<close>

record Disk =
  files :: "string \<rightharpoonup> string"
  read_error :: "string \<rightharpoonup> go_error"
  mkdir_error :: "string \<rightharpoonup> go_error"
  write_error :: "string \<rightharpoonup> go_error"

definition ReadFile :: "Disk \<Rightarrow> string \<Rightarrow> go_error + string" where
  "ReadFile disk path =
     (case read_error disk path of
        Some err \<Rightarrow> Inl err
      | None \<Rightarrow>
          (case files disk path of
             None \<Rightarrow> Inl (GoError True (''open '' @ path @ '': no such file or directory''))
           | Some data \<Rightarrow> Inr data))"

definition MkdirAll :: "Disk \<Rightarrow> string \<Rightarrow> go_error option" where
  "MkdirAll disk path = mkdir_error disk path"

definition WriteFile :: "Disk \<Rightarrow> string \<Rightarrow> string \<Rightarrow> go_error option \<times> Disk" where
  "WriteFile disk path data =
     (case write_error disk path of
        Some err \<Rightarrow> (Some err, disk)
      | None \<Rightarrow> (None, disk\<lparr>files := (files disk)(path \<mapsto> data)\<rparr>))"

text \<open>
  \<^verbatim>\<open>json.MarshalIndent(config, "", "  ")\<close> and \<^verbatim>\<open>json.Unmarshal(data, &config)\<close> belong to
  the Go library, not to the repository: the two functions take them as the
  parameter \<open>J\<close>. \<open>Unmarshal J data c\<close> gives the error and the configuration the call
  leaves in \<^verbatim>\<open>config\<close>, which was \<open>c\<close> before.
\<close>

record 'c Codec =
  MarshalIndent :: "'c \<Rightarrow> go_error + string"
  Unmarshal :: "string \<Rightarrow> 'c \<Rightarrow> go_error option \<times> 'c"

text \<open>part_001, lines 41-53.\<close>

definition loadConfig_part_001 ::
    "ServerConfig Config Codec \<Rightarrow> Disk \<Rightarrow> ServerConfig Config \<Rightarrow> go_error option \<times> ServerConfig Config" where
  "loadConfig_part_001 J disk config =
     (case ReadFile disk ''./data/config.json'' of
        Inl err \<Rightarrow> if IsNotExist err then (None, \<lparr>Servers = Some Map.empty\<rparr>) else (Some err, config)
      | Inr data \<Rightarrow> Unmarshal J data config)"

text \<open>main.go, lines 31-43 (part_000, lines 40-52, is the same text).\<close>

definition loadConfig_main ::
    "ServerConfig_part_000 Config Codec \<Rightarrow> Disk \<Rightarrow> ServerConfig_part_000 Config
       \<Rightarrow> go_error option \<times> ServerConfig_part_000 Config" where
  "loadConfig_main J disk config =
     (case ReadFile disk ''config.json'' of
        Inl err \<Rightarrow> if IsNotExist err then (None, \<lparr>Servers = Some Map.empty\<rparr>) else (Some err, config)
      | Inr data \<Rightarrow> Unmarshal J data config)"

text \<open>part_001, lines 55-68.\<close>

definition saveConfig_part_001 :: "ServerConfig Config Codec \<Rightarrow> ServerConfig Config \<Rightarrow> Disk \<Rightarrow> go_error option \<times> Disk" where
  "saveConfig_part_001 J config disk =
     (case MarshalIndent J config of
        Inl err \<Rightarrow> (Some err, disk)
      | Inr data \<Rightarrow>
          (case MkdirAll disk ''./data'' of
             Some err \<Rightarrow> (Some err, disk)
           | None \<Rightarrow> WriteFile disk ''./data/config.json'' data))"

section \<open>Administrative commands (part_001)\<close>

text \<open>
  Each handler takes the guild of the interaction (\<^verbatim>\<open>i.GuildID\<close>) and, where the
  command has one, the value of its required option as the library resolves it
  (\<^verbatim>\<open>options[0].ChannelValue(s).ID\<close>, \<^verbatim>\<open>options[0].RoleValue(s, i.GuildID).ID\<close>,
  \<^verbatim>\<open>options[0].IntValue()\<close>). It gives the configuration and the disk it leaves and the
  reply it sends, or the panic of an assignment to a nil map.
\<close>

text \<open>The reply after \<^verbatim>\<open>saveConfig()\<close>, common to the five handlers that write.\<close>

definition save_and_reply ::
    "ServerConfig Config Codec \<Rightarrow> string \<Rightarrow> ServerConfig Config \<Rightarrow> Disk
       \<Rightarrow> event list \<times> ServerConfig Config \<times> Disk" where
  "save_and_reply J success config disk =
     (case saveConfig_part_001 J config disk of
        (Some err, disk') \<Rightarrow> ([Call_InteractionRespond (''Error saving config: '' @ Error err)], config, disk')
      | (None, disk') \<Rightarrow> ([Call_InteractionRespond success], config, disk'))"

text \<open>\<^verbatim>\<open>if _, exists := config.Servers[guildID]; !exists { config.Servers[guildID] = ServerConfig{} }\<close>,
  the first statement of every writing handler.\<close>

definition ensure_entry :: "ServerConfig Config \<Rightarrow> string \<Rightarrow> go_panic + ServerConfig Config" where
  "ensure_entry config guildID =
     (case Servers_lookup config guildID of
        None \<Rightarrow> Servers_assign config guildID zero_ServerConfig
      | Some _ \<Rightarrow> Inr config)"

text \<open>lines 439-470.\<close>

definition setMemberAuditChannel ::
    "ServerConfig Config Codec \<Rightarrow> string \<Rightarrow> string \<Rightarrow> ServerConfig Config \<Rightarrow> Disk
       \<Rightarrow> go_panic + event list \<times> ServerConfig Config \<times> Disk" where
  "setMemberAuditChannel J guildID channelID config disk =
     (case ensure_entry config guildID of
        Inl p \<Rightarrow> Inl p
      | Inr config1 \<Rightarrow>
          (let serverConfig = Servers_index config1 guildID;
               serverConfig = serverConfig\<lparr>MemberAuditChannelID := channelID\<rparr>
           in case Servers_assign config1 guildID serverConfig of
                Inl p \<Rightarrow> Inl p
              | Inr config2 \<Rightarrow>
                  Inr (save_and_reply J
                         (''Member audit channel set successfully! :white_check_mark: <#'' @ channelID @ ''>'')
                         config2 disk)))"

text \<open>lines 472-503.\<close>

definition setUnverifiedRole ::
    "ServerConfig Config Codec \<Rightarrow> string \<Rightarrow> string \<Rightarrow> ServerConfig Config \<Rightarrow> Disk
       \<Rightarrow> go_panic + event list \<times> ServerConfig Config \<times> Disk" where
  "setUnverifiedRole J guildID roleID config disk =
     (case ensure_entry config guildID of
        Inl p \<Rightarrow> Inl p
      | Inr config1 \<Rightarrow>
          (let serverConfig = Servers_index config1 guildID;
               serverConfig = serverConfig\<lparr>UnverifiedRoleID := roleID\<rparr>
           in case Servers_assign config1 guildID serverConfig of
                Inl p \<Rightarrow> Inl p
              | Inr config2 \<Rightarrow>
                  Inr (save_and_reply J
                         (''Verified role set successfully! :white_check_mark: <@&'' @ roleID @ ''>'')
                         config2 disk)))"

text \<open>lines 505-539.\<close>

definition enableRateLimit ::
    "ServerConfig Config Codec \<Rightarrow> string \<Rightarrow> ServerConfig Config \<Rightarrow> Disk
       \<Rightarrow> go_panic + event list \<times> ServerConfig Config \<times> Disk" where
  "enableRateLimit J guildID config disk =
     (case ensure_entry config guildID of
        Inl p \<Rightarrow> Inl p
      | Inr config1 \<Rightarrow>
          (let serverConfig = Servers_index config1 guildID;
               serverConfig = serverConfig\<lparr>RateLimitEnabled := True\<rparr>;
               serverConfig = (if RateLimitDuration serverConfig = 0
                               then serverConfig\<lparr>RateLimitDuration := 5 * Minute\<rparr>
                               else serverConfig)
           in case Servers_assign config1 guildID serverConfig of
                Inl p \<Rightarrow> Inl p
              | Inr config2 \<Rightarrow>
                  Inr (save_and_reply J ''Rate limiting enabled successfully! :white_check_mark:''
                         config2 disk)))"

text \<open>lines 541-571.\<close>

definition disableRateLimit ::
    "ServerConfig Config Codec \<Rightarrow> string \<Rightarrow> ServerConfig Config \<Rightarrow> Disk
       \<Rightarrow> go_panic + event list \<times> ServerConfig Config \<times> Disk" where
  "disableRateLimit J guildID config disk =
     (case ensure_entry config guildID of
        Inl p \<Rightarrow> Inl p
      | Inr config1 \<Rightarrow>
          (let serverConfig = Servers_index config1 guildID;
               serverConfig = serverConfig\<lparr>RateLimitEnabled := False\<rparr>
           in case Servers_assign config1 guildID serverConfig of
                Inl p \<Rightarrow> Inl p
              | Inr config2 \<Rightarrow>
                  Inr (save_and_reply J ''Rate limiting disabled successfully! :white_check_mark:''
                         config2 disk)))"

text \<open>lines 573-605; \<^verbatim>\<open>time.Duration(minutes) * time.Minute\<close> is a 64-bit product.\<close>

definition setRateLimit ::
    "ServerConfig Config Codec \<Rightarrow> string \<Rightarrow> 64 word \<Rightarrow> ServerConfig Config \<Rightarrow> Disk
       \<Rightarrow> go_panic + event list \<times> ServerConfig Config \<times> Disk" where
  "setRateLimit J guildID minutes config disk =
     (case ensure_entry config guildID of
        Inl p \<Rightarrow> Inl p
      | Inr config1 \<Rightarrow>
          (let serverConfig = Servers_index config1 guildID;
               serverConfig = serverConfig\<lparr>RateLimitDuration := minutes * Minute\<rparr>
           in case Servers_assign config1 guildID serverConfig of
                Inl p \<Rightarrow> Inl p
              | Inr config2 \<Rightarrow>
                  Inr (save_and_reply J
                         (''Rate limit set to '' @ Sprintf_d (sint minutes)
                            @ '' minutes successfully! :white_check_mark:'')
                         config2 disk)))"

text \<open>lines 607-637: the one command that writes nothing.\<close>

definition checkRateLimit ::
    "string \<Rightarrow> ServerConfig Config \<Rightarrow> Disk \<Rightarrow> go_panic + event list \<times> ServerConfig Config \<times> Disk" where
  "checkRateLimit guildID config disk =
     (case Servers_lookup config guildID of
        None \<Rightarrow> Inr ([Call_InteractionRespond ''No rate limit configured for this server''], config, disk)
      | Some serverConfig \<Rightarrow>
          Inr ([Call_InteractionRespond
                  (if RateLimitEnabled serverConfig
                   then ''Rate limit is enabled with a duration of ''
                          @ Sprintf_d (go_div (sint (RateLimitDuration serverConfig)) (sint Minute))
                          @ '' minutes''
                   else ''Rate limit is disabled'')],
               config, disk))"

text \<open>\<^verbatim>\<open>commandHandlers\<close> (lines 71-78): the command names and their handlers.\<close>

datatype command =
    set_member_audit_channel string
  | set_unverified_role string
  | enable_rate_limit
  | disable_rate_limit
  | set_rate_limit "64 word"
  | check_rate_limit

fun commandHandlers ::
    "ServerConfig Config Codec \<Rightarrow> command \<Rightarrow> string \<Rightarrow> ServerConfig Config \<Rightarrow> Disk
       \<Rightarrow> go_panic + event list \<times> ServerConfig Config \<times> Disk" where
  "commandHandlers J (set_member_audit_channel channelID) g = setMemberAuditChannel J g channelID"
| "commandHandlers J (set_unverified_role roleID) g = setUnverifiedRole J g roleID"
| "commandHandlers J enable_rate_limit g = enableRateLimit J g"
| "commandHandlers J disable_rate_limit g = disableRateLimit J g"
| "commandHandlers J (set_rate_limit minutes) g = setRateLimit J g minutes"
| "commandHandlers J check_rate_limit g = checkRateLimit g"

section \<open>The library's \<^verbatim>\<open>encoding/json\<close> on \<^verbatim>\<open>Config\<close>\<close>

text \<open>
  \<^verbatim>\<open>saveConfig\<close> and \<^verbatim>\<open>loadConfig\<close> hand the configuration to
  \<^verbatim>\<open>json.MarshalIndent(config, "", "  ")\<close> and \<^verbatim>\<open>json.Unmarshal(data, &config)\<close>.
  The two belong to the Go library and not to the repository. This section gives them
  for the one type they are called with, following the library's sources
  (\<^verbatim>\<open>unicode/utf8\<close>, and \<^verbatim>\<open>encode.go\<close>, \<^verbatim>\<open>indent.go\<close>, \<^verbatim>\<open>scanner.go\<close>,
  \<^verbatim>\<open>decode.go\<close>, \<^verbatim>\<open>fold.go\<close> of \<^verbatim>\<open>encoding/json\<close>), so that the round trip through
  the file can be stated on the bytes written. A Go string is a sequence of bytes:
  a \<open>char\<close> is one byte, \<open>byte\<close> its number.
\<close>

subsection \<open>UTF-8\<close>

text \<open>\<^verbatim>\<open>utf8.DecodeRune\<close> gives the rune at the head of a string and its width;
  an invalid or truncated encoding gives \<^verbatim>\<open>(RuneError, 1)\<close>. \<^verbatim>\<open>utf8.EncodeRune\<close>
  writes a rune, the replacement rune for a surrogate or a value out of range.\<close>

definition byte :: "char \<Rightarrow> nat" where
  "byte c = of_char c"

definition RuneError :: nat where
  "RuneError = 0xFFFD"

definition continuation :: "char \<Rightarrow> bool" where
  "continuation c = (0x80 \<le> byte c \<and> byte c \<le> 0xBF)"

fun DecodeRune :: "string \<Rightarrow> nat \<times> nat" where
  "DecodeRune [] = (RuneError, 0)"
| "DecodeRune (c0 # cs) =
     (if byte c0 < 0x80 then (byte c0, 1)
      else if byte c0 < 0xC2 then (RuneError, 1)
      else if byte c0 < 0xE0 then
        (case cs of
           c1 # _ \<Rightarrow>
             if continuation c1 then ((byte c0 - 0xC0) * 64 + (byte c1 - 0x80), 2)
             else (RuneError, 1)
         | _ \<Rightarrow> (RuneError, 1))
      else if byte c0 < 0xF0 then
        (case cs of
           c1 # c2 # _ \<Rightarrow>
             if (if byte c0 = 0xE0 then 0xA0 else 0x80) \<le> byte c1
                \<and> byte c1 \<le> (if byte c0 = 0xED then 0x9F else 0xBF)
                \<and> continuation c2
             then ((byte c0 - 0xE0) * 4096 + (byte c1 - 0x80) * 64 + (byte c2 - 0x80), 3)
             else (RuneError, 1)
         | _ \<Rightarrow> (RuneError, 1))
      else if byte c0 < 0xF5 then
        (case cs of
           c1 # c2 # c3 # _ \<Rightarrow>
             if (if byte c0 = 0xF0 then 0x90 else 0x80) \<le> byte c1
                \<and> byte c1 \<le> (if byte c0 = 0xF4 then 0x8F else 0xBF)
                \<and> continuation c2 \<and> continuation c3
             then ((byte c0 - 0xF0) * 262144 + (byte c1 - 0x80) * 4096
                     + (byte c2 - 0x80) * 64 + (byte c3 - 0x80), 4)
             else (RuneError, 1)
         | _ \<Rightarrow> (RuneError, 1))
      else (RuneError, 1))"

definition EncodeRune :: "nat \<Rightarrow> string" where
  "EncodeRune r =
     (if r < 0x80 then [char_of r]
      else if r < 0x800 then [char_of (0xC0 + r div 64), char_of (0x80 + r mod 64)]
      else if (0xD800 \<le> r \<and> r < 0xE000) \<or> 0x10FFFF < r then [CHR 0xEF, CHR 0xBF, CHR 0xBD]
      else if r < 0x10000 then
        [char_of (0xE0 + r div 4096), char_of (0x80 + r div 64 mod 64), char_of (0x80 + r mod 64)]
      else
        [char_of (0xF0 + r div 262144), char_of (0x80 + r div 4096 mod 64),
         char_of (0x80 + r div 64 mod 64), char_of (0x80 + r mod 64)])"

subsection \<open>Strings in JSON text\<close>

text \<open>\<^verbatim>\<open>appendString\<close> of \<^verbatim>\<open>encode.go\<close> with \<^verbatim>\<open>escapeHTML\<close> set, as \<^verbatim>\<open>Marshal\<close>
  sets it: the quote and the backslash are escaped by a backslash; the control bytes,
  \<^verbatim>\<open><\<close>, \<^verbatim>\<open>>\<close> and \<^verbatim>\<open>&\<close> are written as a backslash, \<^verbatim>\<open>u00\<close> and two
  hexadecimal digits (five of the control bytes have a short escape instead); the
  runes U+2028 and U+2029 are written as a backslash and \<^verbatim>\<open>u2028\<close> or \<^verbatim>\<open>u2029\<close>; a
  byte that does not start a valid UTF-8 encoding is written as a backslash and
  \<^verbatim>\<open>ufffd\<close>. Every other rune is copied.\<close>

definition dquote :: char where
  "dquote = CHR 0x22"

definition bslash :: char where
  "bslash = CHR 0x5C"

definition hex_digit :: "nat \<Rightarrow> char" where
  "hex_digit n = ''0123456789abcdef'' ! n"

definition hex_value :: "char \<Rightarrow> nat option" where
  "hex_value c =
     (if 0x30 \<le> byte c \<and> byte c \<le> 0x39 then Some (byte c - 0x30)
      else if 0x61 \<le> byte c \<and> byte c \<le> 0x66 then Some (byte c - 0x61 + 10)
      else if 0x41 \<le> byte c \<and> byte c \<le> 0x46 then Some (byte c - 0x41 + 10)
      else None)"

definition getu4 :: "string \<Rightarrow> nat option" where
  "getu4 s =
     (case s of
        a # b # c # d # _ \<Rightarrow>
          (case (hex_value a, hex_value b, hex_value c, hex_value d) of
             (Some x, Some y, Some z, Some w) \<Rightarrow> Some (x * 4096 + y * 256 + z * 16 + w)
           | _ \<Rightarrow> None)
      | _ \<Rightarrow> None)"

definition escape_ascii :: "char \<Rightarrow> string" where
  "escape_ascii c =
     (if c = bslash \<or> c = dquote then [bslash, c]
      else if byte c = 0x08 then [bslash, CHR ''b'']
      else if byte c = 0x0C then [bslash, CHR ''f'']
      else if byte c = 0x0A then [bslash, CHR ''n'']
      else if byte c = 0x0D then [bslash, CHR ''r'']
      else if byte c = 0x09 then [bslash, CHR ''t'']
      else if byte c < 0x20 \<or> c = CHR ''<'' \<or> c = CHR ''>'' \<or> c = CHR ''&'' then
        [bslash, CHR ''u'', CHR ''0'', CHR ''0'', hex_digit (byte c div 16), hex_digit (byte c mod 16)]
      else [c])"

fun appendString_chars :: "string \<Rightarrow> string" where
  "appendString_chars [] = []"
| "appendString_chars (c # cs) =
     (if byte c < 0x80 then escape_ascii c @ appendString_chars cs
      else
        (case DecodeRune (c # cs) of
           (r, n) \<Rightarrow>
             if r = RuneError \<and> n = 1 then
               [bslash, CHR ''u'', CHR ''f'', CHR ''f'', CHR ''f'', CHR ''d''] @ appendString_chars cs
             else if r = 0x2028 \<or> r = 0x2029 then
               [bslash, CHR ''u'', CHR ''2'', CHR ''0'', CHR ''2'', hex_digit (r mod 16)]
               @ appendString_chars (drop (n - 1) cs)
             else take n (c # cs) @ appendString_chars (drop (n - 1) cs)))"

definition appendString :: "string \<Rightarrow> string" where
  "appendString s = dquote # appendString_chars s @ [dquote]"

text \<open>\<^verbatim>\<open>utf8.ValidString\<close>.\<close>

fun ValidString :: "string \<Rightarrow> bool" where
  "ValidString [] = True"
| "ValidString (c # cs) =
     (case DecodeRune (c # cs) of
        (r, n) \<Rightarrow> \<not> (r = RuneError \<and> n = 1) \<and> ValidString (drop (n - 1) cs))"

text \<open>Reading a string literal, after its opening quote, up to the closing quote:
  the scanner of \<^verbatim>\<open>scanner.go\<close> (a control byte, a backslash followed by anything but
  one of \<^verbatim>\<open>"/bfnrtu\<close> or a backslash, or a \<^verbatim>\<open>u\<close> escape without four hexadecimal
  digits end the parse with an error) together with \<^verbatim>\<open>unquote\<close> of \<^verbatim>\<open>decode.go\<close>
  (surrogate pairs are combined, a lone surrogate and an invalid byte give the
  replacement rune). The result is the decoded string and the text after the closing
  quote.\<close>

definition unescape :: "char \<Rightarrow> char option" where
  "unescape e =
     (if e = dquote \<or> e = bslash \<or> e = CHR ''/'' then Some e
      else if e = CHR ''b'' then Some (CHR 0x08)
      else if e = CHR ''f'' then Some (CHR 0x0C)
      else if e = CHR ''n'' then Some (CHR 0x0A)
      else if e = CHR ''r'' then Some (CHR 0x0D)
      else if e = CHR ''t'' then Some (CHR 0x09)
      else None)"

definition low_surrogate :: "string \<Rightarrow> nat option" where
  "low_surrogate s =
     (case s of
        b # u # hs \<Rightarrow>
          if b = bslash \<and> u = CHR ''u'' then
            (case getu4 hs of
               Some r2 \<Rightarrow> if 0xDC00 \<le> r2 \<and> r2 < 0xE000 then Some r2 else None
             | None \<Rightarrow> None)
          else None
      | _ \<Rightarrow> None)"

definition emit :: "string \<Rightarrow> (string \<times> string) option \<Rightarrow> (string \<times> string) option" where
  "emit x p = (case p of None \<Rightarrow> None | Some (decoded, rest) \<Rightarrow> Some (x @ decoded, rest))"

fun string_literal :: "string \<Rightarrow> (string \<times> string) option" where
  "string_literal [] = None"
| "string_literal (c # cs) =
     (if c = dquote then Some ([], cs)
      else if byte c < 0x20 then None
      else if c = bslash then
        (case cs of
           [] \<Rightarrow> None
         | e # es \<Rightarrow>
             if e = CHR ''u'' then
               (case getu4 es of
                  None \<Rightarrow> None
                | Some r \<Rightarrow>
                    if 0xD800 \<le> r \<and> r < 0xE000 then
                      (case (if r < 0xDC00 then low_surrogate (drop 4 es) else None) of
                         Some r2 \<Rightarrow>
                           emit (EncodeRune ((r - 0xD800) * 1024 + (r2 - 0xDC00) + 0x10000))
                             (string_literal (drop 10 es))
                       | None \<Rightarrow> emit (EncodeRune RuneError) (string_literal (drop 4 es)))
                    else emit (EncodeRune r) (string_literal (drop 4 es)))
             else
               (case unescape e of
                  None \<Rightarrow> None
                | Some x \<Rightarrow> emit [x] (string_literal es)))
      else if byte c < 0x80 then emit [c] (string_literal cs)
      else
        (case DecodeRune (c # cs) of
           (r, n) \<Rightarrow> emit (EncodeRune r) (string_literal (drop (n - 1) cs))))"

subsection \<open>Numbers in JSON text\<close>

text \<open>The number grammar of the scanner (an optional minus sign, \<^verbatim>\<open>0\<close> or a
  digit sequence without leading zero, an optional fraction, an optional exponent):
  \<open>number_literal\<close> gives the literal and the text after it.
  \<^verbatim>\<open>strconv.ParseInt(s, 10, 64)\<close> is what \<^verbatim>\<open>decode.go\<close> reads an integer field
  with. \<^verbatim>\<open>Marshal\<close> writes an integer in decimal, which is \<open>Sprintf_d\<close>.\<close>

definition is_digit :: "char \<Rightarrow> bool" where
  "is_digit c = (0x30 \<le> byte c \<and> byte c \<le> 0x39)"

definition digits_value :: "string \<Rightarrow> nat" where
  "digits_value ds = foldl (\<lambda>acc c. acc * 10 + (byte c - 0x30)) 0 ds"

definition number_literal :: "string \<Rightarrow> (string \<times> string) option" where
  "number_literal s =
     (let (sign, s1) = (case s of c # cs \<Rightarrow> if c = CHR ''-'' then ([c], cs) else ([], s) | [] \<Rightarrow> ([], s))
      in case s1 of
           [] \<Rightarrow> None
         | c # cs \<Rightarrow>
             if \<not> is_digit c then None
             else
               (let (ip, s2) = (if c = CHR ''0'' then ([c], cs)
                                else (c # takeWhile is_digit cs, dropWhile is_digit cs));
                    frac = (case s2 of
                              p # ps \<Rightarrow>
                                if p = CHR ''.'' then
                                  (if takeWhile is_digit ps = [] then None
                                   else Some (p # takeWhile is_digit ps, dropWhile is_digit ps))
                                else Some ([], s2)
                            | [] \<Rightarrow> Some ([], s2))
                in case frac of
                     None \<Rightarrow> None
                   | Some (fp, s3) \<Rightarrow>
                       (case s3 of
                          e # es \<Rightarrow>
                            if e = CHR ''e'' \<or> e = CHR ''E'' then
                              (let (esign, s4) =
                                     (case es of
                                        g # gs \<Rightarrow> if g = CHR ''+'' \<or> g = CHR ''-'' then ([g], gs) else ([], es)
                                      | [] \<Rightarrow> ([], es))
                               in if takeWhile is_digit s4 = [] then None
                                  else Some (sign @ ip @ fp @ [e] @ esign @ takeWhile is_digit s4,
                                             dropWhile is_digit s4))
                            else Some (sign @ ip @ fp, s3)
                        | [] \<Rightarrow> Some (sign @ ip @ fp, s3))))"

definition ParseInt64 :: "string \<Rightarrow> 64 word option" where
  "ParseInt64 s =
     (let (neg, ds) = (case s of
                         c # cs \<Rightarrow> if c = CHR ''-'' then (True, cs)
                                   else if c = CHR ''+'' then (False, cs) else (False, s)
                       | [] \<Rightarrow> (False, s))
      in if ds = [] \<or> \<not> list_all is_digit ds then None
         else
           (let v = (if neg then - int (digits_value ds) else int (digits_value ds))
            in if - 9223372036854775808 \<le> v \<and> v \<le> 9223372036854775807 then Some (word_of_int v)
               else None))"

subsection \<open>Parsing JSON text\<close>

text \<open>
  \<^verbatim>\<open>Unmarshal\<close> first checks the whole input against the JSON grammar
  (\<^verbatim>\<open>checkValid\<close>) and decodes only a valid one. \<open>parse_json\<close> gives the value a
  valid input denotes, and \<open>None\<close> for an invalid one. Objects and arrays nest at
  most 10000 deep (\<^verbatim>\<open>maxNestingDepth\<close>): the first argument of \<open>json_value\<close> is the
  depth left. The second argument of \<open>json_members\<close> and \<open>json_elements\<close> bounds the
  members still to read by the length of the text, which every member shortens.
\<close>

datatype json =
    JNull
  | JBool bool
  | JNumber string
  | JString string
  | JArray "json list"
  | JObject "(string \<times> json) list"

definition is_space :: "char \<Rightarrow> bool" where
  "is_space c = (byte c = 0x20 \<or> byte c = 0x09 \<or> byte c = 0x0D \<or> byte c = 0x0A)"

definition tagged :: "('a \<Rightarrow> 'b) \<Rightarrow> ('a \<times> string) option \<Rightarrow> ('b \<times> string) option" where
  "tagged f p = (case p of None \<Rightarrow> None | Some (x, rest) \<Rightarrow> Some (f x, rest))"

fun json_value :: "nat \<Rightarrow> string \<Rightarrow> (json \<times> string) option"
  and json_members :: "nat \<Rightarrow> nat \<Rightarrow> string \<Rightarrow> ((string \<times> json) list \<times> string) option"
  and json_elements :: "nat \<Rightarrow> nat \<Rightarrow> string \<Rightarrow> (json list \<times> string) option"
where
  "json_value d s =
     (case dropWhile is_space s of
        [] \<Rightarrow> None
      | c # r \<Rightarrow>
          if c = CHR ''{'' then
            (case d of
               0 \<Rightarrow> None
             | Suc d' \<Rightarrow>
                 (case dropWhile is_space r of
                    [] \<Rightarrow> None
                  | c' # r' \<Rightarrow>
                      if c' = CHR ''}'' then Some (JObject [], r')
                      else tagged JObject (json_members d' (length r) r)))
          else if c = CHR ''['' then
            (case d of
               0 \<Rightarrow> None
             | Suc d' \<Rightarrow>
                 (case dropWhile is_space r of
                    [] \<Rightarrow> None
                  | c' # r' \<Rightarrow>
                      if c' = CHR '']'' then Some (JArray [], r')
                      else tagged JArray (json_elements d' (length r) r)))
          else if c = dquote then tagged JString (string_literal r)
          else if take 4 (c # r) = ''true'' then Some (JBool True, drop 3 r)
          else if take 5 (c # r) = ''false'' then Some (JBool False, drop 4 r)
          else if take 4 (c # r) = ''null'' then Some (JNull, drop 3 r)
          else tagged JNumber (number_literal (c # r)))"
| "json_members d 0 s = None"
| "json_members d (Suc k) s =
     (case dropWhile is_space s of
        [] \<Rightarrow> None
      | c # r \<Rightarrow>
          if c \<noteq> dquote then None
          else
            (case string_literal r of
               None \<Rightarrow> None
             | Some (key, r1) \<Rightarrow>
                 (case dropWhile is_space r1 of
                    [] \<Rightarrow> None
                  | c1 # r2 \<Rightarrow>
                      if c1 \<noteq> CHR '':'' then None
                      else
                        (case json_value d r2 of
                           None \<Rightarrow> None
                         | Some (v, r3) \<Rightarrow>
                             (case dropWhile is_space r3 of
                                [] \<Rightarrow> None
                              | c3 # r4 \<Rightarrow>
                                  if c3 = CHR '','' then tagged ((#) (key, v)) (json_members d k r4)
                                  else if c3 = CHR ''}'' then Some ([(key, v)], r4)
                                  else None)))))"
| "json_elements d 0 s = None"
| "json_elements d (Suc k) s =
     (case json_value d s of
        None \<Rightarrow> None
      | Some (v, r3) \<Rightarrow>
          (case dropWhile is_space r3 of
             [] \<Rightarrow> None
           | c3 # r4 \<Rightarrow>
               if c3 = CHR '','' then tagged ((#) v) (json_elements d k r4)
               else if c3 = CHR '']'' then Some ([v], r4)
               else None))"

definition parse_json :: "string \<Rightarrow> json option" where
  "parse_json s =
     (case json_value 10000 s of
        None \<Rightarrow> None
      | Some (v, rest) \<Rightarrow> if dropWhile is_space rest = [] then Some v else None)"

subsection \<open>\<^verbatim>\<open>json.MarshalIndent(config, "", "  ")\<close>\<close>

text \<open>
  The text \<^verbatim>\<open>Marshal\<close> followed by \<^verbatim>\<open>Indent\<close> gives for a \<^verbatim>\<open>Config\<close>: a struct is an
  object of its fields in the order of their declaration, under the names of their
  \<^verbatim>\<open>json\<close> tags (none has \<^verbatim>\<open>omitempty\<close>); a map is an object of its entries sorted
  by key, \<^verbatim>\<open>null\<close> when the map is nil and \<^verbatim>\<open>{}\<close> when it is empty; a
  \<^verbatim>\<open>time.Duration\<close> is its count of nanoseconds. Every member starts a new line,
  indented by two spaces for each level; a colon is followed by one space. \<open>indent n\<close>
  is the line break with the indentation of level \<open>n\<close>. For this type
  \<^verbatim>\<open>MarshalIndent\<close> returns no error.
\<close>

definition newline :: char where
  "newline = CHR 0x0A"

definition indent :: "nat \<Rightarrow> string" where
  "indent n = newline # replicate (2 * n) (CHR 0x20)"

definition field_text :: "string \<Rightarrow> string \<Rightarrow> string" where
  "field_text name v = appendString name @ '': '' @ v"

definition bool_text :: "bool \<Rightarrow> string" where
  "bool_text b = (if b then ''true'' else ''false'')"

definition ServerConfig_text :: "nat \<Rightarrow> ServerConfig \<Rightarrow> string" where
  "ServerConfig_text n sc =
     ''{''
     @ indent (n + 1) @ field_text ''member_audit_channel_id'' (appendString (MemberAuditChannelID sc)) @ '',''
     @ indent (n + 1) @ field_text ''unverified_role_id'' (appendString (UnverifiedRoleID sc)) @ '',''
     @ indent (n + 1) @ field_text ''rate_limit_enabled'' (bool_text (RateLimitEnabled sc)) @ '',''
     @ indent (n + 1) @ field_text ''rate_limit_duration'' (Sprintf_d (sint (RateLimitDuration sc)))
     @ indent n @ ''}''"

fun entries_text :: "nat \<Rightarrow> (string \<times> ServerConfig) list \<Rightarrow> string" where
  "entries_text n [] = []"
| "entries_text n [(k, sc)] = indent n @ field_text k (ServerConfig_text n sc)"
| "entries_text n ((k, sc) # e # es) =
     indent n @ field_text k (ServerConfig_text n sc) @ '','' @ entries_text n (e # es)"

definition map_entries :: "(string \<rightharpoonup> 'v) \<Rightarrow> (string \<times> 'v) list" where
  "map_entries m = map (\<lambda>k. (k, the (m k))) (sorted_list_of_set (dom m))"

definition Servers_text :: "nat \<Rightarrow> (string \<rightharpoonup> ServerConfig) option \<Rightarrow> string" where
  "Servers_text n servers =
     (case servers of
        None \<Rightarrow> ''null''
      | Some m \<Rightarrow>
          if map_entries m = [] then ''{}''
          else ''{'' @ entries_text (n + 1) (map_entries m) @ indent n @ ''}'')"

definition Config_text :: "ServerConfig Config \<Rightarrow> string" where
  "Config_text config =
     ''{'' @ indent 1 @ field_text ''servers'' (Servers_text 1 (Servers config)) @ indent 0 @ ''}''"

subsection \<open>The JSON value of a configuration\<close>

text \<open>The value the text of a configuration denotes, and when a configuration is
  written and read back unchanged: its map is finite, as every Go map is, and its
  guild identifiers and its two identifier fields are valid UTF-8. \<open>quoted_as key key'\<close>
  says that the literal written for \<open>key\<close> reads back as \<open>key'\<close>.\<close>

definition ServerConfig_json :: "ServerConfig \<Rightarrow> json" where
  "ServerConfig_json sc =
     JObject
       [(''member_audit_channel_id'', JString (MemberAuditChannelID sc)),
        (''unverified_role_id'', JString (UnverifiedRoleID sc)),
        (''rate_limit_enabled'', JBool (RateLimitEnabled sc)),
        (''rate_limit_duration'', JNumber (Sprintf_d (sint (RateLimitDuration sc))))]"

definition Servers_json :: "(string \<rightharpoonup> ServerConfig) option \<Rightarrow> json" where
  "Servers_json servers =
     (case servers of
        None \<Rightarrow> JNull
      | Some m \<Rightarrow> JObject (map (\<lambda>(k, sc). (k, ServerConfig_json sc)) (map_entries m)))"

definition Config_json :: "ServerConfig Config \<Rightarrow> json" where
  "Config_json config = JObject [(''servers'', Servers_json (Servers config))]"

definition quoted_as :: "string \<Rightarrow> string \<Rightarrow> bool" where
  "quoted_as key key' \<longleftrightarrow>
     (\<forall>rest. string_literal (appendString_chars key @ dquote # rest) = Some (key', rest))"

definition valid_ServerConfig :: "ServerConfig \<Rightarrow> bool" where
  "valid_ServerConfig sc \<longleftrightarrow> ValidString (MemberAuditChannelID sc) \<and> ValidString (UnverifiedRoleID sc)"

definition quoted_entries :: "(string \<Rightarrow> string) \<Rightarrow> (string \<times> ServerConfig) list \<Rightarrow> bool" where
  "quoted_entries q es = list_all (\<lambda>(k, sc). quoted_as k (q k) \<and> valid_ServerConfig sc) es"

definition entries_json :: "(string \<Rightarrow> string) \<Rightarrow> (string \<times> ServerConfig) list \<Rightarrow> (string \<times> json) list" where
  "entries_json q es = map (\<lambda>(k, sc). (q k, ServerConfig_json sc)) es"

definition quoted_Config :: "(string \<Rightarrow> string) \<Rightarrow> ServerConfig Config \<Rightarrow> bool" where
  "quoted_Config q config =
     (case Servers config of None \<Rightarrow> True | Some m \<Rightarrow> quoted_entries q (map_entries m))"

definition Servers_json_as :: "(string \<Rightarrow> string) \<Rightarrow> (string \<rightharpoonup> ServerConfig) option \<Rightarrow> json" where
  "Servers_json_as q servers =
     (case servers of None \<Rightarrow> JNull | Some m \<Rightarrow> JObject (entries_json q (map_entries m)))"

definition valid_Config :: "ServerConfig Config \<Rightarrow> bool" where
  "valid_Config config \<longleftrightarrow>
     (case Servers config of
        None \<Rightarrow> True
      | Some m \<Rightarrow> finite (dom m) \<and> (\<forall>k \<in> dom m. ValidString k \<and> valid_ServerConfig (the (m k))))"

subsection \<open>\<^verbatim>\<open>json.Unmarshal(data, &config)\<close>\<close>

text \<open>
  \<^verbatim>\<open>decode.go\<close> on the types of \<^verbatim>\<open>Config\<close>. A literal of the wrong kind for its target
  leaves the target as it was and saves an \<^verbatim>\<open>UnmarshalTypeError\<close>; decoding goes on and
  \<^verbatim>\<open>Unmarshal\<close> returns the first error saved. \<^verbatim>\<open>null\<close> leaves a string, a boolean, an
  integer and a struct as they were and makes a map nil. The key of an object member
  selects the struct field whose name it is, or else the field whose name it is under
  case folding (\<^verbatim>\<open>foldName\<close>: ASCII letters to upper case, U+017F to \<^verbatim>\<open>S\<close>, U+212A to
  \<^verbatim>\<open>K\<close>; no other rune folds to an ASCII letter); a key that selects no field is
  skipped. A member of a map is decoded into a fresh zero \<^verbatim>\<open>ServerConfig\<close>, which is then
  stored under the key; a nil map is allocated first. Of the library's error values the
  model keeps the kind of the value and the Go type, not the offset and the field path.
\<close>

definition SyntaxError :: go_error where
  "SyntaxError = GoError False ''json: syntax error''"

definition UnmarshalTypeError :: "string \<Rightarrow> string \<Rightarrow> go_error" where
  "UnmarshalTypeError v t = GoError False (''json: cannot unmarshal '' @ v @ '' into Go value of type '' @ t)"

definition json_kind :: "json \<Rightarrow> string" where
  "json_kind v =
     (case v of
        JNull \<Rightarrow> ''null''
      | JBool _ \<Rightarrow> ''bool''
      | JNumber _ \<Rightarrow> ''number''
      | JString _ \<Rightarrow> ''string''
      | JArray _ \<Rightarrow> ''array''
      | JObject _ \<Rightarrow> ''object'')"

definition first_error :: "go_error option \<Rightarrow> go_error option \<Rightarrow> go_error option" where
  "first_error saved e = (case saved of None \<Rightarrow> e | Some _ \<Rightarrow> saved)"

definition decode_string :: "json \<Rightarrow> string \<Rightarrow> go_error option \<times> string" where
  "decode_string v old =
     (case v of
        JString s \<Rightarrow> (None, s)
      | JNull \<Rightarrow> (None, old)
      | _ \<Rightarrow> (Some (UnmarshalTypeError (json_kind v) ''string''), old))"

definition decode_bool :: "json \<Rightarrow> bool \<Rightarrow> go_error option \<times> bool" where
  "decode_bool v old =
     (case v of
        JBool b \<Rightarrow> (None, b)
      | JNull \<Rightarrow> (None, old)
      | _ \<Rightarrow> (Some (UnmarshalTypeError (json_kind v) ''bool''), old))"

definition decode_Duration :: "json \<Rightarrow> Duration \<Rightarrow> go_error option \<times> Duration" where
  "decode_Duration v old =
     (case v of
        JNumber item \<Rightarrow>
          (case ParseInt64 item of
             None \<Rightarrow> (Some (UnmarshalTypeError (''number '' @ item) ''time.Duration''), old)
           | Some n \<Rightarrow> (None, n))
      | JNull \<Rightarrow> (None, old)
      | _ \<Rightarrow> (Some (UnmarshalTypeError (json_kind v) ''time.Duration''), old))"

definition upper :: "char \<Rightarrow> char" where
  "upper c = (if 0x61 \<le> byte c \<and> byte c \<le> 0x7A then char_of (byte c - 0x20) else c)"

fun foldName :: "string \<Rightarrow> string option" where
  "foldName [] = Some []"
| "foldName (c # cs) =
     (if byte c < 0x80 then map_option ((#) (upper c)) (foldName cs)
      else
        (case DecodeRune (c # cs) of
           (r, n) \<Rightarrow>
             if r = 0x17F then map_option ((#) CHR ''S'') (foldName (drop (n - 1) cs))
             else if r = 0x212A then map_option ((#) CHR ''K'') (foldName (drop (n - 1) cs))
             else None))"

definition find_field :: "string list \<Rightarrow> string \<Rightarrow> string option" where
  "find_field names key =
     (if key \<in> set names then Some key
      else List.find (\<lambda>name. foldName name = foldName key) names)"

definition decode_struct ::
    "string list \<Rightarrow> (string \<Rightarrow> json \<Rightarrow> 'a \<Rightarrow> go_error option \<times> 'a) \<Rightarrow> (string \<times> json) list
       \<Rightarrow> go_error option \<times> 'a \<Rightarrow> go_error option \<times> 'a" where
  "decode_struct names store ms start =
     foldl (\<lambda>(saved, x) (key, v).
              case find_field names key of
                None \<Rightarrow> (saved, x)
              | Some name \<Rightarrow> (case store name v x of (e, y) \<Rightarrow> (first_error saved e, y)))
       start ms"

definition ServerConfig_store :: "string \<Rightarrow> json \<Rightarrow> ServerConfig \<Rightarrow> go_error option \<times> ServerConfig" where
  "ServerConfig_store name v sc =
     (if name = ''member_audit_channel_id'' then
        (case decode_string v (MemberAuditChannelID sc) of (e, x) \<Rightarrow> (e, sc\<lparr>MemberAuditChannelID := x\<rparr>))
      else if name = ''unverified_role_id'' then
        (case decode_string v (UnverifiedRoleID sc) of (e, x) \<Rightarrow> (e, sc\<lparr>UnverifiedRoleID := x\<rparr>))
      else if name = ''rate_limit_enabled'' then
        (case decode_bool v (RateLimitEnabled sc) of (e, x) \<Rightarrow> (e, sc\<lparr>RateLimitEnabled := x\<rparr>))
      else
        (case decode_Duration v (RateLimitDuration sc) of (e, x) \<Rightarrow> (e, sc\<lparr>RateLimitDuration := x\<rparr>)))"

definition decode_ServerConfig :: "json \<Rightarrow> ServerConfig \<Rightarrow> go_error option \<times> ServerConfig" where
  "decode_ServerConfig v sc =
     (case v of
        JObject ms \<Rightarrow>
          decode_struct
            [''member_audit_channel_id'', ''unverified_role_id'', ''rate_limit_enabled'', ''rate_limit_duration'']
            ServerConfig_store ms (None, sc)
      | JNull \<Rightarrow> (None, sc)
      | _ \<Rightarrow> (Some (UnmarshalTypeError (json_kind v) ''main.ServerConfig''), sc))"

definition decode_entry ::
    "go_error option \<times> (string \<rightharpoonup> ServerConfig) \<Rightarrow> string \<times> json
       \<Rightarrow> go_error option \<times> (string \<rightharpoonup> ServerConfig)" where
  "decode_entry acc entry =
     (case acc of
        (saved, m) \<Rightarrow>
          (case entry of
             (key, w) \<Rightarrow>
               (case decode_ServerConfig w zero_ServerConfig of
                  (e, sc) \<Rightarrow> (first_error saved e, m(key \<mapsto> sc)))))"

definition decode_Servers ::
    "json \<Rightarrow> (string \<rightharpoonup> ServerConfig) option \<Rightarrow> go_error option \<times> (string \<rightharpoonup> ServerConfig) option" where
  "decode_Servers v servers =
     (case v of
        JObject ms \<Rightarrow>
          (case foldl decode_entry (None, case servers of None \<Rightarrow> Map.empty | Some m \<Rightarrow> m) ms of
             (saved, m) \<Rightarrow> (saved, Some m))
      | JNull \<Rightarrow> (None, None)
      | _ \<Rightarrow> (Some (UnmarshalTypeError (json_kind v) ''map[string]main.ServerConfig''), servers))"

definition Config_store :: "string \<Rightarrow> json \<Rightarrow> ServerConfig Config \<Rightarrow> go_error option \<times> ServerConfig Config" where
  "Config_store name v config =
     (case decode_Servers v (Servers config) of (e, x) \<Rightarrow> (e, config\<lparr>Servers := x\<rparr>))"

definition decode_Config :: "json \<Rightarrow> ServerConfig Config \<Rightarrow> go_error option \<times> ServerConfig Config" where
  "decode_Config v config =
     (case v of
        JObject ms \<Rightarrow> decode_struct [''servers''] Config_store ms (None, config)
      | JNull \<Rightarrow> (None, config)
      | _ \<Rightarrow> (Some (UnmarshalTypeError (json_kind v) ''main.Config''), config))"

definition json_Unmarshal :: "string \<Rightarrow> ServerConfig Config \<Rightarrow> go_error option \<times> ServerConfig Config" where
  "json_Unmarshal data config =
     (case parse_json data of
        None \<Rightarrow> (Some SyntaxError, config)
      | Some v \<Rightarrow> decode_Config v config)"

definition json_MarshalIndent :: "ServerConfig Config \<Rightarrow> go_error + string" where
  "json_MarshalIndent config = Inr (Config_text config)"

text \<open>The library as the parameter \<open>J\<close> of \<^verbatim>\<open>loadConfig\<close> and \<^verbatim>\<open>saveConfig\<close>.\<close>

definition encoding_json :: "ServerConfig Config Codec" where
  "encoding_json = \<lparr>MarshalIndent = json_MarshalIndent, Unmarshal = json_Unmarshal\<rparr>"

section \<open>Concrete inputs\<close>

text \<open>
  A platform on which every call succeeds: the bot is in the guilds \<open>g1\<close> and \<open>g2\<close>,
  and every user is a member of \<open>g2\<close> only. A direct message of a user with a valid
  address, and one with an invalid address.
\<close>

definition ok_Session :: Session where
  "ok_Session =
     \<lparr>State_User_ID = ''bot'',
      State_Guilds = [''g1'', ''g2''],
      Channel = (\<lambda>c. Inr ChannelTypeDM),
      GuildMember = (\<lambda>g u. g = ''g2''),
      ChannelMessageSend = (\<lambda>c t. None),
      ChannelMessageSendComplex = (\<lambda>c t b. None),
      InteractionRespondDeferred = None,
      InteractionResponseEdit = (\<lambda>t. None),
      ChannelMessageEditComplex = (\<lambda>c m t b. None),
      UserChannelCreate = (\<lambda>u. Inr (''dm-'' @ u)),
      GuildMemberRoleRemove = (\<lambda>g u r. None),
      GuildMemberDelete = (\<lambda>g u. None)\<rparr>"

definition valid_request :: MessageCreate where
  "valid_request =
     \<lparr>m_Author_ID = ''12345'', m_Author_Username = ''ada'', m_Author_Discriminator = ''0001'',
      m_ChannelID = ''dm-12345'', m_GuildID = [], m_Content = ''ada@uclan.ac.uk''\<rparr>"

definition invalid_request :: MessageCreate where
  "invalid_request = valid_request\<lparr>m_Content := ''hello''\<rparr>"

text \<open>part_000: a guild whose administrator has set the member audit channel and not
  the verification channel.\<close>

definition audit_only_config :: "ServerConfig_part_000 Config" where
  "audit_only_config =
     \<lparr>Servers = Some [''g2'' \<mapsto>
        \<lparr>VerificationChannelID_0 = [], MemberAuditChannelID_0 = ''audit'', UnverifiedRoleID_0 = []\<rparr>]\<rparr>"

text \<open>part_000: both channels set.\<close>

definition both_channels_config :: "ServerConfig_part_000 Config" where
  "both_channels_config =
     \<lparr>Servers = Some [''g2'' \<mapsto>
        \<lparr>VerificationChannelID_0 = ''verify'', MemberAuditChannelID_0 = ''audit'',
         UnverifiedRoleID_0 = ''role''\<rparr>]\<rparr>"

text \<open>part_001: the empty configuration that \<^verbatim>\<open>loadConfig\<close> makes when there is no file,
  and a configuration with an entry under the empty guild id of a direct message and
  one for \<open>g2\<close>.\<close>

definition empty_config :: "ServerConfig Config" where
  "empty_config = \<lparr>Servers = Some Map.empty\<rparr>"

definition limited_config :: "ServerConfig Config" where
  "limited_config =
     \<lparr>Servers = Some [[] \<mapsto>
        \<lparr>MemberAuditChannelID = [], UnverifiedRoleID = [], RateLimitEnabled = True,
         RateLimitDuration = 5 * Minute\<rparr>,
       ''g2'' \<mapsto>
        \<lparr>MemberAuditChannelID = ''audit'', UnverifiedRoleID = ''role'', RateLimitEnabled = True,
         RateLimitDuration = 5 * Minute\<rparr>]\<rparr>"

text \<open>part_001: the configuration that the commands of an administrator of \<open>g2\<close>
  leave: one entry, under \<open>g2\<close>.\<close>

definition g2_config :: "ServerConfig Config" where
  "g2_config =
     \<lparr>Servers = Some [''g2'' \<mapsto>
        \<lparr>MemberAuditChannelID = ''audit'', UnverifiedRoleID = ''role'', RateLimitEnabled = True,
         RateLimitDuration = 5 * Minute\<rparr>]\<rparr>"

text \<open>part_001: rate limiting was enabled and then disabled again.\<close>

definition disabled_config :: "ServerConfig Config" where
  "disabled_config =
     \<lparr>Servers = Some [[] \<mapsto>
        \<lparr>MemberAuditChannelID = [], UnverifiedRoleID = [], RateLimitEnabled = False,
         RateLimitDuration = 5 * Minute\<rparr>]\<rparr>"

text \<open>part_001: the guild \<open>g2\<close> has an entry with no member audit channel.\<close>

definition no_audit_config :: "ServerConfig Config" where
  "no_audit_config =
     \<lparr>Servers = Some [[] \<mapsto>
        \<lparr>MemberAuditChannelID = [], UnverifiedRoleID = [], RateLimitEnabled = False,
         RateLimitDuration = 0\<rparr>,
       ''g2'' \<mapsto>
        \<lparr>MemberAuditChannelID = [], UnverifiedRoleID = ''role'', RateLimitEnabled = False,
         RateLimitDuration = 0\<rparr>]\<rparr>"

text \<open>The press of a control of an audit message in \<open>g2\<close>, and a platform that refuses
  to remove members.\<close>

definition button_press :: "string \<Rightarrow> InteractionCreate" where
  "button_press customID =
     \<lparr>i_Type = InteractionMessageComponent, i_CustomID = customID, i_GuildID = ''g2'',
      i_ChannelID = ''audit'', i_Message_ID = ''msg1''\<rparr>"

definition kick_fails_Session :: Session where
  "kick_fails_Session = ok_Session\<lparr>GuildMemberDelete := (\<lambda>g u. Some (GoError False ''Missing Permissions''))\<rparr>"

text \<open>The events that remove a role or a member or edit the audit message.\<close>

fun changes_membership_or_audit :: "event \<Rightarrow> bool" where
  "changes_membership_or_audit (Call_GuildMemberRoleRemove g u r) = True"
| "changes_membership_or_audit (Call_GuildMemberDelete g u) = True"
| "changes_membership_or_audit (Call_ChannelMessageEditComplex c m t b) = True"
| "changes_membership_or_audit e = False"

text \<open>A disk with no file, and one whose configuration file cannot be read.\<close>

definition empty_Disk :: Disk where
  "empty_Disk = \<lparr>files = Map.empty, read_error = Map.empty, mkdir_error = Map.empty, write_error = Map.empty\<rparr>"

definition unreadable_Disk :: Disk where
  "unreadable_Disk =
     empty_Disk
       \<lparr>files := [''./data/config.json'' \<mapsto> ''{}'', ''config.json'' \<mapsto> ''{}''],
        read_error := [''./data/config.json'' \<mapsto> GoError False ''open ./data/config.json: permission denied'']\<rparr>"

text \<open>A configuration whose one guild identifier is the byte \<^verbatim>\<open>0xFF\<close>, which is not
  valid UTF-8, and the configuration with the replacement rune U+FFFD in its place.\<close>

definition invalid_key_config :: "ServerConfig Config" where
  "invalid_key_config = \<lparr>Servers = Some [[CHR 0xFF] \<mapsto> zero_ServerConfig]\<rparr>"

definition replaced_key_config :: "ServerConfig Config" where
  "replaced_key_config = \<lparr>Servers = Some [[CHR 0xEF, CHR 0xBF, CHR 0xBD] \<mapsto> zero_ServerConfig]\<rparr>"

section \<open>Properties of the rate limiter\<close>

lemma sint_maxDuration: "sint maxDuration = 9223372036854775807"
  by (simp add: maxDuration_def)

lemma sint_minDuration: "sint minDuration = - 9223372036854775808"
  by (simp add: minDuration_def)

lemma sint_Duration_range:
  "- 9223372036854775808 \<le> sint (d :: Duration) \<and> sint d \<le> 9223372036854775807"
  using sint_range_size [of d] by (simp add: word_size)

lemma sint_time_Sub:
  "sint (time_Sub t u) = max (- 9223372036854775808) (min 9223372036854775807 (t - u))"
proof -
  have "sint (word_of_int x :: Duration) = x"
    if "- 9223372036854775808 \<le> x" "x \<le> 9223372036854775807" for x
    using that by (simp add: sint_sbintrunc' signed_take_bit_int_eq_self)
  from this [of "t - u"] show ?thesis
    by (auto simp: time_Sub_def sint_maxDuration sint_minDuration)
qed

lemma time_Sub_less_iff:
  assumes "u \<le> t"
  shows "sint (time_Sub t u) < sint (d :: Duration) \<longleftrightarrow> t - u < sint d"
  using assms sint_Duration_range [of d] by (auto simp: sint_time_Sub)

lemma time_Sub_not_less:
  assumes "sint (d :: Duration) \<le> t - u"
  shows "\<not> sint (time_Sub t u) < sint d"
  using assms sint_Duration_range [of d] by (auto simp: sint_time_Sub)

text \<open>
  Claim C1. For every user identifier \<open>u\<close> and every duration \<open>d\<close>: a check with no
  recorded timestamp for \<open>u\<close> records the current time and is allowed; a later check
  made while less than \<open>d\<close> has elapsed since the recorded timestamp is refused and
  leaves the whole map, so the timestamp of \<open>u\<close>, as it was; a check made when at least
  \<open>d\<close> has elapsed records the new time and is allowed.
\<close>

theorem rateLimitCheck_first_within_after:
  "(rl u = None \<longrightarrow> rateLimitCheck d rl u now = (True, rl(u \<mapsto> now))) \<and>
   (rl u = Some t \<and> t \<le> now \<and> now - t < sint d \<longrightarrow> rateLimitCheck d rl u now = (False, rl)) \<and>
   (rl u = Some t \<and> sint d \<le> now - t \<longrightarrow> rateLimitCheck d rl u now = (True, rl(u \<mapsto> now)))"
proof (intro conjI impI)
  assume "rl u = None"
  then show "rateLimitCheck d rl u now = (True, rl(u \<mapsto> now))"
    by (simp add: rateLimitCheck_def)
next
  assume a: "rl u = Some t \<and> t \<le> now \<and> now - t < sint d"
  then have "sint (time_Sub now t) < sint d"
    by (simp add: time_Sub_less_iff)
  with a show "rateLimitCheck d rl u now = (False, rl)"
    by (simp add: rateLimitCheck_def)
next
  assume a: "rl u = Some t \<and> sint d \<le> now - t"
  then have "\<not> sint (time_Sub now t) < sint d"
    by (simp add: time_Sub_not_less)
  with a show "rateLimitCheck d rl u now = (True, rl(u \<mapsto> now))"
    by (simp add: rateLimitCheck_def)
qed

theorem rateLimitCheck_first_within_after_witness:
  "rateLimitCheck (5 * Minute) Map.empty ''42'' 1000 = (True, [''42'' \<mapsto> 1000]) \<and>
   rateLimitCheck (5 * Minute) [''42'' \<mapsto> 1000] ''42'' 299999999999 = (False, [''42'' \<mapsto> 1000]) \<and>
   rateLimitCheck (5 * Minute) [''42'' \<mapsto> 1000] ''42'' 300000001000 = (True, [''42'' \<mapsto> 300000001000])"
proof -
  have d: "sint (5 * Minute) = 300000000000" by (simp add: Minute_def)
  show ?thesis
    using rateLimitCheck_first_within_after
        [where rl = Map.empty and u = "''42''" and d = "5 * Minute" and now = 1000 and t = 1000]
      rateLimitCheck_first_within_after
        [where rl = "[''42'' \<mapsto> 1000]" and u = "''42''" and d = "5 * Minute"
           and now = 299999999999 and t = 1000]
      rateLimitCheck_first_within_after
        [where rl = "[''42'' \<mapsto> 1000]" and u = "''42''" and d = "5 * Minute"
           and now = 300000001000 and t = 1000]
    by (simp add: d)
qed

section \<open>Properties of the email pattern\<close>

lemma atom_matches_single: "atom_matches (Class [(c, c)]) x \<longleftrightarrow> x = c"
  by (auto simp: of_char_eq_iff dest: antisym)

lemma match_here_Lits: "match_here (map Lit str) s \<longleftrightarrow> s = str"
proof (induction str arbitrary: s)
  case Nil
  then show ?case by simp
next
  case (Cons a str)
  show ?case
  proof (cases s)
    case Nil
    then show ?thesis by (simp add: Lit_def)
  next
    case (Cons c cs)
    have "match_here (map Lit (a # str)) (c # cs) \<longleftrightarrow> c = a \<and> match_here (map Lit str) cs"
      by (simp add: Lit_def atom_matches_single del: atom_matches.simps)
    also have "\<dots> \<longleftrightarrow> c = a \<and> cs = str"
      by (simp only: Cons.IH)
    finally show ?thesis using Cons by simp
  qed
qed

lemma match_here_Plus:
  "match_here (Plus a # re) s \<longleftrightarrow>
     (\<exists>l r. s = l @ r \<and> l \<noteq> [] \<and> (\<forall>c \<in> set l. atom_matches a c) \<and> match_here re r)"
proof (induction s)
  case Nil
  then show ?case by simp
next
  case (Cons c cs)
  show ?case
  proof
    assume "match_here (Plus a # re) (c # cs)"
    then have c: "atom_matches a c" and d: "match_here re cs \<or> match_here (Plus a # re) cs"
      by simp_all
    from d show "\<exists>l r. c # cs = l @ r \<and> l \<noteq> [] \<and> (\<forall>c \<in> set l. atom_matches a c) \<and> match_here re r"
    proof
      assume "match_here re cs"
      with c show ?thesis by (intro exI [of _ "[c]"] exI [of _ cs]) simp
    next
      assume "match_here (Plus a # re) cs"
      with Cons.IH obtain l r where "cs = l @ r" "l \<noteq> []" "\<forall>c \<in> set l. atom_matches a c" "match_here re r"
        by blast
      with c show ?thesis by (intro exI [of _ "c # l"] exI [of _ r]) simp
    qed
  next
    assume "\<exists>l r. c # cs = l @ r \<and> l \<noteq> [] \<and> (\<forall>c \<in> set l. atom_matches a c) \<and> match_here re r"
    then obtain l r where lr: "c # cs = l @ r" "l \<noteq> []" "\<forall>c \<in> set l. atom_matches a c" "match_here re r"
      by blast
    then obtain l' where l: "l = c # l'" by (cases l) auto
    with lr have cs: "cs = l' @ r" by simp
    show "match_here (Plus a # re) (c # cs)"
    proof (cases "l' = []")
      case True
      with lr l cs show ?thesis by simp
    next
      case False
      with lr l cs Cons.IH have "match_here (Plus a # re) cs" by auto
      with lr l show ?thesis by simp
    qed
  qed
qed

lemma mem_chars_iff: "c \<in> set cs \<longleftrightarrow> (of_char c :: nat) \<in> set (map of_char cs)"
  by (auto simp: of_char_eq_iff)

lemma range_upt: "(lo::nat) \<le> n \<and> n \<le> hi \<longleftrightarrow> n \<in> set [lo..<Suc hi]"
  by auto

lemma local_part_codes:
  "((97::nat) \<le> n \<and> n \<le> 122 \<or> 65 \<le> n \<and> n \<le> 90 \<or> 48 \<le> n \<and> n \<le> 57 \<or>
    46 \<le> n \<and> n \<le> 46 \<or> 95 \<le> n \<and> n \<le> 95 \<or> 37 \<le> n \<and> n \<le> 37 \<or> 43 \<le> n \<and> n \<le> 43 \<or> 45 \<le> n \<and> n \<le> 45)
   \<longleftrightarrow> n \<in> set (map of_char ''abcdefghijklmnopqrstuvwxyzABCDEFGHIJKLMNOPQRSTUVWXYZ0123456789._%+-'')"
  unfolding range_upt by (simp add: upt_rec_numeral)

lemma local_part_class:
  "atom_matches (Class [(CHR ''a'', CHR ''z''), (CHR ''A'', CHR ''Z''), (CHR ''0'', CHR ''9''),
                  (CHR ''.'', CHR ''.''), (CHR ''_'', CHR ''_''), (CHR ''%'', CHR ''%''),
                  (CHR ''+'', CHR ''+''), (CHR ''-'', CHR ''-'')]) c
   \<longleftrightarrow> c \<in> set ''abcdefghijklmnopqrstuvwxyzABCDEFGHIJKLMNOPQRSTUVWXYZ0123456789._%+-''"
  unfolding mem_chars_iff [of c] local_part_codes [symmetric] by simp

lemma ex_split_suffix:
  "(\<exists>l r. s = l @ r \<and> l \<noteq> [] \<and> P l \<and> r = t) \<longleftrightarrow> (\<exists>l. l \<noteq> [] \<and> P l \<and> s = l @ t)"
  by blast

lemma MatchString_emailRegex:
  "MatchString emailRegex s \<longleftrightarrow>
     (\<exists>local. local \<noteq> [] \<and>
        (\<forall>c \<in> set local. c \<in> set ''abcdefghijklmnopqrstuvwxyzABCDEFGHIJKLMNOPQRSTUVWXYZ0123456789._%+-'') \<and>
        s = local @ ''@uclan.ac.uk'')"
  unfolding MatchString_def emailRegex_def match_here_Plus match_here_Lits local_part_class
  by (rule ex_split_suffix)

text \<open>
  Claim C2, as the code has it. A text matches the pattern exactly when it is one or
  more characters out of the letters \<open>a-z\<close> and \<open>A-Z\<close>, the digits and \<open>. _ % + -\<close>,
  followed by \<open>@uclan.ac.uk\<close> in this very spelling. The four texts the claim names
  are all rejected: \<open>a.b-c%[email protected]\<close> too, which holds a bracket and a blank
  and does not end in the domain.
\<close>

theorem emailRegex_accepts_iff:
  "(MatchString emailRegex s \<longleftrightarrow>
     (\<exists>local. local \<noteq> [] \<and>
        (\<forall>c \<in> set local. c \<in> set ''abcdefghijklmnopqrstuvwxyzABCDEFGHIJKLMNOPQRSTUVWXYZ0123456789._%+-'') \<and>
        s = local @ ''@uclan.ac.uk'')) \<and>
   \<not> MatchString emailRegex ''a.b-c%[email protected]'' \<and>
   \<not> MatchString emailRegex ''[email protected]'' \<and>
   \<not> MatchString emailRegex ''user@other.ac.uk'' \<and>
   \<not> MatchString emailRegex ''not-an-email''"
proof -
  have "\<not> MatchString emailRegex ''a.b-c%[email protected]''"
    by (simp add: MatchString_def emailRegex_def Lit_def)
  moreover have "\<not> MatchString emailRegex ''[email protected]''"
    by (simp add: MatchString_def emailRegex_def Lit_def)
  moreover have "\<not> MatchString emailRegex ''user@other.ac.uk''"
    by (simp add: MatchString_def emailRegex_def Lit_def)
  moreover have "\<not> MatchString emailRegex ''not-an-email''"
    by (simp add: MatchString_def emailRegex_def Lit_def)
  ultimately show ?thesis
    using MatchString_emailRegex [of s] by blast
qed

text \<open>The theorem at a text with every kind of character of the local part.\<close>

theorem emailRegex_accepts_iff_witness:
  "MatchString emailRegex ''a.b-c%d+e_F9@uclan.ac.uk''"
proof -
  have "\<exists>local. local \<noteq> [] \<and>
        (\<forall>c \<in> set local. c \<in> set ''abcdefghijklmnopqrstuvwxyzABCDEFGHIJKLMNOPQRSTUVWXYZ0123456789._%+-'') \<and>
        ''a.b-c%d+e_F9@uclan.ac.uk'' = local @ ''@uclan.ac.uk''"
    by (rule exI [of _ "''a.b-c%d+e_F9''"]) simp
  with emailRegex_accepts_iff [of "''a.b-c%d+e_F9@uclan.ac.uk''"] show ?thesis
    by (simp only: simp_thms)
qed

text \<open>Claim C2 as stated names \<open>a.b-c%[email protected]\<close> as an accepted text; the
  pattern rejects it.\<close>

theorem emailRegex_rejects_protected_text:
  "\<not> MatchString emailRegex ''a.b-c%[email protected]''"
  by (simp add: MatchString_def emailRegex_def Lit_def)

section \<open>Properties of the direct-message handlers\<close>

lemma resolve_guild_first_match:
  "resolve_guild s u gs =
     (map (\<lambda>g. Call_GuildMember g u)
        (takeWhile (\<lambda>g. \<not> GuildMember s g u) gs
           @ (case find (\<lambda>g. GuildMember s g u) gs of None \<Rightarrow> [] | Some g \<Rightarrow> [g])),
      (case find (\<lambda>g. GuildMember s g u) gs of None \<Rightarrow> [] | Some g \<Rightarrow> g))"
  by (induction gs) simp_all

lemma valid_request_matches: "MatchString emailRegex (m_Content valid_request)"
  by (simp add: valid_request_def MatchString_def emailRegex_def Lit_def)

lemma invalid_request_no_match: "\<not> MatchString emailRegex (m_Content invalid_request)"
  by (simp add: invalid_request_def valid_request_def MatchString_def emailRegex_def Lit_def)

lemma sint_5_Minute: "sint (5 * Minute) = 300000000000"
  by (simp add: Minute_def)

text \<open>
  The order of the two revisions. For a direct message of a user other than the bot:
  part_000 applies the rate-limit check, then the pattern, and only then asks the
  platform, guild by guild in the order of \<^verbatim>\<open>s.State.Guilds\<close>, whether the sender is a
  member, stopping at the first guild that says yes; nothing it does before depends on
  the configuration. part_001 reads the rate-limit settings from the configuration
  entry under the guild id of the message itself; with such an entry it applies the
  rate-limit check only when the entry enables it, then the pattern, and only then
  the same scan.
\<close>

theorem direct_message_order:
  fixes s :: Session and m :: MessageCreate and now :: Time and rl :: RateLimitMap
    and ocfg :: "ServerConfig_part_000 Config" and cfg :: "ServerConfig Config"
  defines "u \<equiv> m_Author_ID m"
    and "first_match \<equiv> find (\<lambda>g. GuildMember s g (m_Author_ID m)) (State_Guilds s)"
  defines "scan \<equiv> map (\<lambda>g. Call_GuildMember g u)
                    (takeWhile (\<lambda>g. \<not> GuildMember s g u) (State_Guilds s)
                       @ (case first_match of None \<Rightarrow> [] | Some g \<Rightarrow> [g]))"
    and "guildID \<equiv> (case first_match of None \<Rightarrow> [] | Some g \<Rightarrow> g)"
  assumes "m_Author_ID m \<noteq> State_User_ID s" and "Channel s (m_ChannelID m) = Inr ChannelTypeDM"
  shows
    "memberDM (\<lambda>m. processEmailVerification_part_000 s now m ocfg) s m rl =
       (if \<not> fst (rateLimitCheck (5 * Minute) rl u now) then
          ([Call_ChannelMessageSend (m_ChannelID m)
              ''Please wait 5 minutes before sending another verification request.''], rl)
        else if \<not> MatchString emailRegex (m_Content m) then
          ([Call_ChannelMessageSend (m_ChannelID m) invalid_email_message], rl(u \<mapsto> now))
        else (scan @ post_request_part_000 s m ocfg guildID, rl(u \<mapsto> now)))
     \<and>
     (Servers_lookup cfg (m_GuildID m) = Some serverConfig \<longrightarrow>
      memberDM (\<lambda>m. processEmailVerification_part_001 s now m cfg) s m rl =
        (if RateLimitEnabled serverConfig
             \<and> \<not> fst (rateLimitCheck (RateLimitDuration serverConfig) rl u now) then
           ([Call_ChannelMessageSend (m_ChannelID m) (wait_message (RateLimitDuration serverConfig))], rl)
         else if \<not> MatchString emailRegex (m_Content m) then
           ([Call_ChannelMessageSend (m_ChannelID m) invalid_email_message],
            if RateLimitEnabled serverConfig then rl(u \<mapsto> now) else rl)
         else (scan @ post_request_part_001 s m cfg guildID,
               if RateLimitEnabled serverConfig then rl(u \<mapsto> now) else rl)))"
proof -
  have check: "rateLimitCheck d rl u now =
      (fst (rateLimitCheck d rl u now), if fst (rateLimitCheck d rl u now) then rl(u \<mapsto> now) else rl)" for d
    by (simp add: rateLimitCheck_def split: option.split)
  have r: "resolve_guild s u (State_Guilds s) = (scan, guildID)"
    by (simp add: resolve_guild_first_match scan_def guildID_def first_match_def u_def)
  have p0: "processEmailVerification_part_000 s now m ocfg rl =
       (if \<not> fst (rateLimitCheck (5 * Minute) rl u now) then
          ([Call_ChannelMessageSend (m_ChannelID m)
              ''Please wait 5 minutes before sending another verification request.''], rl)
        else if \<not> MatchString emailRegex (m_Content m) then
          ([Call_ChannelMessageSend (m_ChannelID m) invalid_email_message], rl(u \<mapsto> now))
        else (scan @ post_request_part_000 s m ocfg guildID, rl(u \<mapsto> now)))"
    unfolding processEmailVerification_part_000_def u_def [symmetric] r
    by (subst check) simp
  have p1: "processEmailVerification_part_001 s now m cfg rl =
        (if RateLimitEnabled serverConfig
             \<and> \<not> fst (rateLimitCheck (RateLimitDuration serverConfig) rl u now) then
           ([Call_ChannelMessageSend (m_ChannelID m) (wait_message (RateLimitDuration serverConfig))], rl)
         else if \<not> MatchString emailRegex (m_Content m) then
           ([Call_ChannelMessageSend (m_ChannelID m) invalid_email_message],
            if RateLimitEnabled serverConfig then rl(u \<mapsto> now) else rl)
         else (scan @ post_request_part_001 s m cfg guildID,
               if RateLimitEnabled serverConfig then rl(u \<mapsto> now) else rl))"
    if "Servers_lookup cfg (m_GuildID m) = Some serverConfig"
    unfolding processEmailVerification_part_001_def u_def [symmetric] r that
    by (subst check) simp
  show ?thesis
    using assms(5,6) by (simp add: memberDM_def p0 p1)
qed

text \<open>The theorem at a valid request of a member of \<open>g2\<close>, in both revisions.\<close>

theorem direct_message_order_witness:
  "memberDM (\<lambda>m. processEmailVerification_part_000 ok_Session 1000 m both_channels_config)
       ok_Session valid_request Map.empty =
     ([Call_GuildMember ''g1'' ''12345'', Call_GuildMember ''g2'' ''12345'',
       Call_ChannelMessageSendComplex ''audit''
         ''User ada#0001 has requested verification with email ada@uclan.ac.uk''
         [approveButton ''12345'', denyButton ''12345'']],
      [''12345'' \<mapsto> 1000])
   \<and>
   memberDM (\<lambda>m. processEmailVerification_part_001 ok_Session 1000 m limited_config)
       ok_Session valid_request Map.empty =
     ([Call_GuildMember ''g1'' ''12345'', Call_GuildMember ''g2'' ''12345'',
       Call_ChannelMessageSendComplex ''audit''
         ''User ada#0001 has requested verification with email ada@uclan.ac.uk''
         [approveButton ''12345'', denyButton ''12345'']],
      [''12345'' \<mapsto> 1000])"
proof -
  have a: "m_Author_ID valid_request \<noteq> State_User_ID ok_Session"
    by (simp add: valid_request_def ok_Session_def)
  have b: "Channel ok_Session (m_ChannelID valid_request) = Inr ChannelTypeDM"
    by (simp add: ok_Session_def)
  have c: "Servers_lookup limited_config (m_GuildID valid_request) =
      Some \<lparr>MemberAuditChannelID = [], UnverifiedRoleID = [], RateLimitEnabled = True,
            RateLimitDuration = 5 * Minute\<rparr>"
    by (simp add: Servers_lookup_def limited_config_def valid_request_def)
  show ?thesis
    using direct_message_order [OF a b, where now = 1000 and ocfg = both_channels_config
        and rl = Map.empty and cfg = limited_config
        and serverConfig = "\<lparr>MemberAuditChannelID = [], UnverifiedRoleID = [],
              RateLimitEnabled = True, RateLimitDuration = 5 * Minute\<rparr>"]
      valid_request_matches c
    by (simp add: rateLimitCheck_def post_request_part_000_def post_request_part_001_def
        Servers_lookup_def Servers_index_def both_channels_config_def limited_config_def
        ok_Session_def valid_request_def request_content_def)
qed

text \<open>part_001 under an entry that has rate limiting switched off: a message sent
  one nanosecond after the sender's recorded attempt is not refused and records
  nothing; no rate-limit check was applied to it.\<close>

theorem disabled_rate_limit_is_not_checked:
  "memberDM (\<lambda>m. processEmailVerification_part_001 ok_Session 1001 m disabled_config)
       ok_Session invalid_request [''12345'' \<mapsto> 1000] =
     ([Call_ChannelMessageSend ''dm-12345'' invalid_email_message], [''12345'' \<mapsto> 1000])"
  using invalid_request_no_match
  by (simp add: memberDM_def processEmailVerification_part_001_def Servers_lookup_def
      disabled_config_def ok_Session_def invalid_request_def valid_request_def)

text \<open>
  Claim C4 at a direct message, whose guild id is empty as that of every direct
  message, under the configuration that the commands of an administrator of \<open>g2\<close>
  leave. part_001 looks the guild id of the message up first (lines 244-251), finds no
  entry, logs that and returns: a sender inside the waiting time gets no wait reply, an
  invalid address gets no reply, a valid request is never posted, no guild is asked for
  the sender and no attempt is recorded. part_000, which has no such lookup, applies
  the rate-limit check, then the pattern, and then scans the guilds, at the same
  messages.
\<close>

theorem direct_message_dropped_at_config_lookup:
  "memberDM (\<lambda>m. processEmailVerification_part_001 ok_Session 1000 m g2_config)
       ok_Session valid_request Map.empty =
     ([Log ''No config found for guild %s'' [Str []]], Map.empty)
   \<and>
   memberDM (\<lambda>m. processEmailVerification_part_001 ok_Session 1001 m g2_config)
       ok_Session invalid_request [''12345'' \<mapsto> 1000] =
     ([Log ''No config found for guild %s'' [Str []]], [''12345'' \<mapsto> 1000])
   \<and>
   memberDM (\<lambda>m. processEmailVerification_part_000 ok_Session 1000 m both_channels_config)
       ok_Session valid_request Map.empty =
     ([Call_GuildMember ''g1'' ''12345'', Call_GuildMember ''g2'' ''12345'',
       Call_ChannelMessageSendComplex ''audit''
         ''User ada#0001 has requested verification with email ada@uclan.ac.uk''
         [approveButton ''12345'', denyButton ''12345'']],
      [''12345'' \<mapsto> 1000])
   \<and>
   memberDM (\<lambda>m. processEmailVerification_part_000 ok_Session 1001 m both_channels_config)
       ok_Session invalid_request [''12345'' \<mapsto> 1000] =
     ([Call_ChannelMessageSend ''dm-12345''
         ''Please wait 5 minutes before sending another verification request.''],
      [''12345'' \<mapsto> 1000])"
proof -
  have a: "m_Author_ID valid_request \<noteq> State_User_ID ok_Session"
    "m_Author_ID invalid_request \<noteq> State_User_ID ok_Session"
    by (simp_all add: valid_request_def invalid_request_def ok_Session_def)
  have b: "Channel ok_Session c = Inr ChannelTypeDM" for c
    by (simp add: ok_Session_def)
  have l: "Servers_lookup g2_config (m_GuildID valid_request) = None"
    "Servers_lookup g2_config (m_GuildID invalid_request) = None"
    by (simp_all add: Servers_lookup_def g2_config_def valid_request_def invalid_request_def)
  have p1: "processEmailVerification_part_001 ok_Session 1000 valid_request g2_config Map.empty =
      ([Log ''No config found for guild %s'' [Str []]], Map.empty)"
    "processEmailVerification_part_001 ok_Session 1001 invalid_request g2_config [''12345'' \<mapsto> 1000] =
      ([Log ''No config found for guild %s'' [Str []]], [''12345'' \<mapsto> 1000])"
    by (simp_all add: processEmailVerification_part_001_def l)
      (simp_all add: valid_request_def invalid_request_def)
  have p0: "processEmailVerification_part_000 ok_Session 1000 valid_request both_channels_config Map.empty =
     ([Call_GuildMember ''g1'' ''12345'', Call_GuildMember ''g2'' ''12345'',
       Call_ChannelMessageSendComplex ''audit''
         ''User ada#0001 has requested verification with email ada@uclan.ac.uk''
         [approveButton ''12345'', denyButton ''12345'']],
      [''12345'' \<mapsto> 1000])"
    using valid_request_matches
    by (simp add: processEmailVerification_part_000_def post_request_part_000_def rateLimitCheck_def
        Servers_lookup_def ok_Session_def valid_request_def both_channels_config_def
        request_content_def)
  have w: "processEmailVerification_part_000 ok_Session 1001 invalid_request both_channels_config
        [''12345'' \<mapsto> 1000] =
     ([Call_ChannelMessageSend ''dm-12345''
         ''Please wait 5 minutes before sending another verification request.''],
      [''12345'' \<mapsto> 1000])"
    by (simp add: processEmailVerification_part_000_def rateLimitCheck_def time_Sub_def
        sint_5_Minute invalid_request_def valid_request_def maxDuration_def minDuration_def)
  show ?thesis
    by (simp add: memberDM_def a b p1 p0 w)
qed

text \<open>
  Claim C3 at two inputs. part_000: the administrator of \<open>g2\<close> has set the member audit
  channel but not the verification channel; the guard tests the verification channel,
  so the handler logs that no member audit channel is configured and posts nothing.
  part_001: the entry of \<open>g2\<close> has no member audit channel; there is no guard, and the
  handler sends the request to the channel with the empty id.
\<close>

theorem audit_channel_guard_at_failing_inputs:
  "processEmailVerification_part_000 ok_Session 1000 valid_request audit_only_config Map.empty =
     ([Call_GuildMember ''g1'' ''12345'', Call_GuildMember ''g2'' ''12345'',
       Log ''No member audit channel configured for guild %s'' [Str ''g2'']],
      [''12345'' \<mapsto> 1000])
   \<and>
   processEmailVerification_part_001 ok_Session 1000 valid_request no_audit_config Map.empty =
     ([Call_GuildMember ''g1'' ''12345'', Call_GuildMember ''g2'' ''12345'',
       Call_ChannelMessageSendComplex []
         ''User ada#0001 has requested verification with email ada@uclan.ac.uk''
         [approveButton ''12345'', denyButton ''12345'']],
      Map.empty)"
  using valid_request_matches
  by (simp add: processEmailVerification_part_000_def post_request_part_000_def
      processEmailVerification_part_001_def post_request_part_001_def rateLimitCheck_def
      Servers_lookup_def Servers_index_def ok_Session_def valid_request_def audit_only_config_def
      no_audit_config_def request_content_def)

text \<open>
  Claim C10. A direct message that passes the rate-limit check and fails the pattern
  gets the reply about the invalid address and nothing else, and the sender's
  timestamp is recorded all the same; a further message of the same sender, whatever
  its content, sent before the duration has elapsed is refused with the wait reply and
  changes nothing. In part_000 the duration is five minutes; in part_001 the check is
  made when the entry under the message's guild id enables it, with its duration.
\<close>

theorem invalid_email_still_rate_limits:
  fixes m m' :: MessageCreate and rl :: RateLimitMap and now now' :: Time
  defines "u \<equiv> m_Author_ID m"
  assumes "\<not> MatchString emailRegex (m_Content m)" and "m_Author_ID m' = m_Author_ID m"
    and "now \<le> now'"
  shows
    "(fst (rateLimitCheck (5 * Minute) rl u now) \<and> now' - now < sint (5 * Minute) \<longrightarrow>
        (case processEmailVerification_part_000 s now m ocfg rl of
           (evs, rl1) \<Rightarrow>
             evs = [Call_ChannelMessageSend (m_ChannelID m) invalid_email_message] \<and>
             rl1 = rl(u \<mapsto> now) \<and>
             processEmailVerification_part_000 s' now' m' ocfg' rl1 =
               ([Call_ChannelMessageSend (m_ChannelID m')
                   ''Please wait 5 minutes before sending another verification request.''], rl1)))
     \<and>
     (Servers_lookup cfg (m_GuildID m) = Some sc \<and> RateLimitEnabled sc \<and>
      fst (rateLimitCheck (RateLimitDuration sc) rl u now) \<and>
      Servers_lookup cfg' (m_GuildID m') = Some sc' \<and> RateLimitEnabled sc' \<and>
      now' - now < sint (RateLimitDuration sc') \<longrightarrow>
        (case processEmailVerification_part_001 s now m cfg rl of
           (evs, rl1) \<Rightarrow>
             evs = [Call_ChannelMessageSend (m_ChannelID m) invalid_email_message] \<and>
             rl1 = rl(u \<mapsto> now) \<and>
             processEmailVerification_part_001 s' now' m' cfg' rl1 =
               ([Call_ChannelMessageSend (m_ChannelID m') (wait_message (RateLimitDuration sc'))], rl1)))"
proof -
  have pass: "rateLimitCheck d rl u now = (True, rl(u \<mapsto> now))" if "fst (rateLimitCheck d rl u now)" for d
    using that by (auto simp: rateLimitCheck_def split: option.splits if_splits)
  have refuse: "rateLimitCheck d (rl(u \<mapsto> now)) (m_Author_ID m') now' = (False, rl(u \<mapsto> now))"
    if "now' - now < sint d" for d
    using that assms(3,4) by (simp add: rateLimitCheck_def time_Sub_less_iff u_def)
  show ?thesis
    using assms(2)
    by (auto simp: processEmailVerification_part_000_def processEmailVerification_part_001_def
        u_def [symmetric] pass refuse)
qed

text \<open>The theorem at an invalid message followed, one microsecond later, by a valid one.\<close>

theorem invalid_email_still_rate_limits_witness:
  "processEmailVerification_part_000 ok_Session 1000 invalid_request both_channels_config Map.empty =
     ([Call_ChannelMessageSend ''dm-12345'' invalid_email_message], [''12345'' \<mapsto> 1000])
   \<and> processEmailVerification_part_000 ok_Session 2000 valid_request both_channels_config
        [''12345'' \<mapsto> 1000] =
     ([Call_ChannelMessageSend ''dm-12345''
         ''Please wait 5 minutes before sending another verification request.''],
      [''12345'' \<mapsto> 1000])
   \<and> processEmailVerification_part_001 ok_Session 1000 invalid_request limited_config Map.empty =
     ([Call_ChannelMessageSend ''dm-12345'' invalid_email_message], [''12345'' \<mapsto> 1000])
   \<and> processEmailVerification_part_001 ok_Session 2000 valid_request limited_config
        [''12345'' \<mapsto> 1000] =
     ([Call_ChannelMessageSend ''dm-12345'' (wait_message (5 * Minute))], [''12345'' \<mapsto> 1000])"
proof -
  have a: "m_Author_ID valid_request = m_Author_ID invalid_request"
    by (simp add: invalid_request_def)
  have b: "(1000 :: Time) \<le> 2000" by simp
  show ?thesis
    using invalid_email_still_rate_limits [OF invalid_request_no_match a b,
        where rl = Map.empty and s = ok_Session and s' = ok_Session
          and ocfg = both_channels_config and ocfg' = both_channels_config
          and cfg = limited_config and cfg' = limited_config
          and sc = "\<lparr>MemberAuditChannelID = [], UnverifiedRoleID = [], RateLimitEnabled = True,
                      RateLimitDuration = 5 * Minute\<rparr>"
          and sc' = "\<lparr>MemberAuditChannelID = [], UnverifiedRoleID = [], RateLimitEnabled = True,
                      RateLimitDuration = 5 * Minute\<rparr>"]
    by (simp add: sint_5_Minute rateLimitCheck_def Servers_lookup_def limited_config_def
        invalid_request_def valid_request_def split: prod.splits)
qed

section \<open>Properties of \<^verbatim>\<open>handleButton\<close>\<close>

lemma Split_not_Nil: "Split s sep \<noteq> []"
  by (induction s) (auto split: list.splits)

lemma Split_no_sep: "sep \<notin> set s \<Longrightarrow> Split s sep = [s]"
  by (induction s) auto

lemma Split_append_sep: "sep \<notin> set a \<Longrightarrow> Split (a @ sep # b) sep = a # Split b sep"
  by (induction a) auto

lemma length_Split: "length (Split s sep) = Suc (length (filter ((=) sep) s))"
proof (induction s)
  case Nil
  then show ?case by simp
next
  case (Cons c cs)
  then show ?case
    using Split_not_Nil [of cs sep] by (cases "Split cs sep") auto
qed

lemma Split_deny:
  "Split (''deny_'' @ uid) (CHR ''_'') = ''deny'' # Split uid (CHR ''_'')"
  using Split_append_sep [of "CHR ''_''" "''deny''" uid] by simp

lemma length_Split_deny:
  "length (Split (''deny_'' @ uid) (CHR ''_'')) = 2 \<longleftrightarrow> CHR ''_'' \<notin> set uid"
proof -
  have "length (filter ((=) (CHR ''_'')) uid) = 0 \<longleftrightarrow> CHR ''_'' \<notin> set uid"
    by (auto simp: filter_empty_conv)
  then show ?thesis by (simp add: Split_deny length_Split)
qed

lemma handleButton_with_deny:
  assumes "i_CustomID i = ''deny_'' @ uid"
  shows "handleButton_with approve s i =
     Call_InteractionRespondDeferred
     # (case InteractionRespondDeferred s of
          Some err \<Rightarrow> [Log ''Error acknowledging interaction: %v'' [Err err]]
        | None \<Rightarrow>
            if i_Type i \<noteq> InteractionMessageComponent then
              [Log ''Received non-component interaction: %v'' [Num (i_Type i)]]
            else
              Log ''Received button interaction: %s'' [Str (i_CustomID i)]
              # (if CHR ''_'' \<in> set uid then [Log ''Invalid button customID format: %s'' [Str (i_CustomID i)]]
                 else Log ''Processing %s action for user %s'' [Str ''deny'', Str uid]
                    # (case deny s i uid of
                         (evs, None) \<Rightarrow> evs
                       | (evs, Some responseContent) \<Rightarrow> evs @ after_switch s i responseContent)))"
proof (cases "CHR ''_'' \<in> set uid")
  case True
  then have "length (Split (''deny_'' @ uid) (CHR ''_'')) \<noteq> 2"
    by (simp only: length_Split_deny) simp
  with True show ?thesis
    by (simp add: handleButton_with_def assms Let_def cong: option.case_cong)
next
  case False
  then have "Split (''deny_'' @ uid) (CHR ''_'') = [''deny'', uid]"
    by (simp add: Split_deny Split_no_sep)
  with False show ?thesis
    by (simp add: handleButton_with_def assms Let_def cong: option.case_cong)
qed

lemma deny_removal_outcomes:
  fixes s :: Session and i :: InteractionCreate and uid :: string
    and approve :: "string \<Rightarrow> event list \<times> string option"
  defines "evs \<equiv> handleButton_with approve s i"
  defines "attempted \<equiv> Call_GuildMemberDelete (i_GuildID i) uid \<in> set evs"
  assumes "i_CustomID i = ''deny_'' @ uid"
  shows
    "(attempted \<longleftrightarrow>
        InteractionRespondDeferred s = None \<and> i_Type i = InteractionMessageComponent \<and>
        CHR ''_'' \<notin> set uid \<and> (\<exists>dm. UserChannelCreate s uid = Inr dm))
     \<and> (attempted \<and> GuildMemberDelete s (i_GuildID i) uid \<noteq> None \<longrightarrow>
          last evs = Call_InteractionResponseEdit ''Error processing denial'' \<and>
          (\<forall>c m t b. Call_ChannelMessageEditComplex c m t b \<notin> set evs))
     \<and> (attempted \<and> GuildMemberDelete s (i_GuildID i) uid = None \<longrightarrow>
          Call_ChannelMessageEditComplex (i_ChannelID i) (i_Message_ID i) (denial_line uid) [] \<in> set evs)"
  unfolding attempted_def evs_def handleButton_with_deny [OF assms(3)]
  by (auto simp: deny_def after_switch_def split: option.splits sum.splits)

lemma handleButton_with_not_approve_deny:
  fixes s :: Session and i :: InteractionCreate
    and approve :: "string \<Rightarrow> event list \<times> string option"
  defines "parts \<equiv> Split (i_CustomID i) (CHR ''_'')"
  assumes "length parts \<noteq> 2 \<or> (parts ! 0 \<noteq> ''approve'' \<and> parts ! 0 \<noteq> ''deny'')"
  shows "handleButton_with approve s i =
     Call_InteractionRespondDeferred
     # (case InteractionRespondDeferred s of
          Some err \<Rightarrow> [Log ''Error acknowledging interaction: %v'' [Err err]]
        | None \<Rightarrow>
            if i_Type i \<noteq> InteractionMessageComponent then
              [Log ''Received non-component interaction: %v'' [Num (i_Type i)]]
            else if length parts \<noteq> 2 then
              [Log ''Received button interaction: %s'' [Str (i_CustomID i)],
               Log ''Invalid button customID format: %s'' [Str (i_CustomID i)]]
            else
              [Log ''Received button interaction: %s'' [Str (i_CustomID i)],
               Log ''Processing %s action for user %s'' [Str (parts ! 0), Str (parts ! 1)],
               Log ''Unknown action: %s'' [Str (parts ! 0)],
               Call_InteractionResponseEdit ''Unknown action''])"
  using assms(2) unfolding parts_def
  by (auto simp: handleButton_with_def Let_def unknown_action_def cong: option.case_cong)

text \<open>
  What the handler does, in both revisions, with an identifier that does not split
  into exactly two parts at the underscore, or whose first part is neither \<open>approve\<close>
  nor \<open>deny\<close>: it removes no role, removes no member and does not edit the audit
  message. When the deferred acknowledgement went through and the interaction is a
  message component, an identifier of two parts with an unknown action is logged and
  the acknowledgement is edited to \<open>Unknown action\<close>, while an identifier that does not
  split into two parts is logged and the acknowledgement is left as it is.
\<close>

theorem unknown_or_malformed_identifier:
  fixes s :: Session and i :: InteractionCreate
  defines "parts \<equiv> Split (i_CustomID i) (CHR ''_'')"
  assumes "evs = handleButton_part_001 s i cfg \<or> evs = handleButton_part_000 s i ocfg"
    and "length parts \<noteq> 2 \<or> (parts ! 0 \<noteq> ''approve'' \<and> parts ! 0 \<noteq> ''deny'')"
  shows
    "(\<forall>e \<in> set evs. \<not> changes_membership_or_audit e)
     \<and> (InteractionRespondDeferred s = None \<and> i_Type i = InteractionMessageComponent \<longrightarrow>
          evs =
            (if length parts \<noteq> 2 then
               [Call_InteractionRespondDeferred,
                Log ''Received button interaction: %s'' [Str (i_CustomID i)],
                Log ''Invalid button customID format: %s'' [Str (i_CustomID i)]]
             else
               [Call_InteractionRespondDeferred,
                Log ''Received button interaction: %s'' [Str (i_CustomID i)],
                Log ''Processing %s action for user %s'' [Str (parts ! 0), Str (parts ! 1)],
                Log ''Unknown action: %s'' [Str (parts ! 0)],
                Call_InteractionResponseEdit ''Unknown action'']))"
proof -
  obtain approve where "evs = handleButton_with approve s i"
    using assms(2) by (auto simp: handleButton_part_001_def handleButton_part_000_def)
  then show ?thesis
    using handleButton_with_not_approve_deny [of i approve s] assms(3)
    unfolding parts_def
    by (auto split: option.splits)
qed

text \<open>The theorem at \<open>launch_12345\<close> and at \<open>foo_bar_baz\<close>.\<close>

theorem unknown_or_malformed_identifier_witness:
  "handleButton_part_001 ok_Session (button_press ''launch_12345'') limited_config =
     [Call_InteractionRespondDeferred,
      Log ''Received button interaction: %s'' [Str ''launch_12345''],
      Log ''Processing %s action for user %s'' [Str ''launch'', Str ''12345''],
      Log ''Unknown action: %s'' [Str ''launch''],
      Call_InteractionResponseEdit ''Unknown action'']
   \<and> handleButton_part_000 ok_Session (button_press ''foo_bar_baz'') both_channels_config =
     [Call_InteractionRespondDeferred,
      Log ''Received button interaction: %s'' [Str ''foo_bar_baz''],
      Log ''Invalid button customID format: %s'' [Str ''foo_bar_baz'']]"
proof -
  have a: "Split (i_CustomID (button_press ''launch_12345'')) (CHR ''_'') = [''launch'', ''12345'']"
    by (simp add: button_press_def)
  have b: "Split (i_CustomID (button_press ''foo_bar_baz'')) (CHR ''_'') = [''foo'', ''bar'', ''baz'']"
    by (simp add: button_press_def)
  have c: "InteractionRespondDeferred ok_Session = None"
    "i_Type (button_press x) = InteractionMessageComponent"
    "i_CustomID (button_press x) = x" for x
    by (simp_all add: ok_Session_def button_press_def)
  show ?thesis
    using unknown_or_malformed_identifier
        [where i = "button_press ''launch_12345''" and s = ok_Session and cfg = limited_config
           and evs = "handleButton_part_001 ok_Session (button_press ''launch_12345'') limited_config"]
      unknown_or_malformed_identifier
        [where i = "button_press ''foo_bar_baz''" and s = ok_Session and ocfg = both_channels_config
           and evs = "handleButton_part_000 ok_Session (button_press ''foo_bar_baz'') both_channels_config"]
    by (simp add: a b c)
qed

text \<open>
  Claim C5 at the identifier \<open>foo_bar_baz\<close>, which has three parts: the handler defers,
  logs twice and returns. No edit of the acknowledgement is among its calls, where
  the claim, and the \<^verbatim>\<open>default\<close> case of the handler's own switch, edit it to
  \<open>Unknown action\<close>.
\<close>

theorem malformed_identifier_not_acknowledged:
  "handleButton_part_001 ok_Session (button_press ''foo_bar_baz'') limited_config =
     [Call_InteractionRespondDeferred,
      Log ''Received button interaction: %s'' [Str ''foo_bar_baz''],
      Log ''Invalid button customID format: %s'' [Str ''foo_bar_baz'']]"
  by (simp add: handleButton_part_001_def handleButton_with_def ok_Session_def button_press_def)

text \<open>
  Claim C6, for both revisions and every interaction whose identifier is \<open>deny_\<close>
  followed by the user id. The removal of the member is attempted exactly when the
  acknowledgement went through, the interaction is a message component, the user id
  holds no underscore and the direct channel to the user could be opened. If the
  removal is attempted and fails, the last thing the handler does is to edit the
  acknowledgement to \<open>Error processing denial\<close>, and it never edits the audit message;
  if it is attempted and succeeds, the handler edits the audit message to the denial
  line, \<open><@\<close>, the user id and \<open>> has been denied and removed from the server.\<close>, with
  an empty list of components.
\<close>

theorem deny_removal_failure_and_success:
  fixes s :: Session and i :: InteractionCreate and uid :: string
  defines "attempted \<equiv> \<lambda>evs. Call_GuildMemberDelete (i_GuildID i) uid \<in> set evs"
  assumes "i_CustomID i = ''deny_'' @ uid"
    and "evs = handleButton_part_001 s i cfg \<or> evs = handleButton_part_000 s i ocfg"
  shows
    "(attempted evs \<longleftrightarrow>
        InteractionRespondDeferred s = None \<and> i_Type i = InteractionMessageComponent \<and>
        CHR ''_'' \<notin> set uid \<and> (\<exists>dm. UserChannelCreate s uid = Inr dm))
     \<and> (attempted evs \<and> GuildMemberDelete s (i_GuildID i) uid \<noteq> None \<longrightarrow>
          last evs = Call_InteractionResponseEdit ''Error processing denial'' \<and>
          (\<forall>c m t b. Call_ChannelMessageEditComplex c m t b \<notin> set evs))
     \<and> (attempted evs \<and> GuildMemberDelete s (i_GuildID i) uid = None \<longrightarrow>
          Call_ChannelMessageEditComplex (i_ChannelID i) (i_Message_ID i)
            (''<@'' @ uid @ ''> has been denied and removed from the server.'') [] \<in> set evs)"
proof -
  obtain approve where "evs = handleButton_with approve s i"
    using assms(3) by (auto simp: handleButton_part_001_def handleButton_part_000_def)
  then show ?thesis
    unfolding attempted_def using deny_removal_outcomes [OF assms(2), of approve s]
    by (simp add: denial_line_def)
qed

text \<open>The theorem at \<open>deny_12345\<close>, on a platform that refuses the removal and on one
  that carries it out.\<close>

theorem deny_removal_failure_and_success_witness:
  "handleButton_part_001 kick_fails_Session (button_press ''deny_12345'') limited_config =
     [Call_InteractionRespondDeferred,
      Log ''Received button interaction: %s'' [Str ''deny_12345''],
      Log ''Processing %s action for user %s'' [Str ''deny'', Str ''12345''],
      Call_UserChannelCreate ''12345'',
      Call_ChannelMessageSend ''dm-12345'' denialMessage,
      Call_GuildMemberDelete ''g2'' ''12345'',
      Log ''Error kicking user %s: %v'' [Str ''12345'', Err (GoError False ''Missing Permissions'')],
      Call_InteractionResponseEdit ''Error processing denial'']
   \<and> Call_ChannelMessageEditComplex ''audit'' ''msg1''
          ''<@12345> has been denied and removed from the server.'' []
        \<in> set (handleButton_part_000 ok_Session (button_press ''deny_12345'') both_channels_config)"
proof -
  have c: "i_CustomID (button_press ''deny_12345'') = ''deny_'' @ ''12345''"
    by (simp add: button_press_def)
  have d: "handleButton_part_001 kick_fails_Session (button_press ''deny_12345'') limited_config =
     [Call_InteractionRespondDeferred,
      Log ''Received button interaction: %s'' [Str ''deny_12345''],
      Log ''Processing %s action for user %s'' [Str ''deny'', Str ''12345''],
      Call_UserChannelCreate ''12345'',
      Call_ChannelMessageSend ''dm-12345'' denialMessage,
      Call_GuildMemberDelete ''g2'' ''12345'',
      Log ''Error kicking user %s: %v'' [Str ''12345'', Err (GoError False ''Missing Permissions'')],
      Call_InteractionResponseEdit ''Error processing denial'']"
    by (simp add: handleButton_part_001_def handleButton_with_def deny_def kick_fails_Session_def
        ok_Session_def button_press_def Let_def)
  have e: "InteractionRespondDeferred ok_Session = None"
    "i_Type (button_press ''deny_12345'') = InteractionMessageComponent"
    "CHR ''_'' \<notin> set ''12345''"
    "UserChannelCreate ok_Session ''12345'' = Inr ''dm-12345''"
    "GuildMemberDelete ok_Session (i_GuildID (button_press ''deny_12345'')) ''12345'' = None"
    "i_ChannelID (button_press ''deny_12345'') = ''audit''"
    "i_Message_ID (button_press ''deny_12345'') = ''msg1''"
    by (simp_all add: ok_Session_def button_press_def)
  show ?thesis
    using deny_removal_failure_and_success
        [OF c, where s = ok_Session and ocfg = both_channels_config
           and evs = "handleButton_part_000 ok_Session (button_press ''deny_12345'') both_channels_config"]
    by (simp add: d e)
qed

section \<open>Properties of the administrative commands\<close>

lemma ensure_entry_Some:
  assumes "Servers config = Some m"
  shows "ensure_entry config g =
           Inr (case m g of None \<Rightarrow> config\<lparr>Servers := Some (m(g \<mapsto> zero_ServerConfig))\<rparr> | Some v \<Rightarrow> config)"
  using assms by (simp add: ensure_entry_def Servers_lookup_def Servers_assign_def split: option.split)

lemma upsert_Some:
  assumes "Servers config = Some m"
  shows "(case ensure_entry config g of
            Inl p \<Rightarrow> Inl p
          | Inr config1 \<Rightarrow> Servers_assign config1 g (f (Servers_index config1 g)))
         = Inr (config\<lparr>Servers := Some (m(g \<mapsto> f (case m g of None \<Rightarrow> zero_ServerConfig | Some v \<Rightarrow> v)))\<rparr>)"
  using assms
  by (simp add: ensure_entry_Some Servers_index_def Servers_lookup_def Servers_assign_def
      split: option.split)

lemma save_and_reply_config: "fst (snd (save_and_reply J msg config disk)) = config"
  by (simp add: save_and_reply_def split: prod.split option.split)

text \<open>
  Claim C7, as the code has it. On a configuration whose map is not nil, every command
  leaves the entries of all other guilds as they were. The five writing commands make
  the entry of the guild, from the zero value when there was none, and change it so:
  \<open>set_member_audit_channel\<close>, \<open>set_unverified_role\<close>, \<open>disable_rate_limit\<close> and
  \<open>set_rate_limit\<close> set their one field; \<open>enable_rate_limit\<close> sets the flag and, when the
  duration is zero, the duration to five minutes as well. \<open>check_rate_limit\<close> changes
  nothing and makes no entry.
\<close>

theorem admin_command_frame:
  fixes config :: "ServerConfig Config" and g :: string
  defines "old \<equiv> Servers_index config g"
  assumes "Servers config \<noteq> None"
  shows
    "(case commandHandlers J cmd g config disk of
        Inl p \<Rightarrow> False
      | Inr (evs, config', disk') \<Rightarrow>
          (\<forall>g'. g' \<noteq> g \<longrightarrow> Servers_lookup config' g' = Servers_lookup config g') \<and>
          (case cmd of
             set_member_audit_channel channelID \<Rightarrow>
               Servers_lookup config' g = Some (old\<lparr>MemberAuditChannelID := channelID\<rparr>)
           | set_unverified_role roleID \<Rightarrow>
               Servers_lookup config' g = Some (old\<lparr>UnverifiedRoleID := roleID\<rparr>)
           | enable_rate_limit \<Rightarrow>
               Servers_lookup config' g =
                 Some (old\<lparr>RateLimitEnabled := True,
                           RateLimitDuration :=
                             (if RateLimitDuration old = 0 then 5 * Minute else RateLimitDuration old)\<rparr>)
           | disable_rate_limit \<Rightarrow>
               Servers_lookup config' g = Some (old\<lparr>RateLimitEnabled := False\<rparr>)
           | set_rate_limit minutes \<Rightarrow>
               Servers_lookup config' g = Some (old\<lparr>RateLimitDuration := minutes * Minute\<rparr>)
           | check_rate_limit \<Rightarrow> config' = config))"
proof -
  from assms(2) obtain m where m: "Servers config = Some m" by auto
  have old: "old = (case m g of None \<Rightarrow> zero_ServerConfig | Some v \<Rightarrow> v)"
    by (simp add: old_def Servers_index_def Servers_lookup_def m)
  have ens: "ensure_entry config g =
      Inr (case m g of None \<Rightarrow> config\<lparr>Servers := Some (m(g \<mapsto> zero_ServerConfig))\<rparr> | Some v \<Rightarrow> config)"
    by (rule ensure_entry_Some [OF m])
  show ?thesis
  proof (cases cmd)
    case (set_member_audit_channel x)
    then show ?thesis
      by (simp add: setMemberAuditChannel_def ens old m Servers_index_def Servers_lookup_def
          Servers_assign_def save_and_reply_def split: option.split prod.split)
  next
    case (set_unverified_role x)
    then show ?thesis
      by (simp add: setUnverifiedRole_def ens old m Servers_index_def Servers_lookup_def
          Servers_assign_def save_and_reply_def split: option.split prod.split)
  next
    case enable_rate_limit
    then show ?thesis
      by (simp add: enableRateLimit_def ens old m Servers_index_def Servers_lookup_def
          Servers_assign_def save_and_reply_def Let_def split: option.split prod.split)
  next
    case disable_rate_limit
    then show ?thesis
      by (simp add: disableRateLimit_def ens old m Servers_index_def Servers_lookup_def
          Servers_assign_def save_and_reply_def split: option.split prod.split)
  next
    case (set_rate_limit x)
    then show ?thesis
      by (simp add: setRateLimit_def ens old m Servers_index_def Servers_lookup_def
          Servers_assign_def save_and_reply_def split: option.split prod.split)
  next
    case check_rate_limit
    then show ?thesis
      by (simp add: checkRateLimit_def split: option.split)
  qed
qed

text \<open>The theorem at \<open>set_rate_limit 10\<close> for a guild that has an entry.\<close>

theorem admin_command_frame_witness:
  "\<forall>J disk.
     (case commandHandlers J (set_rate_limit 10) ''g2'' limited_config disk of
        Inl p \<Rightarrow> False
      | Inr (evs, config', disk') \<Rightarrow>
          Servers_lookup config' [] = Servers_lookup limited_config [] \<and>
          Servers_lookup config' ''g2'' =
            Some \<lparr>MemberAuditChannelID = ''audit'', UnverifiedRoleID = ''role'',
                  RateLimitEnabled = True, RateLimitDuration = 10 * Minute\<rparr>)"
proof (intro allI)
  fix J :: "ServerConfig Config Codec" and disk :: Disk
  have a: "Servers limited_config \<noteq> None" by (simp add: limited_config_def)
  have b: "Servers_index limited_config ''g2'' =
      \<lparr>MemberAuditChannelID = ''audit'', UnverifiedRoleID = ''role'',
       RateLimitEnabled = True, RateLimitDuration = 5 * Minute\<rparr>"
    by (simp add: Servers_index_def Servers_lookup_def limited_config_def)
  show "(case commandHandlers J (set_rate_limit 10) ''g2'' limited_config disk of
        Inl p \<Rightarrow> False
      | Inr (evs, config', disk') \<Rightarrow>
          Servers_lookup config' [] = Servers_lookup limited_config [] \<and>
          Servers_lookup config' ''g2'' =
            Some \<lparr>MemberAuditChannelID = ''audit'', UnverifiedRoleID = ''role'',
                  RateLimitEnabled = True, RateLimitDuration = 10 * Minute\<rparr>)"
    using admin_command_frame
        [OF a, where J = J and cmd = "set_rate_limit 10" and g = "''g2''" and disk = disk]
    by (auto simp: b split: sum.splits prod.splits)
qed

text \<open>Claim C7 as stated fails: on the empty configuration \<open>enable_rate_limit\<close> leaves
  an entry that differs from the zero value in two fields, \<open>check_rate_limit\<close> leaves no
  entry, and on a nil map a writing handler panics.\<close>

theorem enable_rate_limit_sets_two_fields:
  "(\<forall>J disk.
      (case enableRateLimit J ''g2'' empty_config disk of
         Inl p \<Rightarrow> False
       | Inr (evs, config', disk') \<Rightarrow>
           Servers_lookup config' ''g2'' =
             Some \<lparr>MemberAuditChannelID = [], UnverifiedRoleID = [],
                   RateLimitEnabled = True, RateLimitDuration = 5 * Minute\<rparr>))
   \<and> zero_ServerConfig\<lparr>RateLimitEnabled := True\<rparr> \<noteq>
       \<lparr>MemberAuditChannelID = [], UnverifiedRoleID = [],
        RateLimitEnabled = True, RateLimitDuration = 5 * Minute\<rparr>
   \<and> (\<forall>disk.
        (case checkRateLimit ''g2'' empty_config disk of
           Inl p \<Rightarrow> False
         | Inr (evs, config', disk') \<Rightarrow> Servers_lookup config' ''g2'' = None))
   \<and> (\<forall>J disk. setMemberAuditChannel J ''g2'' ''audit'' \<lparr>Servers = None\<rparr> disk
         = Inl AssignmentToEntryInNilMap)"
proof -
  have "5 * Minute \<noteq> (0 :: Duration)" by (simp add: Minute_def)
  then show ?thesis
    by (simp add: enableRateLimit_def checkRateLimit_def setMemberAuditChannel_def ensure_entry_def
        Servers_lookup_def Servers_assign_def Servers_index_def empty_config_def zero_ServerConfig_def
        save_and_reply_def Let_def split: prod.split option.split)
qed

section \<open>Properties of \<^verbatim>\<open>loadConfig\<close>\<close>

text \<open>
  Claim C9, as the code has it, for part_001 and for main.go. With no file at the
  path, \<^verbatim>\<open>loadConfig\<close> returns no error and leaves a configuration with an empty map.
  It returns an error exactly when reading the file fails with an error other than
  the file's absence, or the file is read and \<^verbatim>\<open>json.Unmarshal\<close> returns an error.
\<close>

theorem loadConfig_fails_iff:
  "(files disk ''./data/config.json'' = None \<and> read_error disk ''./data/config.json'' = None \<longrightarrow>
      loadConfig_part_001 J disk config = (None, \<lparr>Servers = Some Map.empty\<rparr>))
   \<and> (fst (loadConfig_part_001 J disk config) \<noteq> None \<longleftrightarrow>
        (\<exists>err. ReadFile disk ''./data/config.json'' = Inl err \<and> \<not> IsNotExist err) \<or>
        (\<exists>data. ReadFile disk ''./data/config.json'' = Inr data \<and> fst (Unmarshal J data config) \<noteq> None))
   \<and> (files disk ''config.json'' = None \<and> read_error disk ''config.json'' = None \<longrightarrow>
      loadConfig_main K disk oconfig = (None, \<lparr>Servers = Some Map.empty\<rparr>))
   \<and> (fst (loadConfig_main K disk oconfig) \<noteq> None \<longleftrightarrow>
        (\<exists>err. ReadFile disk ''config.json'' = Inl err \<and> \<not> IsNotExist err) \<or>
        (\<exists>data. ReadFile disk ''config.json'' = Inr data \<and> fst (Unmarshal K data oconfig) \<noteq> None))"
  by (auto simp: loadConfig_part_001_def loadConfig_main_def ReadFile_def
      split: option.splits sum.splits)

text \<open>The theorem on the disk with no file.\<close>

theorem loadConfig_fails_iff_witness:
  "(\<forall>J config. loadConfig_part_001 J empty_Disk config = (None, \<lparr>Servers = Some Map.empty\<rparr>))
   \<and> (\<forall>K oconfig. loadConfig_main K empty_Disk oconfig = (None, \<lparr>Servers = Some Map.empty\<rparr>))"
proof (intro conjI allI)
  fix J :: "ServerConfig Config Codec" and config :: "ServerConfig Config"
  show "loadConfig_part_001 J empty_Disk config = (None, \<lparr>Servers = Some Map.empty\<rparr>)"
    using loadConfig_fails_iff [where disk = empty_Disk and J = J and config = config]
    by (simp add: empty_Disk_def)
next
  fix K :: "ServerConfig_part_000 Config Codec" and oconfig :: "ServerConfig_part_000 Config"
  show "loadConfig_main K empty_Disk oconfig = (None, \<lparr>Servers = Some Map.empty\<rparr>)"
    using loadConfig_fails_iff [where disk = empty_Disk and K = K and oconfig = oconfig]
    by (simp add: empty_Disk_def)
qed

text \<open>Claim C9 as stated fails: a file that exists and cannot be read makes
  \<^verbatim>\<open>loadConfig\<close> fail whatever the file holds and whatever the decoder accepts.\<close>

theorem loadConfig_fails_on_unreadable_file:
  "\<forall>J config. loadConfig_part_001 J unreadable_Disk config =
      (Some (GoError False ''open ./data/config.json: permission denied''), config)"
  by (simp add: loadConfig_part_001_def ReadFile_def unreadable_Disk_def empty_Disk_def)

section \<open>Properties of the round trip through the configuration file\<close>

subsection \<open>UTF-8: a valid encoding is what \<^verbatim>\<open>EncodeRune\<close> writes for its rune\<close>

lemma char_of_byte: "n = byte c \<Longrightarrow> char_of n = c"
  by (simp add: byte_def)

lemma mix2:
  fixes a b :: nat
  assumes "b < 64"
  shows "(a * 64 + b) div 64 = a" "(a * 64 + b) mod 64 = b"
  using assms by simp_all

lemma mix3:
  fixes a b c :: nat
  assumes "b < 64" "c < 64"
  shows "(a * 4096 + b * 64 + c) div 4096 = a"
    "(a * 4096 + b * 64 + c) div 64 mod 64 = b"
    "(a * 4096 + b * 64 + c) mod 64 = c"
proof -
  have e: "a * 4096 + b * 64 + c = (a * 64 + b) * 64 + c" by simp
  have "b * 64 + c < 4096" using assms by simp
  then show "(a * 4096 + b * 64 + c) div 4096 = a" by simp
  have "((a * 64 + b) * 64 + c) div 64 = a * 64 + b" by (rule mix2(1) [OF assms(2)])
  then have "(a * 4096 + b * 64 + c) div 64 = a * 64 + b" by (simp only: e)
  then show "(a * 4096 + b * 64 + c) div 64 mod 64 = b" by (simp only: mix2(2) [OF assms(1)])
  have "((a * 64 + b) * 64 + c) mod 64 = c" by (rule mix2(2) [OF assms(2)])
  then show "(a * 4096 + b * 64 + c) mod 64 = c" by (simp only: e)
qed

lemma mix4:
  fixes a b c d :: nat
  assumes "b < 64" "c < 64" "d < 64"
  shows "(a * 262144 + b * 4096 + c * 64 + d) div 262144 = a"
    "(a * 262144 + b * 4096 + c * 64 + d) div 4096 mod 64 = b"
    "(a * 262144 + b * 4096 + c * 64 + d) div 64 mod 64 = c"
    "(a * 262144 + b * 4096 + c * 64 + d) mod 64 = d"
proof -
  have e: "a * 262144 + b * 4096 + c * 64 + d = (a * 64 + b) * 4096 + c * 64 + d" by simp
  have "b * 4096 + c * 64 + d < 262144" using assms by simp
  then show "(a * 262144 + b * 4096 + c * 64 + d) div 262144 = a" by simp
  have "((a * 64 + b) * 4096 + c * 64 + d) div 4096 = a * 64 + b" by (rule mix3(1) [OF assms(2,3)])
  then have "(a * 262144 + b * 4096 + c * 64 + d) div 4096 = a * 64 + b" by (simp only: e)
  then show "(a * 262144 + b * 4096 + c * 64 + d) div 4096 mod 64 = b"
    by (simp only: mix2(2) [OF assms(1)])
  have "((a * 64 + b) * 4096 + c * 64 + d) div 64 mod 64 = c" by (rule mix3(2) [OF assms(2,3)])
  then show "(a * 262144 + b * 4096 + c * 64 + d) div 64 mod 64 = c" by (simp only: e)
  have "((a * 64 + b) * 4096 + c * 64 + d) mod 64 = d" by (rule mix3(3) [OF assms(2,3)])
  then show "(a * 262144 + b * 4096 + c * 64 + d) mod 64 = d" by (simp only: e)
qed

lemma DecodeRune_size: "DecodeRune (c # cs) = (r, n) \<Longrightarrow> 1 \<le> n \<and> n \<le> 4 \<and> n \<le> Suc (length cs)"
  by (auto split: if_splits list.splits)

lemma DecodeRune_1:
  assumes "byte c0 < 0x80"
  shows "DecodeRune (c0 # cs) = (byte c0, 1)"
  using assms by simp

lemma DecodeRune_2:
  assumes "0xC2 \<le> byte c0" "byte c0 < 0xE0" "DecodeRune (c0 # cs) = (r, n)" "\<not> (r = RuneError \<and> n = 1)"
  shows "\<exists>c1 cs'. cs = c1 # cs' \<and> continuation c1
           \<and> r = (byte c0 - 0xC0) * 64 + (byte c1 - 0x80) \<and> n = 2"
proof (cases cs)
  case Nil
  with assms show ?thesis by simp
next
  case (Cons c1 cs')
  with assms show ?thesis by (simp split: if_splits)
qed

lemma DecodeRune_3:
  assumes "0xE0 \<le> byte c0" "byte c0 < 0xF0" "DecodeRune (c0 # cs) = (r, n)" "\<not> (r = RuneError \<and> n = 1)"
  shows "\<exists>c1 c2 cs'. cs = c1 # c2 # cs'
           \<and> (if byte c0 = 0xE0 then 0xA0 else 0x80) \<le> byte c1
           \<and> byte c1 \<le> (if byte c0 = 0xED then 0x9F else 0xBF) \<and> continuation c2
           \<and> r = (byte c0 - 0xE0) * 4096 + (byte c1 - 0x80) * 64 + (byte c2 - 0x80) \<and> n = 3"
proof (cases cs)
  case Nil
  with assms show ?thesis by simp
next
  case (Cons c1 cs1)
  show ?thesis
  proof (cases cs1)
    case Nil
    with Cons assms show ?thesis by simp
  next
    case (Cons c2 cs')
    with \<open>cs = c1 # cs1\<close> assms(1,2) have
      "DecodeRune (c0 # cs) =
         (if (if byte c0 = 0xE0 then 0xA0 else 0x80) \<le> byte c1
                \<and> byte c1 \<le> (if byte c0 = 0xED then 0x9F else 0xBF)
                \<and> continuation c2
             then ((byte c0 - 0xE0) * 4096 + (byte c1 - 0x80) * 64 + (byte c2 - 0x80), 3)
             else (RuneError, 1))"
      by simp
    with assms(3,4) Cons \<open>cs = c1 # cs1\<close> show ?thesis
      by (metis prod.inject)
  qed
qed

lemma DecodeRune_4:
  assumes "0xF0 \<le> byte c0" "byte c0 < 0xF5" "DecodeRune (c0 # cs) = (r, n)" "\<not> (r = RuneError \<and> n = 1)"
  shows "\<exists>c1 c2 c3 cs'. cs = c1 # c2 # c3 # cs'
           \<and> (if byte c0 = 0xF0 then 0x90 else 0x80) \<le> byte c1
           \<and> byte c1 \<le> (if byte c0 = 0xF4 then 0x8F else 0xBF)
           \<and> continuation c2 \<and> continuation c3
           \<and> r = (byte c0 - 0xF0) * 262144 + (byte c1 - 0x80) * 4096
                     + (byte c2 - 0x80) * 64 + (byte c3 - 0x80) \<and> n = 4"
proof -
  have short: "DecodeRune (c0 # cs) = (RuneError, 1)" if "length cs < 3"
  proof -
    from that consider "cs = []" | c1 where "cs = [c1]" | c1 c2 where "cs = [c1, c2]"
      by (cases cs; cases "tl cs"; cases "tl (tl cs)") auto
    then show ?thesis using assms(1,2) by cases simp_all
  qed
  with assms(3,4) have "\<not> length cs < 3" by auto
  then obtain c1 c2 c3 cs' where cs: "cs = c1 # c2 # c3 # cs'"
    by (cases cs; cases "tl cs"; cases "tl (tl cs)") auto
  with assms(1,2) have
    "DecodeRune (c0 # cs) =
       (if (if byte c0 = 0xF0 then 0x90 else 0x80) \<le> byte c1
                \<and> byte c1 \<le> (if byte c0 = 0xF4 then 0x8F else 0xBF)
                \<and> continuation c2 \<and> continuation c3
             then ((byte c0 - 0xF0) * 262144 + (byte c1 - 0x80) * 4096
                     + (byte c2 - 0x80) * 64 + (byte c3 - 0x80), 4)
             else (RuneError, 1))"
    by simp
  with assms(3,4) cs show ?thesis
    by (metis prod.inject)
qed

lemma DecodeRune_invalid_lead:
  assumes "0x80 \<le> byte c0 \<and> byte c0 < 0xC2 \<or> 0xF5 \<le> byte c0"
  shows "DecodeRune (c0 # cs) = (RuneError, 1)"
  using assms by auto

lemma EncodeRune_DecodeRune:
  assumes "DecodeRune (c0 # cs) = (r, n)" and "\<not> (r = RuneError \<and> n = 1)"
  shows "EncodeRune r = take n (c0 # cs)"
proof -
  consider (a) "byte c0 < 0x80" | (b) "0x80 \<le> byte c0 \<and> byte c0 < 0xC2 \<or> 0xF5 \<le> byte c0"
    | (c) "0xC2 \<le> byte c0" "byte c0 < 0xE0" | (d) "0xE0 \<le> byte c0" "byte c0 < 0xF0"
    | (e) "0xF0 \<le> byte c0" "byte c0 < 0xF5"
    by linarith
  then show ?thesis
  proof cases
    case a
    with assms(1) show ?thesis by (auto simp: EncodeRune_def char_of_byte)
  next
    case b
    from DecodeRune_invalid_lead [OF this] assms show ?thesis by simp
  next
    case c
    from DecodeRune_2 [OF c assms] obtain c1 cs' where cs: "cs = c1 # cs'"
      and c1: "0x80 \<le> byte c1" "byte c1 \<le> 0xBF"
      and r: "r = (byte c0 - 0xC0) * 64 + (byte c1 - 0x80)" and n: "n = 2"
      by (auto simp: continuation_def)
    define a b where "a = byte c0 - 0xC0" and "b = byte c1 - 0x80"
    with c c1 have ab: "2 \<le> a" "a < 32" "b < 64" "byte c0 = 0xC0 + a" "byte c1 = 0x80 + b" by simp_all
    have r': "r = a * 64 + b" by (simp add: r a_def b_def)
    from ab have "0x80 \<le> r" "r < 0x800" unfolding r' by simp_all
    moreover have "r div 64 = a" "r mod 64 = b" unfolding r' using ab(3) by (simp_all add: mix2)
    ultimately show ?thesis by (simp add: EncodeRune_def cs n char_of_byte ab)
  next
    case d
    from DecodeRune_3 [OF d assms] obtain c1 c2 cs' where cs: "cs = c1 # c2 # cs'"
      and c1: "(if byte c0 = 0xE0 then 0xA0 else 0x80) \<le> byte c1"
              "byte c1 \<le> (if byte c0 = 0xED then 0x9F else 0xBF)"
      and c2: "0x80 \<le> byte c2" "byte c2 \<le> 0xBF"
      and r: "r = (byte c0 - 0xE0) * 4096 + (byte c1 - 0x80) * 64 + (byte c2 - 0x80)" and n: "n = 3"
      by (auto simp: continuation_def)
    define a b c where "a = byte c0 - 0xE0" and "b = byte c1 - 0x80" and "c = byte c2 - 0x80"
    with d c1 c2 have ab: "a < 16" "b < 64" "c < 64"
      "byte c0 = 0xE0 + a" "byte c1 = 0x80 + b" "byte c2 = 0x80 + c"
      "a = 0 \<longrightarrow> 32 \<le> b" "a = 13 \<longrightarrow> b < 32"
      by (auto split: if_splits)
    have r': "r = a * 4096 + b * 64 + c" by (simp add: r a_def b_def c_def)
    from ab have "0x800 \<le> r" "r < 0x10000" unfolding r' by auto
    moreover from ab have "\<not> (0xD800 \<le> r \<and> r < 0xE000)" unfolding r' by (cases "a < 13"; cases "a = 13") auto
    moreover have "r div 4096 = a" "r div 64 mod 64 = b" "r mod 64 = c"
      unfolding r' using ab(2,3) by (simp_all only: mix3)
    ultimately show ?thesis by (auto simp: EncodeRune_def cs n char_of_byte ab)
  next
    case e
    from DecodeRune_4 [OF e assms] obtain c1 c2 c3 cs' where cs: "cs = c1 # c2 # c3 # cs'"
      and c1: "(if byte c0 = 0xF0 then 0x90 else 0x80) \<le> byte c1"
              "byte c1 \<le> (if byte c0 = 0xF4 then 0x8F else 0xBF)"
      and c2: "0x80 \<le> byte c2" "byte c2 \<le> 0xBF" and c3: "0x80 \<le> byte c3" "byte c3 \<le> 0xBF"
      and r: "r = (byte c0 - 0xF0) * 262144 + (byte c1 - 0x80) * 4096
                     + (byte c2 - 0x80) * 64 + (byte c3 - 0x80)" and n: "n = 4"
      by (auto simp: continuation_def)
    define a b c d where "a = byte c0 - 0xF0" and "b = byte c1 - 0x80" and "c = byte c2 - 0x80"
      and "d = byte c3 - 0x80"
    with e c1 c2 c3 have ab: "a < 5" "b < 64" "c < 64" "d < 64"
      "byte c0 = 0xF0 + a" "byte c1 = 0x80 + b" "byte c2 = 0x80 + c" "byte c3 = 0x80 + d"
      "a = 0 \<longrightarrow> 16 \<le> b" "a = 4 \<longrightarrow> b < 16"
      by (auto split: if_splits)
    have r': "r = a * 262144 + b * 4096 + c * 64 + d" by (simp add: r a_def b_def c_def d_def)
    from ab have "0x10000 \<le> r" "r \<le> 0x10FFFF" unfolding r' by (cases "a = 4"; auto)+
    moreover have "r div 262144 = a" "r div 4096 mod 64 = b" "r div 64 mod 64 = c" "r mod 64 = d"
      unfolding r' using ab(2,3,4) by (simp_all only: mix4)
    ultimately show ?thesis by (simp add: EncodeRune_def cs n char_of_byte ab)
  qed
qed

subsection \<open>A string written by \<^verbatim>\<open>appendString\<close> reads back\<close>

lemma byte_simps [simp]:
  "byte dquote = 0x22" "byte bslash = 0x5C"
  by (simp_all add: byte_def dquote_def bslash_def)

lemma byte_eq_iff: "byte c = byte d \<longleftrightarrow> c = d"
  by (simp add: byte_def of_char_eq_iff)

lemma byte_char_of: "n < 256 \<Longrightarrow> byte (char_of n) = n"
  by (simp add: byte_def)

lemma byte_less_256: "byte c < 256"
  by (simp add: byte_def)

lemma bslash_neq_dquote [simp]: "bslash \<noteq> dquote" "dquote \<noteq> bslash"
  by (simp_all add: bslash_def dquote_def)

lemma byte_eqD: "byte c = n \<Longrightarrow> byte d = n \<Longrightarrow> c = d"
  by (simp add: byte_eq_iff [symmetric])

lemma hex_value_hex_digit0:
  assumes "n < 16"
  shows "hex_value (hex_digit n) = Some n"
proof -
  have "list_all (\<lambda>k. hex_value (hex_digit k) = Some k) [0..<16]"
    by (simp add: upt_conv_Cons hex_value_def hex_digit_def byte_def)
  with assms show ?thesis by (simp add: list_all_iff)
qed

lemma hex_value_hex_digit: "n < 16 \<Longrightarrow> hex_value (hex_digit n) = Some n" using hex_value_hex_digit0 .

lemma hex_value_digits [simp]:
  "hex_value (CHR ''0'') = Some 0" "hex_value (CHR ''2'') = Some 2"
  by (simp_all add: hex_value_def byte_def)

lemma getu4_00:
  assumes "b < 256"
  shows "getu4 (CHR ''0'' # CHR ''0'' # hex_digit (b div 16) # hex_digit (b mod 16) # X) = Some b"
proof -
  from assms have "b div 16 < 16" "b mod 16 < 16" by simp_all
  then show ?thesis by (simp add: getu4_def hex_value_hex_digit)
qed

lemma getu4_202:
  assumes "r = 0x2028 \<or> r = 0x2029"
  shows "getu4 (CHR ''2'' # CHR ''0'' # CHR ''2'' # hex_digit (r mod 16) # X) = Some r"
  using assms by (auto simp: getu4_def hex_value_def hex_digit_def byte_def)

lemma EncodeRune_ascii: "byte c < 0x80 \<Longrightarrow> EncodeRune (byte c) = [c]"
  by (simp add: EncodeRune_def char_of_byte)

lemma drop_4: "drop 4 (a # b # c # d # X) = X"
  by simp

lemma string_literal_plain:
  assumes "c \<noteq> dquote" "c \<noteq> bslash" "0x20 \<le> byte c" "byte c < 0x80"
  shows "string_literal (c # X) = emit [c] (string_literal X)"
  using assms by simp

lemma string_literal_short_escape:
  assumes "unescape e = Some x" "e \<noteq> CHR ''u''"
  shows "string_literal (bslash # e # X) = emit [x] (string_literal X)"
  using assms by simp

lemma string_literal_u00:
  assumes "byte c < 0x80"
  shows "string_literal (bslash # CHR ''u'' # CHR ''0'' # CHR ''0'' # hex_digit (byte c div 16)
            # hex_digit (byte c mod 16) # X) = emit [c] (string_literal X)"
proof -
  from assms have "byte c < 256" by simp
  from getu4_00 [OF this] assms show ?thesis
    by (simp add: EncodeRune_ascii)
qed

lemma unescape_simps:
  "unescape (CHR ''b'') = Some (CHR 0x08)" "unescape (CHR ''f'') = Some (CHR 0x0C)"
  "unescape (CHR ''n'') = Some (CHR 0x0A)" "unescape (CHR ''r'') = Some (CHR 0x0D)"
  "unescape (CHR ''t'') = Some (CHR 0x09)" "unescape bslash = Some bslash"
  "unescape dquote = Some dquote"
  by (simp_all add: unescape_def bslash_def dquote_def)

lemma not_u: "bslash \<noteq> CHR ''u''" "dquote \<noteq> CHR ''u''" "CHR ''u'' \<noteq> bslash" "CHR ''u'' \<noteq> dquote"
  by (simp_all add: bslash_def dquote_def)

lemma escape_quote:
  assumes "c = bslash \<or> c = dquote"
  shows "string_literal (escape_ascii c @ X) = emit [c] (string_literal X)"
proof -
  from assms have e: "escape_ascii c = [bslash, c]" by (simp add: escape_ascii_def)
  from assms have "unescape c = Some c" "c \<noteq> CHR ''u''" by (auto simp: unescape_simps not_u)
  from string_literal_short_escape [OF this, of X] show ?thesis by (simp only: e append.simps)
qed

lemma escape_short:
  assumes "byte c = n" "byte x = n" "unescape l = Some x" "l \<noteq> CHR ''u''"
    and "escape_ascii c = [bslash, l]"
  shows "string_literal (escape_ascii c @ X) = emit [c] (string_literal X)"
proof -
  from assms(1,2) have cx: "c = x" by (rule byte_eqD)
  have "string_literal (escape_ascii c @ X) = string_literal (bslash # l # X)"
    by (simp only: assms(5) append.simps)
  also have "\<dots> = emit [x] (string_literal X)"
    by (rule string_literal_short_escape [OF assms(3,4)])
  finally show ?thesis by (simp only: cx)
qed

lemma escape_ascii_b: "byte c = 0x08 \<Longrightarrow> escape_ascii c = [bslash, CHR ''b'']"
  by (auto simp: escape_ascii_def)

lemma escape_ascii_f: "byte c = 0x0C \<Longrightarrow> escape_ascii c = [bslash, CHR ''f'']"
  by (auto simp: escape_ascii_def)

lemma escape_ascii_n: "byte c = 0x0A \<Longrightarrow> escape_ascii c = [bslash, CHR ''n'']"
  by (auto simp: escape_ascii_def)

lemma escape_ascii_r: "byte c = 0x0D \<Longrightarrow> escape_ascii c = [bslash, CHR ''r'']"
  by (auto simp: escape_ascii_def)

lemma escape_ascii_t: "byte c = 0x09 \<Longrightarrow> escape_ascii c = [bslash, CHR ''t'']"
  by (auto simp: escape_ascii_def)

lemma byte_ctl [simp]:
  "byte (CHR 0x08) = 0x08" "byte (CHR 0x0C) = 0x0C" "byte (CHR 0x0A) = 0x0A"
  "byte (CHR 0x0D) = 0x0D" "byte (CHR 0x09) = 0x09"
  by (simp_all add: byte_def)

lemma string_literal_escape_ascii:
  assumes "byte c < 0x80"
  shows "string_literal (escape_ascii c @ X) = emit [c] (string_literal X)"
proof -
  consider (q) "c = bslash \<or> c = dquote"
    | (b) "byte c = 0x08" | (f) "byte c = 0x0C" | (n) "byte c = 0x0A" | (r) "byte c = 0x0D"
    | (t) "byte c = 0x09"
    | (u) "\<not> (c = bslash \<or> c = dquote)" "byte c \<noteq> 0x08" "byte c \<noteq> 0x0C" "byte c \<noteq> 0x0A"
          "byte c \<noteq> 0x0D" "byte c \<noteq> 0x09"
          "byte c < 0x20 \<or> c = CHR ''<'' \<or> c = CHR ''>'' \<or> c = CHR ''&''"
    | (p) "\<not> (c = bslash \<or> c = dquote)"
          "\<not> (byte c < 0x20 \<or> c = CHR ''<'' \<or> c = CHR ''>'' \<or> c = CHR ''&'')"
    by blast
  then show ?thesis
  proof cases
    case q
    then show ?thesis by (rule escape_quote)
  next
    case b
    show ?thesis
      by (rule escape_short [OF b _ unescape_simps(1) _ escape_ascii_b [OF b]]) simp_all
  next
    case f
    show ?thesis
      by (rule escape_short [OF f _ unescape_simps(2) _ escape_ascii_f [OF f]]) simp_all
  next
    case n
    show ?thesis
      by (rule escape_short [OF n _ unescape_simps(3) _ escape_ascii_n [OF n]]) simp_all
  next
    case r
    show ?thesis
      by (rule escape_short [OF r _ unescape_simps(4) _ escape_ascii_r [OF r]]) simp_all
  next
    case t
    show ?thesis
      by (rule escape_short [OF t _ unescape_simps(5) _ escape_ascii_t [OF t]]) simp_all
  next
    case u
    then have "escape_ascii c =
        [bslash, CHR ''u'', CHR ''0'', CHR ''0'', hex_digit (byte c div 16), hex_digit (byte c mod 16)]"
      by (simp add: escape_ascii_def)
    then show ?thesis
      using string_literal_u00 [OF assms, of X] by (simp only: append.simps)
  next
    case p
    then have e: "escape_ascii c = [c]"
      by (simp add: escape_ascii_def)
    from p have c: "c \<noteq> dquote" "c \<noteq> bslash" "0x20 \<le> byte c" by simp_all
    from string_literal_plain [OF c assms, of X] show ?thesis
      by (simp only: e append.simps)
  qed
qed

lemma DecodeRune_prefix:
  assumes "DecodeRune (c0 # cs) = (r, n)" and "\<not> (r = RuneError \<and> n = 1)"
  shows "DecodeRune (take n (c0 # cs) @ Y) = (r, n)"
proof -
  consider (a) "byte c0 < 0x80" | (b) "0x80 \<le> byte c0 \<and> byte c0 < 0xC2 \<or> 0xF5 \<le> byte c0"
    | (c) "0xC2 \<le> byte c0" "byte c0 < 0xE0" | (d) "0xE0 \<le> byte c0" "byte c0 < 0xF0"
    | (e) "0xF0 \<le> byte c0" "byte c0 < 0xF5"
    by linarith
  then show ?thesis
  proof cases
    case a
    with assms(1) show ?thesis by auto
  next
    case b
    from DecodeRune_invalid_lead [OF this] assms show ?thesis by simp
  next
    case c
    from DecodeRune_2 [OF c assms] obtain c1 cs' where cs: "cs = c1 # cs'" and n: "n = 2"
      by auto
    from assms(1) c show ?thesis unfolding cs n by (simp split: if_splits)
  next
    case d
    from DecodeRune_3 [OF d assms] obtain c1 c2 cs' where cs: "cs = c1 # c2 # cs'" and n: "n = 3"
      by auto
    from assms(1) d show ?thesis unfolding cs n by (simp split: if_splits)
  next
    case e
    from DecodeRune_4 [OF e assms] obtain c1 c2 c3 cs' where cs: "cs = c1 # c2 # c3 # cs'" and n: "n = 4"
      by auto
    from assms(1) e show ?thesis unfolding cs n by (simp split: if_splits)
  qed
qed

lemma emit_Some: "emit x (Some (d, rest)) = Some (x @ d, rest)"
  by (simp add: emit_def)

lemma string_literal_multibyte:
  assumes "0x80 \<le> byte c"
  shows "string_literal (c # Z) =
           (case DecodeRune (c # Z) of (r, n) \<Rightarrow> emit (EncodeRune r) (string_literal (drop (n - 1) Z)))"
proof -
  from assms have "c \<noteq> dquote" "c \<noteq> bslash" by auto
  with assms show ?thesis by simp
qed

lemma string_literal_u202:
  assumes "r = 0x2028 \<or> r = 0x2029"
  shows "string_literal (bslash # CHR ''u'' # CHR ''2'' # CHR ''0'' # CHR ''2'' # hex_digit (r mod 16) # Z)
           = emit (EncodeRune r) (string_literal Z)"
proof -
  from assms have "\<not> 0xD800 \<le> r" by auto
  with getu4_202 [OF assms, of Z] show ?thesis by simp
qed

lemma string_literal_appendString_chars:
  "ValidString s \<Longrightarrow> string_literal (appendString_chars s @ dquote # rest) = Some (s, rest)"
proof (induction "length s" arbitrary: s rule: less_induct)
  case less
  show ?case
  proof (cases s)
    case Nil
    then show ?thesis by simp
  next
    case (Cons c cs)
    obtain r n where d: "DecodeRune (c # cs) = (r, n)" by (cases "DecodeRune (c # cs)")
    from less.prems Cons d have v: "\<not> (r = RuneError \<and> n = 1)" and vt: "ValidString (drop (n - 1) cs)"
      by simp_all
    from DecodeRune_size [OF d] have n: "1 \<le> n" "n \<le> Suc (length cs)" by simp_all
    have "length (drop (n - 1) cs) < length s" using Cons by simp
    from less.hyps [OF this vt]
    have IH: "string_literal (appendString_chars (drop (n - 1) cs) @ dquote # rest)
                = Some (drop (n - 1) cs, rest)" .
    have whole: "take n (c # cs) @ drop (n - 1) cs = c # cs"
      using n by (cases n) simp_all
    show ?thesis
    proof (cases "byte c < 0x80")
      case True
      with d have "n = 1" by simp
      with IH have IH': "string_literal (appendString_chars cs @ dquote # rest) = Some (cs, rest)"
        by simp
      have "appendString_chars (c # cs) = escape_ascii c @ appendString_chars cs"
        using True by simp
      then have "string_literal (appendString_chars s @ dquote # rest)
          = string_literal (escape_ascii c @ (appendString_chars cs @ dquote # rest))"
        by (simp only: Cons append_assoc)
      also have "\<dots> = emit [c] (string_literal (appendString_chars cs @ dquote # rest))"
        by (rule string_literal_escape_ascii [OF True])
      also have "\<dots> = Some (c # cs, rest)"
        by (simp only: IH' emit_Some append.simps)
      finally show ?thesis by (simp only: Cons)
    next
      case False
      then have hi: "0x80 \<le> byte c" by simp
      have enc: "EncodeRune r = take n (c # cs)"
        by (rule EncodeRune_DecodeRune [OF d v])
      show ?thesis
      proof (cases "r = 0x2028 \<or> r = 0x2029")
        case True
        have "appendString_chars (c # cs) =
            [bslash, CHR ''u'', CHR ''2'', CHR ''0'', CHR ''2'', hex_digit (r mod 16)]
              @ appendString_chars (drop (n - 1) cs)"
          using False d v True by auto
        then have "string_literal (appendString_chars s @ dquote # rest)
            = string_literal (bslash # CHR ''u'' # CHR ''2'' # CHR ''0'' # CHR ''2'' # hex_digit (r mod 16)
                # (appendString_chars (drop (n - 1) cs) @ dquote # rest))"
          by (simp only: Cons append.simps append_assoc)
        also have "\<dots> = emit (EncodeRune r)
              (string_literal (appendString_chars (drop (n - 1) cs) @ dquote # rest))"
          by (rule string_literal_u202 [OF True])
        also have "\<dots> = Some (c # cs, rest)"
          by (simp only: IH emit_Some enc whole)
        finally show ?thesis by (simp only: Cons)
      next
        case nsep: False
        have tk: "take n (c # cs) = c # take (n - 1) cs"
          using n by (cases n) simp_all
        have "appendString_chars (c # cs) = take n (c # cs) @ appendString_chars (drop (n - 1) cs)"
          using False d v nsep by auto
        then have "string_literal (appendString_chars s @ dquote # rest)
            = string_literal (c # (take (n - 1) cs @ appendString_chars (drop (n - 1) cs) @ dquote # rest))"
          by (simp only: Cons tk append.simps append_assoc)
        also have "\<dots> = (case DecodeRune (c # (take (n - 1) cs @ appendString_chars (drop (n - 1) cs) @ dquote # rest)) of
              (r, n') \<Rightarrow> emit (EncodeRune r)
                (string_literal (drop (n' - 1) (take (n - 1) cs @ appendString_chars (drop (n - 1) cs) @ dquote # rest))))"
          by (rule string_literal_multibyte [OF hi])
        also have "DecodeRune (c # (take (n - 1) cs @ appendString_chars (drop (n - 1) cs) @ dquote # rest)) = (r, n)"
          using DecodeRune_prefix [OF d v, of "appendString_chars (drop (n - 1) cs) @ dquote # rest"]
          by (simp only: tk append.simps)
        also have "(case (r, n) of
              (r, n') \<Rightarrow> emit (EncodeRune r)
                (string_literal (drop (n' - 1) (take (n - 1) cs @ appendString_chars (drop (n - 1) cs) @ dquote # rest))))
            = emit (EncodeRune r) (string_literal (appendString_chars (drop (n - 1) cs) @ dquote # rest))"
          using n by simp
        also have "\<dots> = Some (c # cs, rest)"
          by (simp only: IH emit_Some enc whole)
        finally show ?thesis by (simp only: Cons)
      qed
    qed
  qed
qed

declare nat_digits.simps [simp del]

subsection \<open>An integer written in decimal reads back\<close>

lemma byte_digit_char:
  assumes "n < 10"
  shows "byte (digit_char n) = 0x30 + n"
proof -
  have "list_all (\<lambda>k. byte (digit_char k) = 0x30 + k) [0..<10]"
    by (simp add: upt_conv_Cons digit_char_def byte_def)
  with assms show ?thesis by (simp add: list_all_iff)
qed

lemma is_digit_digit_char: "n < 10 \<Longrightarrow> is_digit (digit_char n)"
  by (simp add: is_digit_def byte_digit_char)

lemma nat_digits_all: "list_all is_digit (nat_digits n)"
proof (induction n rule: nat_digits.induct)
  case (1 n)
  show ?case
  proof (cases "n < 10")
    case True
    then show ?thesis by (subst nat_digits.simps) (simp add: is_digit_digit_char)
  next
    case False
    with 1 show ?thesis by (subst nat_digits.simps) (simp add: is_digit_digit_char)
  qed
qed

lemma digits_value_snoc: "digits_value (ds @ [c]) = digits_value ds * 10 + (byte c - 0x30)"
  by (simp add: digits_value_def)

lemma digits_value_nat_digits: "digits_value (nat_digits n) = n"
proof (induction n rule: nat_digits.induct)
  case (1 n)
  show ?case
  proof (cases "n < 10")
    case True
    then show ?thesis
      by (subst nat_digits.simps) (simp add: digits_value_def byte_digit_char)
  next
    case False
    with 1 have "digits_value (nat_digits (n div 10)) = n div 10" by simp
    with False show ?thesis
      by (subst nat_digits.simps) (simp add: digits_value_snoc byte_digit_char)
  qed
qed

lemma nat_digits_shape:
  "\<exists>d ds. nat_digits n = d # ds \<and> is_digit d \<and> list_all is_digit ds \<and> (d = CHR ''0'' \<longrightarrow> ds = [])"
proof (induction n rule: nat_digits.induct)
  case (1 n)
  show ?case
  proof (cases "n < 10")
    case True
    then show ?thesis by (subst nat_digits.simps) (simp add: is_digit_digit_char)
  next
    case False
    with 1 obtain d ds where s: "nat_digits (n div 10) = d # ds" "is_digit d" "list_all is_digit ds"
      "d = CHR ''0'' \<longrightarrow> ds = []" by auto
    have "d \<noteq> CHR ''0''"
    proof
      assume "d = CHR ''0''"
      with s have "nat_digits (n div 10) = ''0''" by simp
      then have "digits_value (nat_digits (n div 10)) = 0" by (simp add: digits_value_def byte_def)
      then have "n div 10 = 0" by (simp only: digits_value_nat_digits)
      with False show False by simp
    qed
    with False s show ?thesis
      by (subst nat_digits.simps) (simp add: is_digit_digit_char)
  qed
qed

lemma is_digit_not_minus: "is_digit d \<Longrightarrow> d \<noteq> CHR ''-''"
  by (auto simp: is_digit_def byte_def)

lemma number_literal_plain:
  assumes "is_digit d" "list_all is_digit ds" "d = CHR ''0'' \<longrightarrow> ds = []"
    and "\<not> is_digit c" "c \<noteq> CHR ''.''" "c \<noteq> CHR ''e''" "c \<noteq> CHR ''E''"
  shows "number_literal (d # ds @ c # rest) = Some (d # ds, c # rest)"
proof -
  have t: "takeWhile is_digit (ds @ c # rest) = ds" "dropWhile is_digit (ds @ c # rest) = c # rest"
    using assms(2,4) by (simp_all add: takeWhile_append2 dropWhile_append2 list_all_iff)
  show ?thesis
  proof (cases "d = CHR ''0''")
    case True
    with assms show ?thesis
      by (simp add: number_literal_def is_digit_not_minus)
  next
    case False
    with assms t show ?thesis
      by (simp add: number_literal_def is_digit_not_minus)
  qed
qed

lemma number_literal_minus:
  assumes "is_digit d" "list_all is_digit ds" "d = CHR ''0'' \<longrightarrow> ds = []"
    and "\<not> is_digit c" "c \<noteq> CHR ''.''" "c \<noteq> CHR ''e''" "c \<noteq> CHR ''E''"
  shows "number_literal (CHR ''-'' # d # ds @ c # rest) = Some (CHR ''-'' # d # ds, c # rest)"
proof -
  have t: "takeWhile is_digit (ds @ c # rest) = ds" "dropWhile is_digit (ds @ c # rest) = c # rest"
    using assms(2,4) by (simp_all add: takeWhile_append2 dropWhile_append2 list_all_iff)
  show ?thesis
  proof (cases "d = CHR ''0''")
    case True
    with assms show ?thesis
      by (simp add: number_literal_def)
  next
    case False
    with assms t show ?thesis
      by (simp add: number_literal_def)
  qed
qed

lemma number_literal_Sprintf_d:
  assumes "\<not> is_digit c" "c \<noteq> CHR ''.''" "c \<noteq> CHR ''e''" "c \<noteq> CHR ''E''"
  shows "number_literal (Sprintf_d k @ c # rest) = Some (Sprintf_d k, c # rest)"
proof (cases "k < 0")
  case True
  from nat_digits_shape [of "nat (- k)"] obtain d ds where
    s: "nat_digits (nat (- k)) = d # ds" "is_digit d" "list_all is_digit ds" "d = CHR ''0'' \<longrightarrow> ds = []"
    by auto
  from number_literal_minus [OF s(2,3,4) assms, of rest] True s(1) show ?thesis
    by (simp add: Sprintf_d_def)
next
  case False
  from nat_digits_shape [of "nat k"] obtain d ds where
    s: "nat_digits (nat k) = d # ds" "is_digit d" "list_all is_digit ds" "d = CHR ''0'' \<longrightarrow> ds = []"
    by auto
  from number_literal_plain [OF s(2,3,4) assms, of rest] False s(1) show ?thesis
    by (simp add: Sprintf_d_def)
qed

lemma nat_digits_not_Nil: "nat_digits n \<noteq> []"
  using nat_digits_shape [of n] by auto

lemma nat_digits_no_sign: "hd (nat_digits n) \<noteq> CHR ''-'' \<and> hd (nat_digits n) \<noteq> CHR ''+''"
  using nat_digits_shape [of n] by (auto simp: is_digit_def byte_def)

lemma ParseInt64_Sprintf_d: "ParseInt64 (Sprintf_d (sint w)) = Some (w :: 64 word)"
proof -
  have range: "- 9223372036854775808 \<le> sint w" "sint w \<le> 9223372036854775807"
    using sint_Duration_range [of w] by simp_all
  show ?thesis
  proof (cases "sint w < 0")
    case True
    have "ParseInt64 (CHR ''-'' # nat_digits (nat (- sint w))) = Some (word_of_int (- int (nat (- sint w))))"
      using range True
      by (simp add: ParseInt64_def nat_digits_not_Nil nat_digits_all digits_value_nat_digits)
    with True show ?thesis by (simp add: Sprintf_d_def)
  next
    case False
    obtain d ds where s: "nat_digits (nat (sint w)) = d # ds" "d \<noteq> CHR ''-''" "d \<noteq> CHR ''+''"
      using nat_digits_no_sign [of "nat (sint w)"] nat_digits_not_Nil [of "nat (sint w)"]
      by (cases "nat_digits (nat (sint w))") auto
    have "list_all is_digit (d # ds)" "digits_value (d # ds) = nat (sint w)"
      using nat_digits_all [of "nat (sint w)"] digits_value_nat_digits [of "nat (sint w)"]
      by (simp_all only: s(1))
    then have "ParseInt64 (d # ds) = Some (word_of_int (int (nat (sint w))))"
      using range False s(2,3)
      by (simp add: ParseInt64_def)
    with False s(1) show ?thesis by (simp add: Sprintf_d_def)
  qed
qed

declare json_value.simps [simp del]

declare json_members.simps [simp del]

subsection \<open>The text of a configuration parses to its JSON value\<close>

lemma dropWhile_space:
  "list_all is_space ws \<Longrightarrow> \<not> is_space c \<Longrightarrow> dropWhile is_space (ws @ c # rest) = c # rest"
  by (induction ws) simp_all

lemma dropWhile_nonspace: "\<not> is_space c \<Longrightarrow> dropWhile is_space (c # rest) = c # rest"
  by simp

lemma space_indent: "list_all is_space (indent n)"
  by (simp add: indent_def newline_def is_space_def byte_def list_all_iff)

lemma json_value_space: "list_all is_space ws \<Longrightarrow> json_value d (ws @ s) = json_value d s"
proof -
  assume "list_all is_space ws"
  then have "dropWhile is_space (ws @ s) = dropWhile is_space s"
    by (induction ws) simp_all
  then show ?thesis by (simp add: json_value.simps [of d "ws @ s"] json_value.simps [of d s])
qed

lemma tagged_Some [simp]: "tagged f (Some (x, rest)) = Some (f x, rest)"
  by (simp add: tagged_def)

lemma tagged_None [simp]: "tagged f None = None"
  by (simp add: tagged_def)

lemma not_space [simp]:
  "\<not> is_space dquote" "\<not> is_space (CHR '':'')" "\<not> is_space (CHR '','')" "\<not> is_space (CHR ''}'')"
  "\<not> is_space (CHR ''{'')" "\<not> is_space (CHR ''t'')" "\<not> is_space (CHR ''f'')" "\<not> is_space (CHR ''n'')"
  "\<not> is_space (CHR ''-'')"
  by (simp_all add: is_space_def byte_def dquote_def)

lemma json_value_string:
  assumes "ValidString s"
  shows "json_value d (appendString s @ rest) = Some (JString s, rest)"
proof -
  have "dquote \<noteq> CHR ''{''" "dquote \<noteq> CHR ''[''" by (simp_all add: dquote_def)
  with string_literal_appendString_chars [OF assms, of rest] show ?thesis
    by (subst json_value.simps) (simp add: appendString_def)
qed

lemma json_value_bool: "json_value d (bool_text b @ rest) = Some (JBool b, rest)"
  by (subst json_value.simps) (simp add: bool_text_def dquote_def)

lemma json_value_null: "json_value d (''null'' @ rest) = Some (JNull, rest)"
  by (subst json_value.simps) (simp add: dquote_def)

lemma Sprintf_d_shape: "\<exists>c r. Sprintf_d k = c # r \<and> (c = CHR ''-'' \<or> is_digit c)"
  using nat_digits_shape [of "nat k"] by (auto simp: Sprintf_d_def)

lemma digit_facts:
  assumes "c = CHR ''-'' \<or> is_digit c"
  shows "\<not> is_space c" "c \<noteq> CHR ''{''" "c \<noteq> CHR ''[''" "c \<noteq> dquote"
    "c \<noteq> CHR ''t''" "c \<noteq> CHR ''f''" "c \<noteq> CHR ''n''"
  using assms by (auto simp: is_digit_def is_space_def byte_def dquote_def)

lemma json_value_number:
  assumes "\<not> is_digit c" "c \<noteq> CHR ''.''" "c \<noteq> CHR ''e''" "c \<noteq> CHR ''E''"
  shows "json_value d (Sprintf_d k @ c # rest) = Some (JNumber (Sprintf_d k), c # rest)"
proof -
  from Sprintf_d_shape [of k] obtain a r where s: "Sprintf_d k = a # r" "a = CHR ''-'' \<or> is_digit a"
    by blast
  have n: "number_literal (a # r @ c # rest) = Some (a # r, c # rest)"
    using number_literal_Sprintf_d [OF assms, of k rest] s(1) by simp
  show ?thesis
    using digit_facts [OF s(2)] n
    by (subst json_value.simps) (simp add: s(1))
qed

lemma json_members_mono:
  "json_members d k s = Some x \<Longrightarrow> json_members d (k + j) s = Some x"
proof (induction k arbitrary: s x)
  case 0
  then show ?case by (simp add: json_members.simps)
next
  case (Suc k)
  from Suc.prems show ?case
    by (auto simp: json_members.simps(2) [of d] tagged_def Suc.IH
        simp del: dropWhile_eq_Nil_conv
        split: list.splits option.splits if_splits prod.splits)
qed

lemma json_value_space1: "json_value d (CHR 0x20 # s) = json_value d s"
  using json_value_space [of "[CHR 0x20]" d s] by (simp add: is_space_def byte_def)

lemma colon_neq_dquote: "CHR '':'' \<noteq> dquote" "dquote \<noteq> CHR ''}''" "dquote \<noteq> CHR '',''"
  by (simp_all add: dquote_def)

lemma quoted_as_valid: "ValidString s \<Longrightarrow> quoted_as s s"
  by (simp add: quoted_as_def string_literal_appendString_chars)

lemma quoted_asD:
  "quoted_as key key' \<Longrightarrow> string_literal (appendString_chars key @ dquote # rest) = Some (key', rest)"
  by (simp add: quoted_as_def)

lemma json_member_last:
  assumes "quoted_as key key'" "list_all is_space ws0" "list_all is_space ws"
    "json_value d (vtext @ ws @ CHR ''}'' # rest) = Some (v, ws @ CHR ''}'' # rest)"
  shows "json_members d (Suc k) (ws0 @ field_text key vtext @ ws @ CHR ''}'' # rest) = Some ([(key', v)], rest)"
proof -
  have a: "dropWhile is_space (ws0 @ field_text key vtext @ ws @ CHR ''}'' # rest)
           = dquote # appendString_chars key @ dquote # CHR '':'' # CHR 0x20 # vtext @ ws @ CHR ''}'' # rest"
    using dropWhile_space [OF assms(2), of dquote] by (simp add: field_text_def appendString_def)
  have b: "dropWhile is_space (ws @ CHR ''}'' # rest) = CHR ''}'' # rest"
    using dropWhile_space [OF assms(3)] by simp
  show ?thesis
    by (subst json_members.simps)
      (simp add: a b quoted_asD [OF assms(1)] json_value_space1 assms(4))
qed

lemma json_member_more:
  assumes "quoted_as key key'" "list_all is_space ws0"
    "json_value d (vtext @ CHR '','' # tl_text) = Some (v, CHR '','' # tl_text)"
    "json_members d k tl_text = Some (ms, rest)"
  shows "json_members d (Suc k) (ws0 @ field_text key vtext @ CHR '','' # tl_text) = Some ((key', v) # ms, rest)"
proof -
  have a: "dropWhile is_space (ws0 @ field_text key vtext @ CHR '','' # tl_text)
           = dquote # appendString_chars key @ dquote # CHR '':'' # CHR 0x20 # vtext @ CHR '','' # tl_text"
    using dropWhile_space [OF assms(2), of dquote] by (simp add: field_text_def appendString_def)
  show ?thesis
    by (subst json_members.simps)
      (simp add: a quoted_asD [OF assms(1)] json_value_space1 assms(3,4))
qed

lemma json_value_object:
  assumes "json_members d k r = Some (ms, rest)" "k \<le> length r"
  shows "json_value (Suc d) (CHR ''{'' # r) = Some (JObject ms, rest)"
proof -
  from assms(1) obtain k' where k: "k = Suc k'" by (cases k) (simp_all add: json_members.simps)
  from assms(1) obtain r' where r: "dropWhile is_space r = dquote # r'"
    unfolding k json_members.simps(2) [of d]
    by (auto split: list.splits if_splits simp del: dropWhile_eq_Nil_conv)
  from json_members_mono [OF assms(1), of "length r - k"] assms(2)
  have m: "json_members d (length r) r = Some (ms, rest)" by simp
  show ?thesis by (subst json_value.simps) (simp add: r m colon_neq_dquote)
qed

lemma ValidString_ascii: "list_all (\<lambda>c. byte c < 0x80) s \<Longrightarrow> ValidString s"
  by (induction s) (simp_all add: RuneError_def)

lemma field_names_valid:
  "ValidString ''member_audit_channel_id''" "ValidString ''unverified_role_id''"
  "ValidString ''rate_limit_enabled''" "ValidString ''rate_limit_duration''" "ValidString ''servers''"
  by (rule ValidString_ascii, simp add: byte_def)+

lemma field_names_quoted:
  "quoted_as ''member_audit_channel_id'' ''member_audit_channel_id''"
  "quoted_as ''unverified_role_id'' ''unverified_role_id''"
  "quoted_as ''rate_limit_enabled'' ''rate_limit_enabled''"
  "quoted_as ''rate_limit_duration'' ''rate_limit_duration''"
  "quoted_as ''servers'' ''servers''"
  by (rule quoted_as_valid, rule field_names_valid)+

lemma newline_facts:
  "\<not> is_digit newline" "newline \<noteq> CHR ''.''" "newline \<noteq> CHR ''e''" "newline \<noteq> CHR ''E''"
  by (simp_all add: newline_def is_digit_def byte_def)

lemma json_members_ServerConfig:
  assumes "ValidString (MemberAuditChannelID sc)" "ValidString (UnverifiedRoleID sc)"
  shows "json_members d 4
           (indent (n + 1) @ field_text ''member_audit_channel_id'' (appendString (MemberAuditChannelID sc)) @ '',''
            @ indent (n + 1) @ field_text ''unverified_role_id'' (appendString (UnverifiedRoleID sc)) @ '',''
            @ indent (n + 1) @ field_text ''rate_limit_enabled'' (bool_text (RateLimitEnabled sc)) @ '',''
            @ indent (n + 1) @ field_text ''rate_limit_duration'' (Sprintf_d (sint (RateLimitDuration sc)))
            @ indent n @ CHR ''}'' # rest)
         = Some ([(''member_audit_channel_id'', JString (MemberAuditChannelID sc)),
                  (''unverified_role_id'', JString (UnverifiedRoleID sc)),
                  (''rate_limit_enabled'', JBool (RateLimitEnabled sc)),
                  (''rate_limit_duration'', JNumber (Sprintf_d (sint (RateLimitDuration sc))))], rest)"
proof -
  have v4: "json_value d (Sprintf_d (sint (RateLimitDuration sc)) @ indent n @ CHR ''}'' # rest)
            = Some (JNumber (Sprintf_d (sint (RateLimitDuration sc))), indent n @ CHR ''}'' # rest)"
    using json_value_number [OF newline_facts] by (simp add: indent_def)
  have m4: "json_members d (Suc 0)
              (indent (n + 1) @ field_text ''rate_limit_duration'' (Sprintf_d (sint (RateLimitDuration sc)))
               @ indent n @ CHR ''}'' # rest)
            = Some ([(''rate_limit_duration'', JNumber (Sprintf_d (sint (RateLimitDuration sc))))], rest)"
    by (rule json_member_last [OF field_names_quoted(4) space_indent space_indent v4])
  have m3: "json_members d (Suc (Suc 0))
              (indent (n + 1) @ field_text ''rate_limit_enabled'' (bool_text (RateLimitEnabled sc)) @ CHR '','' #
               indent (n + 1) @ field_text ''rate_limit_duration'' (Sprintf_d (sint (RateLimitDuration sc)))
               @ indent n @ CHR ''}'' # rest)
            = Some ([(''rate_limit_enabled'', JBool (RateLimitEnabled sc)),
                     (''rate_limit_duration'', JNumber (Sprintf_d (sint (RateLimitDuration sc))))], rest)"
    by (rule json_member_more [OF field_names_quoted(3) space_indent json_value_bool m4])
  have m2: "json_members d (Suc (Suc (Suc 0)))
              (indent (n + 1) @ field_text ''unverified_role_id'' (appendString (UnverifiedRoleID sc)) @ CHR '','' #
               indent (n + 1) @ field_text ''rate_limit_enabled'' (bool_text (RateLimitEnabled sc)) @ CHR '','' #
               indent (n + 1) @ field_text ''rate_limit_duration'' (Sprintf_d (sint (RateLimitDuration sc)))
               @ indent n @ CHR ''}'' # rest)
            = Some ([(''unverified_role_id'', JString (UnverifiedRoleID sc)),
                     (''rate_limit_enabled'', JBool (RateLimitEnabled sc)),
                     (''rate_limit_duration'', JNumber (Sprintf_d (sint (RateLimitDuration sc))))], rest)"
    by (rule json_member_more [OF field_names_quoted(2) space_indent json_value_string [OF assms(2)] m3])
  have m1: "json_members d (Suc (Suc (Suc (Suc 0))))
              (indent (n + 1) @ field_text ''member_audit_channel_id'' (appendString (MemberAuditChannelID sc)) @ CHR '','' #
               indent (n + 1) @ field_text ''unverified_role_id'' (appendString (UnverifiedRoleID sc)) @ CHR '','' #
               indent (n + 1) @ field_text ''rate_limit_enabled'' (bool_text (RateLimitEnabled sc)) @ CHR '','' #
               indent (n + 1) @ field_text ''rate_limit_duration'' (Sprintf_d (sint (RateLimitDuration sc)))
               @ indent n @ CHR ''}'' # rest)
            = Some ([(''member_audit_channel_id'', JString (MemberAuditChannelID sc)),
                     (''unverified_role_id'', JString (UnverifiedRoleID sc)),
                     (''rate_limit_enabled'', JBool (RateLimitEnabled sc)),
                     (''rate_limit_duration'', JNumber (Sprintf_d (sint (RateLimitDuration sc))))], rest)"
    by (rule json_member_more [OF field_names_quoted(1) space_indent json_value_string [OF assms(1)] m2])
  have four: "(4 :: nat) = Suc (Suc (Suc (Suc 0)))" by simp
  show ?thesis unfolding four using m1 by simp
qed

lemma json_value_ServerConfig:
  assumes "ValidString (MemberAuditChannelID sc)" "ValidString (UnverifiedRoleID sc)"
  shows "json_value (Suc d) (ServerConfig_text n sc @ rest) = Some (ServerConfig_json sc, rest)"
proof -
  have "json_value (Suc d) (CHR ''{'' #
           (indent (n + 1) @ field_text ''member_audit_channel_id'' (appendString (MemberAuditChannelID sc)) @ '',''
            @ indent (n + 1) @ field_text ''unverified_role_id'' (appendString (UnverifiedRoleID sc)) @ '',''
            @ indent (n + 1) @ field_text ''rate_limit_enabled'' (bool_text (RateLimitEnabled sc)) @ '',''
            @ indent (n + 1) @ field_text ''rate_limit_duration'' (Sprintf_d (sint (RateLimitDuration sc)))
            @ indent n @ CHR ''}'' # rest)) = Some (ServerConfig_json sc, rest)"
    unfolding ServerConfig_json_def
    by (rule json_value_object [OF json_members_ServerConfig [OF assms]]) (simp add: indent_def)
  then show ?thesis by (simp add: ServerConfig_text_def)
qed

lemma length_entries_text: "length es \<le> length (entries_text n es)"
  by (induction n es rule: entries_text.induct) (simp_all add: indent_def)

lemma json_members_entries:
  assumes "quoted_entries q es" "es \<noteq> []"
  shows "json_members (Suc d) (length es) (entries_text n es @ indent i @ CHR ''}'' # rest)
         = Some (entries_json q es, rest)"
  using assms
proof (induction n es rule: entries_text.induct)
  case (1 n)
  then show ?case by simp
next
  case (2 n k sc)
  then have v: "quoted_as k (q k)" "ValidString (MemberAuditChannelID sc)" "ValidString (UnverifiedRoleID sc)"
    by (simp_all add: valid_ServerConfig_def quoted_entries_def)
  have "json_members (Suc d) (Suc 0) (indent n @ field_text k (ServerConfig_text n sc) @ indent i @ CHR ''}'' # rest)
        = Some ([(q k, ServerConfig_json sc)], rest)"
    by (rule json_member_last [OF v(1) space_indent space_indent json_value_ServerConfig [OF v(2,3)]])
  then show ?case by (simp add: entries_json_def)
next
  case (3 n k sc e es)
  then have v: "quoted_as k (q k)" "ValidString (MemberAuditChannelID sc)" "ValidString (UnverifiedRoleID sc)"
    by (simp_all add: valid_ServerConfig_def quoted_entries_def)
  from 3 have r: "json_members (Suc d) (length (e # es)) (entries_text n (e # es) @ indent i @ CHR ''}'' # rest)
        = Some (entries_json q (e # es), rest)"
    by (simp add: quoted_entries_def)
  have "json_members (Suc d) (Suc (length (e # es)))
          (indent n @ field_text k (ServerConfig_text n sc) @ CHR '','' #
             (entries_text n (e # es) @ indent i @ CHR ''}'' # rest))
        = Some ((q k, ServerConfig_json sc) # entries_json q (e # es), rest)"
    by (rule json_member_more [OF v(1) space_indent json_value_ServerConfig [OF v(2,3)] r])
  then show ?case by (simp add: entries_json_def)
qed

lemma valid_quoted_Config:
  assumes "valid_Config config"
  shows "quoted_Config (\<lambda>k. k) config"
proof (cases "Servers config")
  case None
  then show ?thesis by (simp add: quoted_Config_def)
next
  case (Some m)
  with assms have "finite (dom m)" "\<forall>k \<in> dom m. ValidString k \<and> valid_ServerConfig (the (m k))"
    by (simp_all add: valid_Config_def)
  then have "quoted_entries (\<lambda>k. k) (map_entries m)"
    by (simp add: quoted_entries_def map_entries_def list_all_iff quoted_as_valid)
  with Some show ?thesis by (simp add: quoted_Config_def)
qed

lemma Servers_json_as_id: "Servers_json_as (\<lambda>k. k) servers = Servers_json servers"
  by (simp add: Servers_json_as_def Servers_json_def entries_json_def split: option.splits)

lemma json_value_Servers:
  assumes "quoted_Config q config"
  shows "json_value (Suc (Suc d)) (Servers_text n (Servers config) @ rest)
         = Some (Servers_json_as q (Servers config), rest)"
proof (cases "Servers config")
  case None
  then show ?thesis using json_value_null by (simp add: Servers_text_def Servers_json_as_def)
next
  case (Some m)
  show ?thesis
  proof (cases "map_entries m = []")
    case True
    have "json_value (Suc (Suc d)) (CHR ''{'' # CHR ''}'' # rest) = Some (JObject [], rest)"
      by (subst json_value.simps) simp
    with True Some show ?thesis by (simp add: Servers_text_def Servers_json_as_def entries_json_def)
  next
    case False
    from assms Some have "quoted_entries q (map_entries m)"
      by (simp add: quoted_Config_def)
    from json_members_entries [OF this False, of d "n + 1" n rest]
    have "json_value (Suc (Suc d)) (CHR ''{'' # (entries_text (n + 1) (map_entries m) @ indent n @ CHR ''}'' # rest))
          = Some (JObject (entries_json q (map_entries m)), rest)"
      by (rule json_value_object) (use length_entries_text [of "map_entries m" "n + 1"] in simp)
    with False Some show ?thesis by (simp add: Servers_text_def Servers_json_as_def)
  qed
qed

lemma json_value_Config:
  assumes "quoted_Config q config"
  shows "json_value (Suc (Suc (Suc d))) (Config_text config @ rest)
         = Some (JObject [(''servers'', Servers_json_as q (Servers config))], rest)"
proof -
  have "json_members (Suc (Suc d)) (Suc 0)
          (indent 1 @ field_text ''servers'' (Servers_text 1 (Servers config)) @ indent 0 @ CHR ''}'' # rest)
        = Some ([(''servers'', Servers_json_as q (Servers config))], rest)"
    by (rule json_member_last [OF field_names_quoted(5) space_indent space_indent json_value_Servers [OF assms]])
  then have "json_value (Suc (Suc (Suc d)))
          (CHR ''{'' # (indent 1 @ field_text ''servers'' (Servers_text 1 (Servers config)) @ indent 0 @ CHR ''}'' # rest))
        = Some (JObject [(''servers'', Servers_json_as q (Servers config))], rest)"
    by (rule json_value_object) (simp add: indent_def)
  then show ?thesis by (simp add: Config_text_def)
qed

lemma parse_json_Config_text_as:
  assumes "quoted_Config q config"
  shows "parse_json (Config_text config) = Some (JObject [(''servers'', Servers_json_as q (Servers config))])"
proof -
  have n: "(10000 :: nat) = Suc (Suc (Suc 9997))" by simp
  have "json_value 10000 (Config_text config) = Some (JObject [(''servers'', Servers_json_as q (Servers config))], [])"
    unfolding n using json_value_Config [OF assms, of 9997 "[]"] by simp
  then show ?thesis
    unfolding parse_json_def by simp
qed

lemma parse_json_Config_text:
  assumes "valid_Config config"
  shows "parse_json (Config_text config) = Some (Config_json config)"
  using parse_json_Config_text_as [OF valid_quoted_Config [OF assms]]
  by (simp add: Servers_json_as_id Config_json_def)

subsection \<open>The JSON value of a configuration decodes to the configuration\<close>

lemma decode_ServerConfig_json: "decode_ServerConfig (ServerConfig_json sc) old = (None, sc)"
  by (simp add: decode_ServerConfig_def ServerConfig_json_def decode_struct_def find_field_def
      ServerConfig_store_def decode_string_def decode_bool_def decode_Duration_def
      ParseInt64_Sprintf_d first_error_def)

lemma decode_entry_json:
  "decode_entry (None, M) (k, ServerConfig_json sc) = (None, M(k \<mapsto> sc))"
  by (simp add: decode_entry_def decode_ServerConfig_json first_error_def)

lemma decode_entries:
  "foldl decode_entry (None, M) (map (\<lambda>(k, sc). (k, ServerConfig_json sc)) es)
   = (None, M ++ map_of (rev es))"
proof (induction es arbitrary: M)
  case Nil
  then show ?case by simp
next
  case (Cons entry es)
  obtain k sc where entry: "entry = (k, sc)" by (cases entry)
  have "foldl decode_entry (None, M) (map (\<lambda>(k, sc). (k, ServerConfig_json sc)) (entry # es))
        = foldl decode_entry (None, M(k \<mapsto> sc)) (map (\<lambda>(k, sc). (k, ServerConfig_json sc)) es)"
    unfolding entry by (simp add: decode_entry_json)
  also have "\<dots> = (None, M(k \<mapsto> sc) ++ map_of (rev es))"
    by (rule Cons.IH)
  also have "\<dots> = (None, M ++ map_of (rev (entry # es)))"
    unfolding entry by simp
  finally show ?case .
qed

lemma map_of_map_entries:
  assumes "finite (dom m)"
  shows "map_of (rev (map_entries m)) = m"
proof
  fix k
  show "map_of (rev (map_entries m)) k = m k"
  proof (cases "m k")
    case None
    then have "k \<notin> fst ` set (rev (map_entries m))"
      using assms by (auto simp: map_entries_def)
    then show ?thesis using None by (simp add: map_of_eq_None_iff)
  next
    case (Some v)
    have d: "distinct (map fst (rev (map_entries m)))"
      by (simp add: map_entries_def rev_map [symmetric] comp_def)
    have "(k, v) \<in> set (rev (map_entries m))"
      using assms Some by (auto simp: map_entries_def image_iff intro!: bexI [of _ k])
    with d show ?thesis using Some by simp
  qed
qed

lemma decode_Servers_json:
  assumes "valid_Config config"
  shows "decode_Servers (Servers_json (Servers config)) None = (None, Servers config)"
proof (cases "Servers config")
  case None
  then show ?thesis by (simp add: decode_Servers_def Servers_json_def)
next
  case (Some m)
  with assms have "finite (dom m)" by (simp add: valid_Config_def)
  then show ?thesis
    using Some by (simp add: decode_Servers_def Servers_json_def decode_entries map_of_map_entries)
qed

lemma decode_Config_json:
  assumes "valid_Config config"
  shows "decode_Config (Config_json config) \<lparr>Servers = None\<rparr> = (None, config)"
  by (simp add: decode_Config_def Config_json_def decode_struct_def find_field_def Config_store_def
      decode_Servers_json [OF assms] first_error_def)

lemma Unmarshal_MarshalIndent:
  assumes "valid_Config config"
  shows "json_Unmarshal (Config_text config) \<lparr>Servers = None\<rparr> = (None, config)"
  by (simp add: json_Unmarshal_def parse_json_Config_text [OF assms] decode_Config_json [OF assms])

subsection \<open>Saving and loading\<close>

lemma map_entries_single: "map_entries [k \<mapsto> v] = [(k, v)]"
  by (simp add: map_entries_def)

lemma getu4_fffd: "getu4 (CHR ''f'' # CHR ''f'' # CHR ''f'' # CHR ''d'' # X) = Some 0xFFFD"
  by (simp add: getu4_def hex_value_def byte_def)

lemma appendString_chars_invalid: "appendString_chars [CHR 0xFF] = [bslash, CHR ''u'', CHR ''f'', CHR ''f'', CHR ''f'', CHR ''d'']"
proof -
  have b: "byte (CHR 0xFF) = 0xFF" by (simp add: byte_def)
  have "DecodeRune [CHR 0xFF] = (RuneError, 1)"
    by (rule DecodeRune_invalid_lead) (simp add: b)
  then show ?thesis by (simp add: b)
qed

lemma EncodeRune_RuneError: "EncodeRune 0xFFFD = [CHR 0xEF, CHR 0xBF, CHR 0xBD]"
proof -
  have "char_of (239 :: nat) = CHR 0xEF" "char_of (191 :: nat) = CHR 0xBF" "char_of (189 :: nat) = CHR 0xBD"
    by (rule char_of_byte, simp add: byte_def)+
  then show ?thesis by (simp add: EncodeRune_def)
qed

lemma quoted_as_invalid: "quoted_as [CHR 0xFF] [CHR 0xEF, CHR 0xBF, CHR 0xBD]"
proof -
  have "string_literal (bslash # CHR ''u'' # CHR ''f'' # CHR ''f'' # CHR ''f'' # CHR ''d'' # dquote # rest)
        = Some ([CHR 0xEF, CHR 0xBF, CHR 0xBD], rest)" for rest
    by (simp add: getu4_fffd not_u EncodeRune_RuneError emit_def)
  then show ?thesis
    unfolding quoted_as_def appendString_chars_invalid by (simp only: append.simps simp_thms)
qed

lemma valid_zero_ServerConfig: "valid_ServerConfig zero_ServerConfig"
  by (simp add: valid_ServerConfig_def zero_ServerConfig_def)

lemma valid_replaced_key_config: "valid_Config replaced_key_config"
proof -
  have "ValidString [CHR 0xEF, CHR 0xBF, CHR 0xBD]"
    by (simp add: byte_def RuneError_def continuation_def)
  then show ?thesis
    by (simp add: valid_Config_def replaced_key_config_def valid_zero_ServerConfig)
qed

lemma Unmarshal_invalid_key:
  "json_Unmarshal (Config_text invalid_key_config) \<lparr>Servers = None\<rparr> = (None, replaced_key_config)"
proof -
  have "quoted_Config (\<lambda>k. [CHR 0xEF, CHR 0xBF, CHR 0xBD]) invalid_key_config"
    by (simp add: quoted_Config_def invalid_key_config_def map_entries_single quoted_entries_def
        quoted_as_invalid valid_zero_ServerConfig)
  from parse_json_Config_text_as [OF this]
  have "parse_json (Config_text invalid_key_config) = Some (Config_json replaced_key_config)"
    by (simp add: invalid_key_config_def replaced_key_config_def Config_json_def Servers_json_as_def
        Servers_json_def entries_json_def map_entries_single)
  then show ?thesis
    by (simp add: json_Unmarshal_def decode_Config_json [OF valid_replaced_key_config])
qed

lemma save_then_load:
  assumes "fst (saveConfig_part_001 encoding_json config disk) = None"
    and "read_error disk ''./data/config.json'' = None"
  shows "loadConfig_part_001 encoding_json (snd (saveConfig_part_001 encoding_json config disk)) fresh
         = json_Unmarshal (Config_text config) fresh"
    and "files (snd (saveConfig_part_001 encoding_json config disk)) ''./data/config.json'' = Some (Config_text config)"
  using assms
  by (auto simp: saveConfig_part_001_def loadConfig_part_001_def encoding_json_def json_MarshalIndent_def
      MkdirAll_def WriteFile_def ReadFile_def split: option.splits)

text \<open>
  Claim C8, for the configurations whose strings are valid UTF-8: when \<^verbatim>\<open>saveConfig\<close>
  returns no error and the file can be read, the file holds the pretty-printed JSON
  object of the configuration under the key \<^verbatim>\<open>servers\<close>, and \<^verbatim>\<open>loadConfig\<close> in a
  fresh process, where \<^verbatim>\<open>config\<close> is the zero \<^verbatim>\<open>Config\<close>, returns no error and leaves
  in \<^verbatim>\<open>config\<close> the configuration that was saved: the same guilds with the same
  two identifiers, the same rate-limit flag and the same rate-limit duration.
\<close>

theorem save_then_fresh_load_reproduces_config:
  assumes "valid_Config config"
    and "fst (saveConfig_part_001 encoding_json config disk) = None"
    and "read_error disk ''./data/config.json'' = None"
  shows "files (snd (saveConfig_part_001 encoding_json config disk)) ''./data/config.json''
           = Some (Config_text config)
       \<and> loadConfig_part_001 encoding_json (snd (saveConfig_part_001 encoding_json config disk))
           \<lparr>Servers = None\<rparr> = (None, config)"
  using save_then_load [OF assms(2,3)] Unmarshal_MarshalIndent [OF assms(1)] by simp

lemma save_on_empty_Disk: 
  "fst (saveConfig_part_001 encoding_json config empty_Disk) = None"
  "read_error empty_Disk ''./data/config.json'' = None"
  by (simp_all add: saveConfig_part_001_def encoding_json_def json_MarshalIndent_def
      MkdirAll_def WriteFile_def empty_Disk_def)

text \<open>
  Claim C8 as stated, for every configuration, fails: \<^verbatim>\<open>Marshal\<close> coerces a string
  to valid UTF-8. A configuration whose guild identifier is the byte \<^verbatim>\<open>0xFF\<close> is saved
  without error and loads, without error, as the configuration whose guild identifier
  is the replacement rune.
\<close>

theorem invalid_utf8_key_is_not_reproduced:
  "fst (saveConfig_part_001 encoding_json invalid_key_config empty_Disk) = None
   \<and> loadConfig_part_001 encoding_json (snd (saveConfig_part_001 encoding_json invalid_key_config empty_Disk))
        \<lparr>Servers = None\<rparr> = (None, replaced_key_config)
   \<and> replaced_key_config \<noteq> invalid_key_config"
proof -
  have "[[CHR 0xEF, CHR 0xBF, CHR 0xBD] \<mapsto> zero_ServerConfig] [CHR 0xFF] \<noteq> [[CHR 0xFF] \<mapsto> zero_ServerConfig] [CHR 0xFF]"
    by simp
  then have "[[CHR 0xEF, CHR 0xBF, CHR 0xBD] \<mapsto> zero_ServerConfig] \<noteq> [[CHR 0xFF] \<mapsto> zero_ServerConfig]"
    by metis
  then have "replaced_key_config \<noteq> invalid_key_config"
    by (simp add: replaced_key_config_def invalid_key_config_def)
  with save_then_load(1) [OF save_on_empty_Disk] Unmarshal_invalid_key save_on_empty_Disk(1)
  show ?thesis by simp
qed

text \<open>The theorem on the configuration of two guilds with the rate limit of five
  minutes, saved to the disk with no file.\<close>

theorem save_then_fresh_load_reproduces_config_witness:
  "valid_Config limited_config
   \<and> fst (saveConfig_part_001 encoding_json limited_config empty_Disk) = None
   \<and> read_error empty_Disk ''./data/config.json'' = None
   \<and> files (snd (saveConfig_part_001 encoding_json limited_config empty_Disk)) ''./data/config.json''
           = Some (Config_text limited_config)
   \<and> loadConfig_part_001 encoding_json (snd (saveConfig_part_001 encoding_json limited_config empty_Disk))
           \<lparr>Servers = None\<rparr> = (None, limited_config)"
proof -
  have v: "valid_Config limited_config"
    by (simp add: valid_Config_def limited_config_def valid_ServerConfig_def byte_def RuneError_def)
  from save_then_fresh_load_reproduces_config [OF v save_on_empty_Disk] v save_on_empty_Disk
  show ?thesis by simp
qed

end
